(* ===== verification/Prelude.thy ===== *)
theory Prelude
  imports Main "HOL-Library.Word" "HOL-Library.Multiset" "HOL-Library.Monad_Syntax"
    "HOL-Library.Code_Target_Nat"
begin

text \<open>
  Shared vocabulary of the development: the machine-integer types of the sources, the
  collections of simplification rules the components register their facts in, list and map
  lemmas used by several components, and the locale of deterministic state machines in which
  "every step keeps the invariant" is lifted once to whole runs.
\<close>

section \<open>Machine integers\<close>

type_synonym u8 = "8 word"
type_synonym u16 = "16 word"
type_synonym u32 = "32 word"
type_synonym u64 = "64 word"

text \<open>Rust's \<open>saturating_sub\<close> on an unsigned word.\<close>

definition saturating_sub :: "'a::len word \<Rightarrow> 'a word \<Rightarrow> 'a word" where
  "saturating_sub a b = (if a < b then 0 else a - b)"

lemma unat_saturating_sub: "unat (saturating_sub a b) = unat a - unat b"
  by (auto simp: saturating_sub_def word_less_nat_alt unat_sub word_le_nat_alt)

section \<open>Collections of facts\<close>

named_theorems frame_simps \<open>fields that an operation leaves alone\<close>
named_theorems inv_intros \<open>operations keep the invariant of their component\<close>

section \<open>Lists and maps\<close>

text \<open>\<open>Vec::dedup\<close>: consecutive repetitions are removed.\<close>

fun dedup :: "'a list \<Rightarrow> 'a list" where
  "dedup [] = []"
| "dedup [x] = [x]"
| "dedup (x # y # zs) = (if x = y then dedup (y # zs) else x # dedup (y # zs))"

lemma set_dedup [simp]: "set (dedup xs) = set xs"
  by (induction xs rule: dedup.induct) auto

lemma dedup_sorted_hd:
  "sorted (x # xs) \<Longrightarrow> y \<in> set (dedup xs) \<Longrightarrow> x \<le> y" for x :: "'a::linorder"
  by auto

lemma sorted_dedup: "sorted xs \<Longrightarrow> sorted (dedup xs)"
  by (induction xs rule: dedup.induct) auto

lemma distinct_dedup_sorted: "sorted xs \<Longrightarrow> distinct (dedup xs)"
proof (induction xs rule: dedup.induct)
  case (3 x y zs)
  show ?case
  proof (cases "x = y")
    case True
    with 3 show ?thesis by simp
  next
    case False
    with "3.prems" have "x < y" by (simp add: less_le)
    then have "x \<notin> set (y # zs)" using "3.prems" by auto
    then have "x \<notin> set (dedup (y # zs))" by simp
    moreover have "distinct (dedup (y # zs))" using 3 False by simp
    ultimately show ?thesis using False by (simp del: set_dedup)
  qed
qed simp_all

lemma dedup_sort_cong: "set xs = set ys \<Longrightarrow> dedup (sort xs) = dedup (sort ys)"
  for xs ys :: "'a::linorder list"
  by (rule sorted_distinct_set_unique)
     (auto intro: sorted_dedup distinct_dedup_sorted)

text \<open>A list read by index, as Rust's slices are: out of range is a panic.\<close>

definition nth_opt :: "'a list \<Rightarrow> nat \<Rightarrow> 'a option" where
  "nth_opt xs i = (if i < length xs then Some (xs ! i) else None)"

lemma nth_opt_Some [simp]: "i < length xs \<Longrightarrow> nth_opt xs i = Some (xs ! i)"
  by (simp add: nth_opt_def)

lemma nth_opt_None [simp]: "length xs \<le> i \<Longrightarrow> nth_opt xs i = None"
  by (simp add: nth_opt_def)

lemma nth_opt_eq_Some: "nth_opt xs i = Some x \<longleftrightarrow> i < length xs \<and> xs ! i = x"
  by (auto simp: nth_opt_def)

lemma length_filter_update_pred:
  assumes "distinct xs" "x \<in> set xs" "P x" "\<not> Q x" "\<And>y. y \<noteq> x \<Longrightarrow> Q y = P y"
  shows "length (filter Q xs) < length (filter P xs)"
  using assms(1,2)
proof (induction xs)
  case (Cons y ys)
  show ?case
  proof (cases "y = x")
    case True
    with Cons.prems have "x \<notin> set ys" by simp
    then have "filter Q ys = filter P ys"
      using assms(5) by (intro filter_cong refl) metis
    with True assms(3,4) show ?thesis by simp
  next
    case False
    with Cons assms(5)[of y] show ?thesis by auto
  qed
qed simp

lemma bind_Some_map: "Option.bind e (\<lambda>x. Some (f x)) = map_option f e"
  by (cases e) auto

text \<open>Effects that may panic, run one after the other over a list.\<close>

fun fold_opt :: "('a \<Rightarrow> 's \<Rightarrow> 's option) \<Rightarrow> 'a list \<Rightarrow> 's \<Rightarrow> 's option" where
  "fold_opt f [] s = Some s"
| "fold_opt f (x # xs) s = (case f x s of None \<Rightarrow> None | Some s' \<Rightarrow> fold_opt f xs s')"

lemma fold_opt_append:
  "fold_opt f (xs @ ys) s = (case fold_opt f xs s of None \<Rightarrow> None | Some s' \<Rightarrow> fold_opt f ys s')"
  by (induction xs arbitrary: s) (auto split: option.splits)

lemma fold_opt_inv:
  assumes "fold_opt f xs s = Some s'" "I s"
    and "\<And>x t t'. x \<in> set xs \<Longrightarrow> I t \<Longrightarrow> f x t = Some t' \<Longrightarrow> I t'"
  shows "I s'"
  using assms
proof (induction xs arbitrary: s)
  case (Cons x xs)
  from Cons.prems(1) obtain t where t: "f x s = Some t" "fold_opt f xs t = Some s'"
    by (auto split: option.splits)
  have "I t" using Cons.prems(2,3) t(1) by auto
  then show ?case using Cons.IH[OF t(2)] Cons.prems(3) by auto
qed simp

section \<open>Results\<close>

text \<open>
  \<open>Result<T, E>\<close> is a sum, the error on the left; \<open>bind_r\<close> is the question-mark operator.
  \<open>io_error\<close> keeps the kinds the sources look at and the text of every other error.
\<close>

datatype io_error = Not_Found | Already_Exists | Would_Block | Interrupted | Other_Error string

fun bind_r :: "'e + 'a \<Rightarrow> ('a \<Rightarrow> 'e + 'b) \<Rightarrow> 'e + 'b" where
  "bind_r (Inl e) f = Inl e"
| "bind_r (Inr x) f = f x"

fun map_err :: "('e \<Rightarrow> 'f) \<Rightarrow> 'e + 'a \<Rightarrow> 'f + 'a" where
  "map_err f (Inl e) = Inl (f e)"
| "map_err f (Inr x) = Inr x"

fun ok_or :: "'e \<Rightarrow> 'a option \<Rightarrow> 'e + 'a" where
  "ok_or e None = Inl e"
| "ok_or e (Some x) = Inr x"

lemma bind_r_Inr: "bind_r r f = Inr y \<longleftrightarrow> (\<exists>x. r = Inr x \<and> f x = Inr y)"
  by (cases r) auto

lemma map_err_Inr [simp]: "map_err f r = Inr y \<longleftrightarrow> r = Inr y"
  by (cases r) auto

lemma ok_or_Inr [simp]: "ok_or e r = Inr y \<longleftrightarrow> r = Some y"
  by (cases r) auto

text \<open>A loop with \<open>?\<close> in its body: the results in order, or the first error.\<close>

fun traverse :: "('a \<Rightarrow> 'e + 'b) \<Rightarrow> 'a list \<Rightarrow> 'e + 'b list" where
  "traverse f [] = Inr []"
| "traverse f (x # xs) = bind_r (f x) (\<lambda>y. bind_r (traverse f xs) (\<lambda>ys. Inr (y # ys)))"

lemma traverse_Inr: "traverse f xs = Inr ys \<longleftrightarrow> list_all2 (\<lambda>x y. f x = Inr y) xs ys"
  by (induction xs arbitrary: ys) (auto simp: bind_r_Inr list_all2_Cons1)

section \<open>Deterministic state machines\<close>

text \<open>
  Several programs of the system are an event loop around a state: the login daemon, PID 1,
  the installer's form. The contract they share is one step function and an invariant that
  each step on an admissible event keeps.
\<close>

locale machine =
  fixes step :: "'s \<Rightarrow> 'e \<Rightarrow> 's" and inv :: "'s \<Rightarrow> bool" and ok :: "'e \<Rightarrow> bool"
  assumes step_inv: "inv s \<Longrightarrow> ok e \<Longrightarrow> inv (step s e)"
begin

lemma run_inv: "inv s \<Longrightarrow> list_all ok es \<Longrightarrow> inv (foldl step s es)"
  by (induction es arbitrary: s) (auto intro: step_inv)

text \<open>What every step does to a quantity, a run does to it.\<close>

lemma run_measure:
  fixes f :: "'s \<Rightarrow> 'o::order"
  assumes "\<And>s e. inv s \<Longrightarrow> ok e \<Longrightarrow> f s \<le> f (step s e)"
  shows "inv s \<Longrightarrow> list_all ok es \<Longrightarrow> f s \<le> f (foldl step s es)"
proof (induction es arbitrary: s)
  case (Cons e es)
  then show ?case using assms[of s e] step_inv[of s e] by (auto intro: order_trans)
qed simp

end

text \<open>A machine with a flag that, once up, stays up: shutdown requests, cancelled forms.\<close>

locale latched_machine = machine step inv ok
  for step :: "'s \<Rightarrow> 'e \<Rightarrow> 's" and inv :: "'s \<Rightarrow> bool" and ok :: "'e \<Rightarrow> bool" +
  fixes latch :: "'s \<Rightarrow> bool"
  assumes latch_step: "inv s \<Longrightarrow> ok e \<Longrightarrow> latch s \<Longrightarrow> latch (step s e)"
begin

lemma latch_run: "inv s \<Longrightarrow> list_all ok es \<Longrightarrow> latch s \<Longrightarrow> latch (foldl step s es)"
  by (induction es arbitrary: s) (auto intro: step_inv latch_step)

end

section \<open>Sources of identifiers\<close>

text \<open>
  A counter that hands out names: each call returns the name of the counter and moves it on.
  The counter is a machine word in the sources, so the names are only distinct below a bound.
\<close>

locale id_source =
  fixes alloc :: "'s \<Rightarrow> 'i \<times> 's" and name :: "nat \<Rightarrow> 'i" and counter :: "'s \<Rightarrow> nat" and bound :: nat
  assumes alloc_name: "fst (alloc s) = name (counter s)"
    and alloc_counter: "Suc (counter s) < bound \<Longrightarrow> counter (snd (alloc s)) = Suc (counter s)"
    and name_inj: "inj_on name {..<bound}"
begin

fun issue :: "nat \<Rightarrow> 's \<Rightarrow> 'i list" where
  "issue 0 s = []"
| "issue (Suc n) s = fst (alloc s) # issue n (snd (alloc s))"

lemma issue_names: "counter s + n < bound \<Longrightarrow> issue n s = map name [counter s..<counter s + n]"
proof (induction n arbitrary: s)
  case (Suc n)
  then have "counter (snd (alloc s)) = Suc (counter s)" by (intro alloc_counter) simp
  with Suc upt_conv_Cons[of "counter s" "counter s + Suc n"] show ?case
    by (simp add: alloc_name del: upt_Suc)
qed simp

lemma issue_distinct: "counter s + n < bound \<Longrightarrow> distinct (issue n s)"
  by (simp add: issue_names distinct_map inj_on_subset[OF name_inj] subset_iff)

lemma alloc_fresh:
  assumes "counter s < bound" "used \<subseteq> name ` {..<counter s}"
  shows "fst (alloc s) \<notin> used"
proof
  assume "fst (alloc s) \<in> used"
  with assms(2) obtain m where "m < counter s" "name (counter s) = name m" by (auto simp: alloc_name)
  with assms(1) inj_onD[OF name_inj, of "counter s" m] show False by simp
qed

end

end
