(* ===== verification/Rust_Text.thy ===== *)
theory Rust_Text
  imports Prelude "HOL-Library.List_Lexorder" "HOL-Library.Char_ord"
begin

text \<open>
  The text operations of Rust's standard library that the sources use, on byte strings.
  A \<open>String\<close> is the list of its UTF-8 bytes, so \<open>len\<close>, \<open>cmp\<close> and slicing are those of the
  list. White space is its ASCII part (tab, line feed, vertical tab, form feed, carriage
  return, space): a white-space character outside ASCII is not recognised.
  Integer parsing (\<open>str::parse\<close>) and printing (\<open>to_string\<close>) are defined here with
  their round trip, which several components rest on.
\<close>

section \<open>Characters\<close>

definition is_ws :: "char \<Rightarrow> bool" where
  "is_ws c \<longleftrightarrow> (let n = (of_char c :: nat) in (9 \<le> n \<and> n \<le> 13) \<or> n = 32)"

definition is_digit :: "char \<Rightarrow> bool" where
  "is_digit c \<longleftrightarrow> (let n = (of_char c :: nat) in 48 \<le> n \<and> n \<le> 57)"

definition is_lower :: "char \<Rightarrow> bool" where
  "is_lower c \<longleftrightarrow> (let n = (of_char c :: nat) in 97 \<le> n \<and> n \<le> 122)"

definition is_upper :: "char \<Rightarrow> bool" where
  "is_upper c \<longleftrightarrow> (let n = (of_char c :: nat) in 65 \<le> n \<and> n \<le> 90)"

definition upper_char :: "char \<Rightarrow> char" where
  "upper_char c = (if is_lower c then char_of ((of_char c :: nat) - 32) else c)"

definition lower_char :: "char \<Rightarrow> char" where
  "lower_char c = (if is_upper c then char_of ((of_char c :: nat) + 32) else c)"

abbreviation to_ascii_uppercase :: "string \<Rightarrow> string" where
  "to_ascii_uppercase \<equiv> map upper_char"

abbreviation to_ascii_lowercase :: "string \<Rightarrow> string" where
  "to_ascii_lowercase \<equiv> map lower_char"

definition eq_ignore_ascii_case :: "string \<Rightarrow> string \<Rightarrow> bool" where
  "eq_ignore_ascii_case s t \<longleftrightarrow> to_ascii_lowercase s = to_ascii_lowercase t"

abbreviation LF :: char where "LF \<equiv> CHR 0x0A"
abbreviation CR :: char where "CR \<equiv> CHR 0x0D"
abbreviation NUL :: char where "NUL \<equiv> CHR 0x00"

section \<open>Trimming, prefixes, splitting\<close>

definition trim_start :: "string \<Rightarrow> string" where
  "trim_start s = dropWhile is_ws s"

definition trim_end_matches :: "(char \<Rightarrow> bool) \<Rightarrow> string \<Rightarrow> string" where
  "trim_end_matches p s = rev (dropWhile p (rev s))"

definition trim :: "string \<Rightarrow> string" where
  "trim s = trim_end_matches is_ws (trim_start s)"

fun strip_prefix :: "string \<Rightarrow> string \<Rightarrow> string option" where
  "strip_prefix [] s = Some s"
| "strip_prefix (p # ps) [] = None"
| "strip_prefix (p # ps) (c # cs) = (if p = c then strip_prefix ps cs else None)"

definition strip_suffix :: "string \<Rightarrow> string \<Rightarrow> string option" where
  "strip_suffix p s = map_option rev (strip_prefix (rev p) (rev s))"

definition starts_with :: "string \<Rightarrow> string \<Rightarrow> bool" where
  "starts_with p s \<longleftrightarrow> strip_prefix p s \<noteq> None"

definition ends_with :: "string \<Rightarrow> string \<Rightarrow> bool" where
  "ends_with p s \<longleftrightarrow> strip_suffix p s \<noteq> None"

lemma strip_prefix_iff: "strip_prefix p s = Some r \<longleftrightarrow> s = p @ r"
  by (induction p s rule: strip_prefix.induct) auto

lemma strip_prefix_append [simp]: "strip_prefix p (p @ r) = Some r"
  by (simp add: strip_prefix_iff)

lemma strip_suffix_iff: "strip_suffix p s = Some r \<longleftrightarrow> s = r @ p"
  by (auto simp: strip_suffix_def strip_prefix_iff) (metis rev_append rev_rev_ident)

lemma strip_suffix_append [simp]: "strip_suffix p (r @ p) = Some r"
  by (simp add: strip_suffix_iff)

lemma strip_suffix_None: "strip_suffix p s = None \<longleftrightarrow> (\<forall>r. s \<noteq> r @ p)"
  using strip_suffix_iff[of p s] by (metis not_None_eq)

lemma strip_suffix_last_neq [simp]:
  "p \<noteq> [] \<Longrightarrow> s \<noteq> [] \<Longrightarrow> last p \<noteq> last s \<Longrightarrow> strip_suffix p s = None"
  unfolding strip_suffix_None by (metis last_appendR)

lemma starts_with_iff: "starts_with p s \<longleftrightarrow> (\<exists>r. s = p @ r)"
  by (auto simp: starts_with_def strip_prefix_iff)

lemma ends_with_iff: "ends_with p s \<longleftrightarrow> (\<exists>r. s = r @ p)"
  by (auto simp: ends_with_def strip_suffix_iff)

function split_whitespace :: "string \<Rightarrow> string list" where
  "split_whitespace [] = []"
| "split_whitespace (c # cs) =
     (if is_ws c then split_whitespace cs
      else (c # takeWhile (\<lambda>x. \<not> is_ws x) cs) # split_whitespace (dropWhile (\<lambda>x. \<not> is_ws x) cs))"
  by pat_completeness auto
termination
  by (relation "measure length") (auto simp: length_dropWhile_le le_imp_less_Suc)

text \<open>\<open>str::split(c)\<close>: always at least one piece.\<close>

fun split_on :: "char \<Rightarrow> string \<Rightarrow> string list" where
  "split_on c [] = [[]]"
| "split_on c (x # xs) =
     (if x = c then [] # split_on c xs
      else (case split_on c xs of [] \<Rightarrow> [[x]] | y # ys \<Rightarrow> (x # y) # ys))"

text \<open>\<open>str::splitn(n, c)\<close>: at most \<open>n\<close> pieces, the last one unsplit.\<close>

fun splitn :: "nat \<Rightarrow> char \<Rightarrow> string \<Rightarrow> string list" where
  "splitn 0 c s = []"
| "splitn (Suc 0) c s = [s]"
| "splitn (Suc (Suc n)) c s =
     (if c \<in> set s
      then takeWhile (\<lambda>x. x \<noteq> c) s # splitn (Suc n) c (tl (dropWhile (\<lambda>x. x \<noteq> c) s))
      else [s])"

definition split_once :: "char \<Rightarrow> string \<Rightarrow> (string \<times> string) option" where
  "split_once c s =
     (if c \<in> set s
      then Some (takeWhile (\<lambda>x. x \<noteq> c) s, tl (dropWhile (\<lambda>x. x \<noteq> c) s)) else None)"

text \<open>
  \<open>str::lines\<close>: a line ends at a line feed, with one carriage return before it dropped;
  a last line without a line feed is kept as it is, unless it is empty.
\<close>

definition strip_cr :: "string \<Rightarrow> string" where
  "strip_cr l = (case strip_suffix [CR] l of Some r \<Rightarrow> r | None \<Rightarrow> l)"

definition lines :: "string \<Rightarrow> string list" where
  "lines s =
     (let ps = split_on LF s
      in map strip_cr (butlast ps) @ (if last ps = [] then [] else [last ps]))"

fun join :: "string \<Rightarrow> string list \<Rightarrow> string" where
  "join sep [] = []"
| "join sep [x] = x"
| "join sep (x # y # ys) = x @ sep @ join sep (y # ys)"

lemma split_on_nonempty [simp]: "split_on c s \<noteq> []"
  by (induction s) (auto split: list.splits)

lemma split_on_no_sep: "p \<in> set (split_on c s) \<Longrightarrow> c \<notin> set p"
  by (induction s arbitrary: p) (auto split: if_splits list.splits)

lemma split_on_single: "c \<notin> set s \<Longrightarrow> split_on c s = [s]"
  by (induction s) auto

lemma split_on_append: "c \<notin> set s \<Longrightarrow> split_on c (s @ c # r) = s # split_on c r"
  by (induction s) auto

lemma split_on_join:
  "xs \<noteq> [] \<Longrightarrow> \<forall>x \<in> set xs. c \<notin> set x \<Longrightarrow> split_on c (join [c] xs) = xs"
proof (induction xs rule: induct_list012)
  case (3 x y zs)
  then show ?case using split_on_append[of c x "join [c] (y # zs)"] by simp
qed (auto simp: split_on_single)

lemma lines_append_LF:
  assumes "LF \<notin> set l" "\<not> ends_with [CR] l"
  shows "lines (l @ LF # r) = l # lines r"
proof -
  have "strip_cr l = l"
    using assms(2) by (simp add: strip_cr_def ends_with_def split: option.splits)
  then show ?thesis
    using assms(1) by (simp add: lines_def Let_def split_on_append)
qed

lemma lines_Nil [simp]: "lines [] = []"
  by (simp add: lines_def)

lemma ws_not_in_split_whitespace:
  "t \<in> set (split_whitespace s) \<Longrightarrow> t \<noteq> [] \<and> (\<forall>c \<in> set t. \<not> is_ws c)"
proof (induction s arbitrary: t rule: split_whitespace.induct)
  case (2 c cs)
  show ?case
  proof (cases "is_ws c")
    case True
    with 2 show ?thesis by simp
  next
    case False
    show ?thesis
    proof (cases "t = c # takeWhile (\<lambda>x. \<not> is_ws x) cs")
      case True
      with False show ?thesis by (auto dest: set_takeWhileD)
    next
      case f: False
      with "2.prems" False have "t \<in> set (split_whitespace (dropWhile (\<lambda>x. \<not> is_ws x) cs))"
        by simp
      with "2.IH"(2) False show ?thesis by blast
    qed
  qed
qed simp

section \<open>Words and replacement\<close>

lemma split_whitespace_word_append:
  "is_ws b \<Longrightarrow> split_whitespace (a @ b # r) = split_whitespace a @ split_whitespace r"
proof (induction a rule: split_whitespace.induct)
  case (2 c cs)
  show ?case
  proof (cases "is_ws c")
    case True
    with 2 show ?thesis by simp
  next
    case False
    show ?thesis
    proof (cases "\<exists>x \<in> set cs. is_ws x")
      case True
      then obtain x where x: "x \<in> set cs" "\<not> \<not> is_ws x" by blast
      have "takeWhile (\<lambda>x. \<not> is_ws x) (cs @ b # r) = takeWhile (\<lambda>x. \<not> is_ws x) cs"
        "dropWhile (\<lambda>x. \<not> is_ws x) (cs @ b # r) = dropWhile (\<lambda>x. \<not> is_ws x) cs @ b # r"
        using takeWhile_append1[of x cs "\<lambda>x. \<not> is_ws x"] dropWhile_append1[of x cs "\<lambda>x. \<not> is_ws x"] x by auto
      with 2 False show ?thesis by simp
    next
      case none: False
      then have "takeWhile (\<lambda>x. \<not> is_ws x) (cs @ b # r) = cs"
        "dropWhile (\<lambda>x. \<not> is_ws x) (cs @ b # r) = b # r" "takeWhile (\<lambda>x. \<not> is_ws x) cs = cs"
        "dropWhile (\<lambda>x. \<not> is_ws x) cs = []"
        using "2.prems" by (simp_all add: takeWhile_append2 dropWhile_append2 takeWhile_eq_all_conv dropWhile_eq_Nil_conv)
      then show ?thesis using False "2.prems" by (simp only: append_Cons split_whitespace.simps if_False if_True) simp
    qed
  qed
qed simp

lemma split_whitespace_trim_end:
  assumes "\<And>c. p c \<Longrightarrow> is_ws c"
  shows "split_whitespace (trim_end_matches p s) = split_whitespace s"
proof (induction s rule: rev_induct)
  case (snoc c s)
  show ?case
  proof (cases "p c")
    case True
    then have "trim_end_matches p (s @ [c]) = trim_end_matches p s" by (simp add: trim_end_matches_def)
    with snoc split_whitespace_word_append[OF assms[OF True], of s "[]"] show ?thesis by simp
  qed (simp add: trim_end_matches_def)
qed (simp add: trim_end_matches_def)

lemma ws_chars [simp]: "is_ws (CHR '' '')" "is_ws LF" "is_ws CR"
  by (simp_all add: is_ws_def)

definition is_word :: "string \<Rightarrow> bool" where
  "is_word a \<longleftrightarrow> a \<noteq> [] \<and> (\<forall>c \<in> set a. \<not> is_ws c)"

lemma split_whitespace_word: "is_word a \<Longrightarrow> split_whitespace a = [a]"
proof (cases a)
  case (Cons c cs)
  assume "is_word a"
  with Cons have "takeWhile (\<lambda>x. \<not> is_ws x) cs = cs" "dropWhile (\<lambda>x. \<not> is_ws x) cs = []" "\<not> is_ws c"
    by (simp_all add: is_word_def takeWhile_eq_all_conv dropWhile_eq_Nil_conv)
  then show ?thesis by (simp only: Cons split_whitespace.simps if_False)
qed (simp add: is_word_def)

text \<open>\<open>str::replace\<close> with a pattern that is not empty: leftmost matches, without overlap.\<close>

function replace :: "string \<Rightarrow> string \<Rightarrow> string \<Rightarrow> string" where
  "replace p r s =
     (case strip_prefix p s of
        Some rest \<Rightarrow> if p = [] then s else r @ replace p r rest
      | None \<Rightarrow> (case s of [] \<Rightarrow> [] | c # cs \<Rightarrow> c # replace p r cs))"
  by pat_completeness auto
termination
proof (relation "measure (\<lambda>(p, r, s). length s)")
  fix p r s rest :: string
  assume "strip_prefix p s = Some rest" "p \<noteq> []"
  then show "((p, r, rest), (p, r, s)) \<in> measure (\<lambda>(p, r, s). length s)"
    by (auto simp: strip_prefix_iff)
qed auto

declare replace.simps [simp del]

lemma replace_Nil [simp]: "replace p r [] = []"
  by (subst replace.simps) (cases p; simp)

lemma replace_match: "p \<noteq> [] \<Longrightarrow> replace p r (p @ s) = r @ replace p r s"
  by (subst replace.simps) simp

lemma replace_skip: "strip_prefix p (c # cs) = None \<Longrightarrow> replace p r (c # cs) = c # replace p r cs"
  by (subst replace.simps) simp

lemma replace_sep:
  assumes "c \<notin> set p" "p \<noteq> []"
  shows "replace p r (a @ c # b) = replace p r a @ c # replace p r b"
proof (induction "length a" arbitrary: a rule: less_induct)
  case less
  show ?case
  proof (cases "strip_prefix p (a @ c # b)")
    case (Some rest)
    then have eq: "a @ c # b = p @ rest" by (simp add: strip_prefix_iff)
    then obtain a' where a': "a = p @ a'" "rest = a' @ c # b"
      using assms(1) by (auto simp: append_eq_append_conv2 Cons_eq_append_conv)
    then have "length a' < length a" using assms(2) by simp
    from less[OF this] show ?thesis using assms(2) by (simp add: a' replace_match)
  next
    case None
    show ?thesis
    proof (cases a)
      case Nil
      have "replace p r (c # b) = c # replace p r b" by (rule replace_skip) (use None Nil in simp)
      with Nil show ?thesis by simp
    next
      case (Cons d ds)
      have "strip_prefix p a = None"
      proof (rule ccontr)
        assume "strip_prefix p a \<noteq> None"
        then obtain x where "a = p @ x" by (auto simp: strip_prefix_iff)
        with None show False by simp
      qed
      with None Cons less[of ds] show ?thesis by (simp add: replace_skip)
    qed
  qed
qed

lemma replace_chars: "set (replace p r s) \<subseteq> set r \<union> set s"
proof (induction "length s" arbitrary: s rule: less_induct)
  case less
  show ?case
  proof (cases "strip_prefix p s")
    case (Some rest)
    then have s: "s = p @ rest" by (simp add: strip_prefix_iff)
    show ?thesis
    proof (cases "p = []")
      case False
      with less[of rest] s show ?thesis by (auto simp: replace_match)
    qed (subst replace.simps, simp)
  next
    case None
    with less show ?thesis by (cases s) (auto simp: replace_skip)
  qed
qed

lemma replace_word:
  assumes "is_word r" "is_word w" "p \<noteq> []"
  shows "is_word (replace p r w)"
proof -
  have "replace p r w \<noteq> []"
  proof (cases "strip_prefix p w")
    case (Some rest)
    with assms show ?thesis by (auto simp: strip_prefix_iff replace_match is_word_def)
  next
    case None
    with assms(2) show ?thesis by (cases w) (auto simp: replace_skip is_word_def)
  qed
  with assms replace_chars[of p r w] show ?thesis unfolding is_word_def by blast
qed

text \<open>Replacing inside the words of a text.\<close>

lemma split_whitespace_replace:
  assumes "is_word r" "is_word p"
  shows "split_whitespace (replace p r s) = map (replace p r) (split_whitespace s)"
proof (induction "length s" arbitrary: s rule: less_induct)
  case less
  show ?case
  proof (cases "\<exists>x \<in> set s. is_ws x")
    case True
    then obtain a b t where s: "s = a @ b # t" "is_ws b" "\<forall>x \<in> set a. \<not> is_ws x"
      by (metis split_list_first_prop)
    have "b \<notin> set p" "p \<noteq> []" using s(2) assms(2) by (auto simp: is_word_def)
    from replace_sep[OF this, of r a t] have
      "split_whitespace (replace p r s) = split_whitespace (replace p r a) @ split_whitespace (replace p r t)"
      by (simp add: s split_whitespace_word_append)
    with less[of a] less[of t] show ?thesis by (simp add: s split_whitespace_word_append)
  next
    case False
    show ?thesis
    proof (cases "s = []")
      case False
      with \<open>\<not> (\<exists>x \<in> set s. is_ws x)\<close> have "is_word s" by (simp add: is_word_def)
      have "p \<noteq> []" using assms(2) by (simp add: is_word_def)
      from replace_word[OF assms(1) \<open>is_word s\<close> this] have "is_word (replace p r s)" .
      with \<open>is_word s\<close> show ?thesis by (simp add: split_whitespace_word)
    qed simp
  qed
qed

section \<open>Paths\<close>

text \<open>\<open>Path::join\<close>: an absolute second path replaces the first.\<close>

definition path_join :: "string \<Rightarrow> string \<Rightarrow> string" where
  "path_join a b =
     (if starts_with ''/'' b then b
      else if a = [] then b
      else if ends_with ''/'' a then a @ b else a @ ''/'' @ b)"

text \<open>\<open>Path::file_name\<close>: the last component, unless it is the parent directory.\<close>

definition path_file_name :: "string \<Rightarrow> string option" where
  "path_file_name p =
     (let cs = filter (\<lambda>c. c \<noteq> [] \<and> c \<noteq> ''.'') (split_on (CHR ''/'') p)
      in if cs = [] \<or> last cs = ''..'' then None else Some (last cs))"

section \<open>UTF-8\<close>

text \<open>\<open>str::from_utf8\<close>: the well-formed byte sequences of the Unicode standard.\<close>

definition between :: "nat \<Rightarrow> nat \<Rightarrow> nat \<Rightarrow> bool" where
  "between a b n \<longleftrightarrow> a \<le> n \<and> n \<le> b"

abbreviation cont_byte :: "nat \<Rightarrow> bool" where
  "cont_byte \<equiv> between 0x80 0xBF"

fun utf8_valid :: "nat list \<Rightarrow> bool" where
  "utf8_valid [] = True"
| "utf8_valid (a # r) =
     (if a < 0x80 then utf8_valid r
      else if between 0xC2 0xDF a
      then (case r of b # r' \<Rightarrow> cont_byte b \<and> utf8_valid r' | _ \<Rightarrow> False)
      else if between 0xE0 0xEF a
      then (case r of b # c # r' \<Rightarrow>
                between (if a = 0xE0 then 0xA0 else 0x80) (if a = 0xED then 0x9F else 0xBF) b
                \<and> cont_byte c \<and> utf8_valid r'
            | _ \<Rightarrow> False)
      else if between 0xF0 0xF4 a
      then (case r of b # c # d # r' \<Rightarrow>
                between (if a = 0xF0 then 0x90 else 0x80) (if a = 0xF4 then 0x8F else 0xBF) b
                \<and> cont_byte c \<and> cont_byte d \<and> utf8_valid r'
            | _ \<Rightarrow> False)
      else False)"

section \<open>Unsigned integers as text\<close>

definition digit_val :: "char \<Rightarrow> nat" where
  "digit_val c = of_char c - 48"

definition digit_char :: "nat \<Rightarrow> char" where
  "digit_char n = char_of (48 + n)"

fun parse_digits :: "string \<Rightarrow> nat \<Rightarrow> nat option" where
  "parse_digits [] acc = Some acc"
| "parse_digits (c # cs) acc =
     (if is_digit c then parse_digits cs (acc * 10 + digit_val c) else None)"

text \<open>
  \<open>from_str\<close> of an unsigned type: an optional plus sign, then at least one digit, the value
  below the given bound.
\<close>

definition parse_uint :: "nat \<Rightarrow> string \<Rightarrow> nat option" where
  "parse_uint bound s =
     (let ds = (case s of [] \<Rightarrow> [] | c # cs \<Rightarrow> if c = CHR ''+'' then cs else s)
      in if ds = [] then None
         else case parse_digits ds 0 of
                None \<Rightarrow> None
              | Some n \<Rightarrow> if n < bound then Some n else None)"

definition parse_u64 :: "string \<Rightarrow> u64 option" where
  "parse_u64 s = map_option of_nat (parse_uint (2 ^ 64) s)"

definition parse_u32 :: "string \<Rightarrow> u32 option" where
  "parse_u32 s = map_option of_nat (parse_uint (2 ^ 32) s)"

fun show_nat :: "nat \<Rightarrow> string" where
  "show_nat n = (if n < 10 then [digit_char n] else show_nat (n div 10) @ [digit_char (n mod 10)])"

declare show_nat.simps [simp del]

lemma of_char_digit_char: "n < 10 \<Longrightarrow> (of_char (digit_char n) :: nat) = 48 + n"
  by (simp add: digit_char_def of_char_of)

lemma digit_char_facts [simp]:
  "n < 10 \<Longrightarrow> is_digit (digit_char n)" "n < 10 \<Longrightarrow> digit_val (digit_char n) = n"
  "n < 10 \<Longrightarrow> digit_char n \<noteq> CHR ''+''" "n < 10 \<Longrightarrow> \<not> is_ws (digit_char n)"
proof -
  show "n < 10 \<Longrightarrow> is_digit (digit_char n)" "n < 10 \<Longrightarrow> digit_val (digit_char n) = n"
    "n < 10 \<Longrightarrow> \<not> is_ws (digit_char n)"
    by (simp_all add: is_digit_def digit_val_def is_ws_def of_char_digit_char)
  show "n < 10 \<Longrightarrow> digit_char n \<noteq> CHR ''+''"
  proof
    assume "n < 10" "digit_char n = CHR ''+''"
    then have "(48 + n :: nat) = of_char (CHR ''+'')"
      using of_char_digit_char by metis
    then show False by simp
  qed
qed

lemma parse_digits_append:
  "parse_digits (xs @ ys) acc = (case parse_digits xs acc of None \<Rightarrow> None | Some a \<Rightarrow> parse_digits ys a)"
  by (induction xs arbitrary: acc) auto

lemma show_nat_nonempty [simp]: "show_nat n \<noteq> []"
  by (subst show_nat.simps) simp

lemma parse_show_digits: "parse_digits (show_nat n) 0 = Some n"
proof (induction n rule: show_nat.induct)
  case (1 n)
  then show ?case
    by (subst show_nat.simps) (auto simp: parse_digits_append)
qed

lemma show_nat_chars: "c \<in> set (show_nat n) \<Longrightarrow> is_digit c"
proof (induction n rule: show_nat.induct)
  case (1 n)
  then show ?case by (subst (asm) show_nat.simps) (auto split: if_splits)
qed

lemma show_nat_hd: "hd (show_nat n) \<noteq> CHR ''+''"
  using show_nat_chars[of "hd (show_nat n)" n]
  by (auto simp: is_digit_def)

lemma parse_uint_show_nat: "n < bound \<Longrightarrow> parse_uint bound (show_nat n) = Some n"
  using parse_show_digits[of n] show_nat_hd[of n] show_nat_nonempty[of n]
  by (cases "show_nat n") (auto simp: parse_uint_def)

lemma parse_uint_bound: "parse_uint bound s = Some n \<Longrightarrow> n < bound"
  by (auto simp: parse_uint_def Let_def split: option.splits if_splits)

lemma parse_u32_show: "parse_u32 (show_nat (unat w)) = Some w"
proof -
  have "unat w < 2 ^ LENGTH(32)" by (rule unsigned_less)
  then have "unat w < 2 ^ 32" by simp
  then show ?thesis by (simp add: parse_u32_def parse_uint_show_nat)
qed

lemma show_nat_inject: "show_nat m = show_nat n \<longleftrightarrow> m = n"
  using parse_show_digits by (metis option.inject)

lemma trim_id: "\<forall>c \<in> set s. \<not> is_ws c \<Longrightarrow> trim s = s"
proof -
  assume a: "\<forall>c \<in> set s. \<not> is_ws c"
  then have 1: "dropWhile is_ws s = s" by (cases s) auto
  from a have "\<forall>c \<in> set (rev s). \<not> is_ws c" by simp
  then have "dropWhile is_ws (rev s) = rev s" by (cases "rev s") simp_all
  with 1 show ?thesis by (simp add: trim_def trim_start_def trim_end_matches_def)
qed

lemma digit_not_ws: "is_digit c \<Longrightarrow> \<not> is_ws c"
  by (auto simp: is_digit_def is_ws_def Let_def)

lemma trim_show_nat: "trim (show_nat n) = show_nat n"
  by (rule trim_id) (auto dest: show_nat_chars digit_not_ws)

lemma trim_show_unit: "\<forall>c \<in> set u. \<not> is_ws c \<Longrightarrow> trim (show_nat n @ u) = show_nat n @ u"
  by (rule trim_id) (auto dest: show_nat_chars digit_not_ws)

lemma is_digit_last_show [simp]: "is_digit (last (show_nat n))"
  using show_nat_chars[of "last (show_nat n)" n] by simp

text \<open>\<open>to_string\<close> of a signed type.\<close>

definition show_int :: "int \<Rightarrow> string" where
  "show_int i = (if i < 0 then CHR ''-'' # show_nat (nat (- i)) else show_nat (nat i))"

section \<open>Formatting\<close>

text \<open>\<open>chars().count()\<close>, and \<open>{s:w}\<close> and \<open>{s:>w}\<close>, which pad with spaces by it.\<close>

definition char_count :: "string \<Rightarrow> nat" where
  "char_count s = length (filter (\<lambda>c. \<not> cont_byte (of_char c)) s)"

definition pad_right :: "nat \<Rightarrow> string \<Rightarrow> string" where
  "pad_right w s = s @ replicate (w - char_count s) (CHR '' '')"

definition pad_left :: "nat \<Rightarrow> string \<Rightarrow> string" where
  "pad_left w s = replicate (w - char_count s) (CHR '' '') @ s"

text \<open>Characters outside ASCII that appear in messages, as UTF-8 bytes.\<close>

definition em_dash :: string where
  "em_dash = [CHR 0xE2, CHR 0x80, CHR 0x94]"

definition right_arrow :: string where
  "right_arrow = [CHR 0xE2, CHR 0x86, CHR 0x92]"

end
