(* ===== verification/Config.thy ===== *)
theory Config
  imports Rust_Text
begin

text \<open>
  crates/writeonce-svc/src/config.rs: durations, the unit-file schema and the directory
  loader. A duration is its number of nanoseconds. The TOML grammar is the toml crate's: a
  parsed document is a \<open>toml\<close> value and the crate's parser a parameter of the loader; what
  the schema's derive attributes say (names, defaults, required fields) is written out on
  that value.
\<close>

section \<open>Durations\<close>

type_synonym duration = nat

definition from_millis :: "u64 \<Rightarrow> duration" where
  "from_millis n = unat n * 1000000"

definition from_secs :: "u64 \<Rightarrow> duration" where
  "from_secs n = unat n * 1000000000"

text \<open>The products are on \<open>u64\<close>: they wrap in a release build.\<close>

definition parse_duration :: "string \<Rightarrow> duration option" where
  "parse_duration s0 =
     (let s = trim s0 in
      case strip_suffix ''ms'' s of
        Some n \<Rightarrow> map_option from_millis (parse_u64 n)
      | None \<Rightarrow> (case strip_suffix ''h'' s of
        Some n \<Rightarrow> map_option (\<lambda>v. from_secs (v * 3600)) (parse_u64 n)
      | None \<Rightarrow> (case strip_suffix ''m'' s of
        Some n \<Rightarrow> map_option (\<lambda>v. from_secs (v * 60)) (parse_u64 n)
      | None \<Rightarrow> (case strip_suffix ''s'' s of
        Some n \<Rightarrow> map_option from_secs (parse_u64 n)
      | None \<Rightarrow> map_option from_secs (parse_u64 s)))))"

lemma parse_u64_show [simp]: "parse_u64 (show_nat (unat w)) = Some w"
proof -
  have "unat w < 2 ^ LENGTH(64)" by (rule unsigned_less)
  then show ?thesis by (simp add: parse_u64_def parse_uint_show_nat)
qed

lemma last_show_neq: "\<not> is_digit c \<Longrightarrow> last (show_nat n) \<noteq> c"
  using is_digit_last_show by metis

lemma strip_suffix_show_unit:
  "p \<noteq> [] \<Longrightarrow> \<not> is_digit (last p) \<Longrightarrow> strip_suffix p (show_nat n) = None"
  "\<not> is_digit a \<Longrightarrow> strip_suffix [a, b] (show_nat n @ [b]) = None"
proof -
  show "p \<noteq> [] \<Longrightarrow> \<not> is_digit (last p) \<Longrightarrow> strip_suffix p (show_nat n) = None"
    using last_show_neq[of "last p" n] by (intro strip_suffix_last_neq) auto
  assume a: "\<not> is_digit a"
  show "strip_suffix [a, b] (show_nat n @ [b]) = None"
    unfolding strip_suffix_None
  proof
    fix r
    have "last (show_nat n) \<noteq> last (r @ [a])" using last_show_neq[OF a] by simp
    then show "show_nat n @ [b] \<noteq> r @ [a, b]" by (metis append_Cons append_Nil append_assoc append_same_eq)
  qed
qed

lemma unit_chars [simp]:
  "\<not> is_ws (CHR ''m'')" "\<not> is_ws (CHR ''s'')" "\<not> is_ws (CHR ''h'')"
  "\<not> is_digit (CHR ''m'')" "\<not> is_digit (CHR ''s'')" "\<not> is_digit (CHR ''h'')"
  by (simp_all add: is_ws_def is_digit_def)

text \<open>
  Every unit suffix of a duration is read as documented, the number printed in decimal;
  the two-letter suffix wins over its letters and a bare number counts seconds. Hours and
  minutes are multiplied on 64-bit words.
\<close>

theorem parse_duration_units:
  "parse_duration (show_nat (unat v) @ ''ms'') = Some (from_millis v) \<and>
   parse_duration (show_nat (unat v) @ ''s'') = Some (from_secs v) \<and>
   parse_duration (show_nat (unat v) @ ''m'') = Some (from_secs (v * 60)) \<and>
   parse_duration (show_nat (unat v) @ ''h'') = Some (from_secs (v * 3600)) \<and>
   parse_duration (show_nat (unat v)) = Some (from_secs v)"
  using strip_suffix_append[of "''ms''" "show_nat (unat v)"]
    strip_suffix_append[of "''s''" "show_nat (unat v)"]
    strip_suffix_append[of "''m''" "show_nat (unat v)"]
    strip_suffix_append[of "''h''" "show_nat (unat v)"]
  by (simp add: parse_duration_def Let_def trim_show_unit trim_show_nat strip_suffix_show_unit
        last_show_neq)

text \<open>
  An hour or minute count is read exactly when the product fits in 64 bits; beyond that
  the value wraps around instead of being refused, although the parser's contract is to
  answer \<open>None\<close> for what it cannot represent.
\<close>

lemma parse_duration_exact_iff:
  fixes v :: u64
  shows "(parse_duration (show_nat (unat v) @ ''h'') = Some (unat v * 3600 * 1000000000)
      \<longleftrightarrow> unat v * 3600 < 2 ^ 64) \<and>
   (parse_duration (show_nat (unat v) @ ''m'') = Some (unat v * 60 * 1000000000)
      \<longleftrightarrow> unat v * 60 < 2 ^ 64)"
proof -
  have wrap: "Some (unat (v * k) * 1000000000) = Some (unat v * n * 1000000000) \<longleftrightarrow> unat v * n < 2 ^ 64"
    if "unat k = n" for k :: u64 and n :: nat
  proof -
    have "unat (v * k) = unat v * n mod 2 ^ 64"
      using unat_word_ariths(2)[of v k] that by simp
    moreover have "unat v * n mod 2 ^ 64 = unat v * n \<longleftrightarrow> unat v * n < 2 ^ 64"
      by (metis mod_less mod_less_divisor zero_less_numeral zero_less_power)
    ultimately show ?thesis by simp
  qed
  show ?thesis
    using parse_duration_units[of v] wrap[of 3600 3600] wrap[of 60 60]
    by (simp only: from_secs_def) simp
qed

section \<open>The unit-file schema\<close>

datatype service_type = Simple | Forking | Oneshot | Notify

datatype restart_policy = RestartNo | Always | OnFailure | OnAbnormal

record unit_section =
  description :: string
  after :: "string list"
  before :: "string list"
  requires :: "string list"
  wants :: "string list"
  binds_to :: "string list"
  part_of :: "string list"
  conflicts :: "string list"
  default_dependencies :: bool

record service_section =
  kind :: service_type
  exec_start :: string
  exec_stop :: string
  exec_reload :: string
  restart :: restart_policy
  restart_sec :: string
  start_limit_burst :: u32
  start_limit_interval_sec :: string
  timeout_start_sec :: string
  timeout_stop_sec :: string
  user :: string
  group :: string
  slice :: string
  remain_after_exit :: bool
  environment :: "string list"

record install_section =
  wanted_by :: "string list"
  required_by :: "string list"

record unit_file =
  unit_of :: unit_section
  service_of :: "service_section option"
  install_of :: install_section

record loaded_unit =
  lu_name :: string
  lu_file :: unit_file

definition default_unit_section :: unit_section where
  "default_unit_section =
     \<lparr>description = [], after = [], before = [], requires = [], wants = [], binds_to = [],
      part_of = [], conflicts = [], default_dependencies = False\<rparr>"

definition default_install_section :: install_section where
  "default_install_section = \<lparr>wanted_by = [], required_by = []\<rparr>"

text \<open>The functions the service table's serde defaults name.\<close>

definition default_service_type :: service_type where "default_service_type = Simple"
definition default_restart :: restart_policy where "default_restart = RestartNo"
definition default_restart_sec :: string where "default_restart_sec = ''5s''"
definition default_start_limit_burst :: u32 where "default_start_limit_burst = 3"
definition default_start_limit_interval_sec :: string where
  "default_start_limit_interval_sec = ''30s''"
definition default_timeout_start_sec :: string where "default_timeout_start_sec = ''30s''"
definition default_timeout_stop_sec :: string where "default_timeout_stop_sec = ''10s''"
definition default_user :: string where "default_user = ''root''"
definition default_group :: string where "default_group = ''root''"
definition default_slice :: string where "default_slice = ''system.slice''"

section \<open>Deserialisation\<close>

datatype toml =
  TString string | TInteger int | TBool bool | TArray "toml list"
  | TTable "(string \<times> toml) list" | TOther

definition type_error :: "string \<Rightarrow> string" where
  "type_error what = ''invalid type: expected '' @ what"

fun de_string :: "toml \<Rightarrow> string + string" where
  "de_string (TString s) = Inr s"
| "de_string _ = Inl (type_error ''a string'')"

fun de_bool :: "toml \<Rightarrow> string + bool" where
  "de_bool (TBool b) = Inr b"
| "de_bool _ = Inl (type_error ''a boolean'')"

fun de_u32 :: "toml \<Rightarrow> string + u32" where
  "de_u32 (TInteger i) =
     (if 0 \<le> i \<and> i < 2 ^ 32 then Inr (of_int i) else Inl (type_error ''u32''))"
| "de_u32 _ = Inl (type_error ''u32'')"

fun de_strings :: "toml \<Rightarrow> string + string list" where
  "de_strings (TArray vs) = traverse de_string vs"
| "de_strings _ = Inl (type_error ''a sequence'')"

fun de_table :: "toml \<Rightarrow> string + (string \<times> toml) list" where
  "de_table (TTable t) = Inr t"
| "de_table _ = Inl (type_error ''a table'')"

definition de_service_type :: "toml \<Rightarrow> string + service_type" where
  "de_service_type v = bind_r (de_string v) (\<lambda>s.
     if s = ''simple'' then Inr Simple
     else if s = ''forking'' then Inr Forking
     else if s = ''oneshot'' then Inr Oneshot
     else if s = ''notify'' then Inr Notify
     else Inl (''unknown variant '' @ s))"

definition de_restart_policy :: "toml \<Rightarrow> string + restart_policy" where
  "de_restart_policy v = bind_r (de_string v) (\<lambda>s.
     if s = ''no'' then Inr RestartNo
     else if s = ''always'' then Inr Always
     else if s = ''on-failure'' then Inr OnFailure
     else if s = ''on-abnormal'' then Inr OnAbnormal
     else Inl (''unknown variant '' @ s))"

text \<open>A field with a default, and one without.\<close>

definition field :: "(toml \<Rightarrow> string + 'a) \<Rightarrow> 'a \<Rightarrow> (string \<times> toml) list \<Rightarrow> string \<Rightarrow> string + 'a" where
  "field de dflt t key = (case map_of t key of None \<Rightarrow> Inr dflt | Some v \<Rightarrow> de v)"

definition req_field :: "(toml \<Rightarrow> string + 'a) \<Rightarrow> (string \<times> toml) list \<Rightarrow> string \<Rightarrow> string + 'a" where
  "req_field de t key =
     (case map_of t key of None \<Rightarrow> Inl (''missing field '' @ key) | Some v \<Rightarrow> de v)"

definition de_unit_section :: "toml \<Rightarrow> string + unit_section" where
  "de_unit_section v = bind_r (de_table v) (\<lambda>t.
     bind_r (field de_string [] t ''description'') (\<lambda>d.
     bind_r (field de_strings [] t ''after'') (\<lambda>a.
     bind_r (field de_strings [] t ''before'') (\<lambda>b.
     bind_r (field de_strings [] t ''requires'') (\<lambda>r.
     bind_r (field de_strings [] t ''wants'') (\<lambda>w.
     bind_r (field de_strings [] t ''binds-to'') (\<lambda>bt.
     bind_r (field de_strings [] t ''part-of'') (\<lambda>p.
     bind_r (field de_strings [] t ''conflicts'') (\<lambda>c.
     bind_r (field de_bool False t ''default-dependencies'') (\<lambda>dd.
     Inr \<lparr>description = d, after = a, before = b, requires = r, wants = w, binds_to = bt,
          part_of = p, conflicts = c, default_dependencies = dd\<rparr>))))))))))"

definition de_service_section :: "toml \<Rightarrow> string + service_section" where
  "de_service_section v = bind_r (de_table v) (\<lambda>t.
     bind_r (field de_service_type default_service_type t ''type'') (\<lambda>k.
     bind_r (req_field de_string t ''exec-start'') (\<lambda>es.
     bind_r (field de_string [] t ''exec-stop'') (\<lambda>ep.
     bind_r (field de_string [] t ''exec-reload'') (\<lambda>er.
     bind_r (field de_restart_policy default_restart t ''restart'') (\<lambda>r.
     bind_r (field de_string default_restart_sec t ''restart-sec'') (\<lambda>rs.
     bind_r (field de_u32 default_start_limit_burst t ''start-limit-burst'') (\<lambda>b.
     bind_r (field de_string default_start_limit_interval_sec t ''start-limit-interval-sec'') (\<lambda>i.
     bind_r (field de_string default_timeout_start_sec t ''timeout-start-sec'') (\<lambda>ts.
     bind_r (field de_string default_timeout_stop_sec t ''timeout-stop-sec'') (\<lambda>tp.
     bind_r (field de_string default_user t ''user'') (\<lambda>u.
     bind_r (field de_string default_group t ''group'') (\<lambda>g.
     bind_r (field de_string default_slice t ''slice'') (\<lambda>sl.
     bind_r (field de_bool False t ''remain-after-exit'') (\<lambda>ra.
     bind_r (field de_strings [] t ''environment'') (\<lambda>e.
     Inr \<lparr>kind = k, exec_start = es, exec_stop = ep, exec_reload = er, restart = r,
          restart_sec = rs, start_limit_burst = b, start_limit_interval_sec = i,
          timeout_start_sec = ts, timeout_stop_sec = tp, user = u, group = g, slice = sl,
          remain_after_exit = ra, environment = e\<rparr>))))))))))))))))"

definition de_install_section :: "toml \<Rightarrow> string + install_section" where
  "de_install_section v = bind_r (de_table v) (\<lambda>t.
     bind_r (field de_strings [] t ''wanted-by'') (\<lambda>w.
     bind_r (field de_strings [] t ''required-by'') (\<lambda>r.
     Inr \<lparr>wanted_by = w, required_by = r\<rparr>)))"

definition de_unit_file :: "toml \<Rightarrow> string + unit_file" where
  "de_unit_file v = bind_r (de_table v) (\<lambda>t.
     bind_r (field de_unit_section default_unit_section t ''unit'') (\<lambda>u.
     bind_r (field (\<lambda>x. bind_r (de_service_section x) (\<lambda>s. Inr (Some s))) None t ''service'') (\<lambda>s.
     bind_r (field de_install_section default_install_section t ''install'') (\<lambda>i.
     Inr \<lparr>unit_of = u, service_of = s, install_of = i\<rparr>))))"

section \<open>The directory loader\<close>

text \<open>
  One entry of a directory listing: the bytes of its name and whether they are UTF-8, whether
  it is a regular file or a directory, and what reading it gives. Listing an entry may itself
  fail.
\<close>

record dir_entry =
  de_name :: string
  de_utf8 :: bool
  de_is_file :: bool
  de_is_dir :: bool
  de_body :: "io_error + string"

definition unit_name_of :: "string \<Rightarrow> string option" where
  "unit_name_of file_name =
     (case strip_suffix ''.toml'' file_name of
        None \<Rightarrow> None
      | Some name \<Rightarrow>
          if ends_with ''.service'' name \<or> ends_with ''.target'' name then Some name else None)"

fun load_entries ::
  "(string \<Rightarrow> string + toml) \<Rightarrow> (io_error + dir_entry) list \<Rightarrow> io_error + loaded_unit list" where
  "load_entries parse [] = Inr []"
| "load_entries parse (Inl e # es) = Inl e"
| "load_entries parse (Inr d # es) =
     (if \<not> de_is_file d then load_entries parse es
      else if \<not> de_utf8 d then load_entries parse es
      else (case unit_name_of (de_name d) of
          None \<Rightarrow> load_entries parse es
        | Some name \<Rightarrow>
            bind_r (de_body d) (\<lambda>body.
            bind_r (map_err (\<lambda>e. Other_Error (de_name d @ '': '' @ e))
                      (bind_r (parse body) de_unit_file)) (\<lambda>uf.
            bind_r (load_entries parse es) (\<lambda>rest.
            Inr (\<lparr>lu_name = name, lu_file = uf\<rparr> # rest))))))"

definition load_directory ::
  "(string \<Rightarrow> string + toml) \<Rightarrow> io_error + (io_error + dir_entry) list \<Rightarrow> io_error + loaded_unit list" where
  "load_directory parse listing =
     bind_r listing (\<lambda>es. bind_r (load_entries parse es) (\<lambda>out. Inr (sort_key lu_name out)))"

text \<open>What the loader should pick from a listing: the unit files, with their names.\<close>

definition unit_entry :: "io_error + dir_entry \<Rightarrow> (string \<times> dir_entry) option" where
  "unit_entry r =
     (case r of Inl e \<Rightarrow> None
      | Inr d \<Rightarrow> if de_is_file d \<and> de_utf8 d
                then map_option (\<lambda>name. (name, d)) (unit_name_of (de_name d))
                else None)"

definition loads_as :: "(string \<Rightarrow> string + toml) \<Rightarrow> string \<times> dir_entry \<Rightarrow> loaded_unit \<Rightarrow> bool" where
  "loads_as parse nd u \<longleftrightarrow>
     lu_name u = fst nd \<and>
     (\<exists>body t. de_body (snd nd) = Inr body \<and> parse body = Inr t \<and> de_unit_file t = Inr (lu_file u))"

lemma load_entries_ok:
  "load_entries parse es = Inr us \<Longrightarrow>
     list_all2 (loads_as parse) (List.map_filter unit_entry es) us \<and> (\<forall>e \<in> set es. \<exists>d. e = Inr d)"
proof (induction parse es arbitrary: us rule: load_entries.induct)
  case (3 parse d es)
  show ?case
  proof (cases "unit_entry (Inr d)")
    case None
    with 3 show ?thesis
      by (auto simp: unit_entry_def List.map_filter_def split: if_splits option.splits)
  next
    case (Some nd)
    then have fn: "de_is_file d" "de_utf8 d" "unit_name_of (de_name d) = Some (fst nd)" "nd = (fst nd, d)"
      by (auto simp: unit_entry_def split: if_splits option.splits)
    with "3.prems" obtain body t uf rest where b:
      "de_body d = Inr body" "parse body = Inr t" "de_unit_file t = Inr uf"
      "load_entries parse es = Inr rest" "us = \<lparr>lu_name = fst nd, lu_file = uf\<rparr> # rest"
      by (auto simp: bind_r_Inr)
    have "list_all2 (loads_as parse) (List.map_filter unit_entry es) rest \<and> (\<forall>e \<in> set es. \<exists>d. e = Inr d)"
      using "3.IH"(4)[OF _ _ fn(3)] fn b by auto
    moreover have "loads_as parse nd \<lparr>lu_name = fst nd, lu_file = uf\<rparr>"
      using fn b by (cases nd) (auto simp: loads_as_def)
    ultimately show ?thesis using Some b(5) by (simp add: List.map_filter_simps)
  qed
qed (auto simp: List.map_filter_def)

text \<open>
  A successful load returns exactly the units of the regular files whose names end in
  .service.toml or .target.toml, each under its name and with its parsed contents, in the
  order of their names; no entry of the listing was unreadable.
\<close>

lemma load_directory_ok:
  assumes "load_directory parse (Inr es) = Inr out"
  shows "sorted (map lu_name out)
    \<and> (\<exists>us. list_all2 (loads_as parse) (List.map_filter unit_entry es) us \<and> mset out = mset us)
    \<and> (\<forall>e \<in> set es. \<exists>d. e = Inr d)"
proof -
  from assms obtain us where us: "load_entries parse es = Inr us" "out = sort_key lu_name us"
    by (auto simp: load_directory_def bind_r_Inr)
  then show ?thesis using load_entries_ok[OF us(1)] by auto
qed

definition sample_listing :: "(io_error + dir_entry) list" where
  "sample_listing =
     [Inr \<lparr>de_name = ''b.target.toml'', de_utf8 = True, de_is_file = True, de_is_dir = False, de_body = Inr []\<rparr>,
      Inr \<lparr>de_name = ''notes.txt'', de_utf8 = True, de_is_file = True, de_is_dir = False, de_body = Inr []\<rparr>,
      Inr \<lparr>de_name = ''a.target.toml'', de_utf8 = True, de_is_file = True, de_is_dir = False, de_body = Inr []\<rparr>]"

definition sample_target :: unit_file where
  "sample_target =
     \<lparr>unit_of = default_unit_section, service_of = None, install_of = default_install_section\<rparr>"

theorem load_directory_ok_witness:
  "\<exists>us. list_all2 (loads_as (\<lambda>_. Inr (TTable []))) (List.map_filter unit_entry sample_listing) us
     \<and> mset [\<lparr>lu_name = ''a.target'', lu_file = sample_target\<rparr>,
             \<lparr>lu_name = ''b.target'', lu_file = sample_target\<rparr>] = mset us"
proof -
  have "load_directory (\<lambda>_. Inr (TTable [])) (Inr sample_listing)
    = Inr [\<lparr>lu_name = ''a.target'', lu_file = sample_target\<rparr>,
           \<lparr>lu_name = ''b.target'', lu_file = sample_target\<rparr>]"
    by code_simp
  from load_directory_ok[OF this] show ?thesis by simp
qed

end
