(* ===== verification/Worklist.thy ===== *)
theory Worklist
  imports Prelude
begin

text \<open>
  The breadth-first closure both transaction builders of
  crates/writeonce-svc/src/graph.rs run: a queue of nodes to expand and a set of nodes seen.
  The set is the list of its elements in the order they were inserted. \<open>None\<close> is a panic in
  expanding a node, or a loop that does not end; the locale below is the contract under which
  neither happens and the result is the reflexive-transitive closure.
\<close>

fun visit :: "'n list \<Rightarrow> 'n list \<Rightarrow> 'n list \<Rightarrow> 'n list \<times> 'n list" where
  "visit [] seen pending = (seen, pending)"
| "visit (v # vs) seen pending =
     (if v \<in> set seen then visit vs seen pending
      else visit vs (seen @ [v]) (pending @ [v]))"

partial_function (option) closure_loop ::
  "('n \<Rightarrow> 'n list option) \<Rightarrow> 'n list \<Rightarrow> 'n list \<Rightarrow> 'n list option" where
  "closure_loop succ seen pending =
     (case pending of
        [] \<Rightarrow> Some seen
      | u # rest \<Rightarrow> (case succ u of
          None \<Rightarrow> None
        | Some vs \<Rightarrow> (case visit vs seen rest of
            (seen', pending') \<Rightarrow> closure_loop succ seen' pending')))"

declare closure_loop.simps [code]

lemma closure_loop_Nil [simp]: "closure_loop succ seen [] = Some seen"
  by (simp add: closure_loop.simps)

lemma closure_loop_Cons:
  "closure_loop succ seen (u # rest) =
     (case succ u of None \<Rightarrow> None
      | Some vs \<Rightarrow> (case visit vs seen rest of (seen', pending') \<Rightarrow> closure_loop succ seen' pending'))"
  by (simp add: closure_loop.simps)

lemma visit_eq:
  "visit vs seen pending = (s, p) \<Longrightarrow>
     \<exists>new. s = seen @ new \<and> p = pending @ new \<and> set s = set seen \<union> set vs
       \<and> (distinct seen \<longrightarrow> distinct s)"
proof (induction vs arbitrary: seen pending)
  case (Cons v vs)
  show ?case
  proof (cases "v \<in> set seen")
    case True
    with Cons.prems Cons.IH[of seen pending] show ?thesis by auto
  next
    case False
    with Cons.prems Cons.IH[of "seen @ [v]" "pending @ [v]"] show ?thesis by auto
  qed
qed auto

definition succ_rel :: "('n \<Rightarrow> 'n list option) \<Rightarrow> ('n \<times> 'n) set" where
  "succ_rel succ = {(u, v). \<exists>vs. succ u = Some vs \<and> v \<in> set vs}"

text \<open>What is kept while the loop runs, and why its end is the closure.\<close>

definition closure_inv :: "('n \<Rightarrow> 'n list option) \<Rightarrow> 'n set \<Rightarrow> 'n \<Rightarrow> 'n list \<Rightarrow> 'n list \<Rightarrow> bool" where
  "closure_inv succ nodes a seen pending \<longleftrightarrow>
     distinct seen \<and> a \<in> set seen \<and> set pending \<subseteq> set seen \<and> set seen \<subseteq> nodes
     \<and> set seen \<subseteq> (succ_rel succ)\<^sup>* `` {a}
     \<and> (\<forall>u \<in> set seen - set pending. \<forall>v. (u, v) \<in> succ_rel succ \<longrightarrow> v \<in> set seen)"

locale worklist =
  fixes ok :: "'r \<Rightarrow> bool" and nodes :: "'r \<Rightarrow> 'n set" and succ :: "'r \<Rightarrow> 'n \<Rightarrow> 'n list option"
  assumes finite_nodes: "ok r \<Longrightarrow> finite (nodes r)"
    and succ_closed: "ok r \<Longrightarrow> u \<in> nodes r \<Longrightarrow> \<exists>vs. succ r u = Some vs \<and> set vs \<subseteq> nodes r"
begin

lemma closure_step:
  assumes "ok r" "closure_inv (succ r) (nodes r) a seen (u # rest)"
    "succ r u = Some vs" "visit vs seen rest = (seen', pending')"
  shows "closure_inv (succ r) (nodes r) a seen' pending'"
proof -
  have "distinct seen" using assms(2) by (simp add: closure_inv_def)
  with visit_eq[OF assms(4)] obtain new where new:
    "seen' = seen @ new" "pending' = rest @ new" "set seen' = set seen \<union> set vs" "distinct seen'"
    by blast
  have u: "u \<in> set seen" "u \<in> nodes r" "u \<in> (succ_rel (succ r))\<^sup>* `` {a}"
    using assms(2) by (auto simp: closure_inv_def)
  have vs: "set vs \<subseteq> nodes r"
    using succ_closed[OF assms(1) u(2)] assms(3) by auto
  have step: "(u, v) \<in> succ_rel (succ r) \<longleftrightarrow> v \<in> set vs" for v
    using assms(3) by (auto simp: succ_rel_def)
  then have reach: "set vs \<subseteq> (succ_rel (succ r))\<^sup>* `` {a}"
    using u(3) by (auto intro: rtrancl_into_rtrancl)
  have closed: "\<forall>w \<in> set seen' - set pending'. \<forall>v. (w, v) \<in> succ_rel (succ r) \<longrightarrow> v \<in> set seen'"
  proof safe
    fix w v assume w: "w \<in> set seen'" "w \<notin> set pending'" "(w, v) \<in> succ_rel (succ r)"
    show "v \<in> set seen'"
    proof (cases "w = u")
      case True
      with w(3) step new(3) show ?thesis by simp
    next
      case False
      with w new have "w \<in> set seen - set (u # rest)" by auto
      with w(3) assms(2) have "v \<in> set seen" by (auto simp: closure_inv_def)
      with new(3) show ?thesis by simp
    qed
  qed
  have "a \<in> set seen'" "set pending' \<subseteq> set seen'" "set seen' \<subseteq> nodes r"
    "set seen' \<subseteq> (succ_rel (succ r))\<^sup>* `` {a}"
    using assms(2) new(1,2) new(3) vs reach by (auto simp: closure_inv_def)
  with closed new(4) show ?thesis by (simp add: closure_inv_def)
qed

lemma closure_loop_total:
  assumes "ok r" "closure_inv (succ r) (nodes r) a seen pending"
  shows "\<exists>s. closure_loop (succ r) seen pending = Some s \<and> closure_inv (succ r) (nodes r) a s []"
  using assms(2)
proof (induction "2 * (card (nodes r) - length seen) + length pending"
    arbitrary: seen pending rule: less_induct)
  case less
  show ?case
  proof (cases pending)
    case Nil
    with less.prems show ?thesis by simp
  next
    case (Cons u rest)
    from less.prems Cons have u: "u \<in> nodes r" by (auto simp: closure_inv_def)
    obtain vs where vs: "succ r u = Some vs" using succ_closed[OF assms(1) u] by auto
    obtain s p where sp: "visit vs seen rest = (s, p)" by fastforce
    have inv: "closure_inv (succ r) (nodes r) a s p"
      using closure_step[OF assms(1) _ vs sp] less.prems Cons by simp
    from visit_eq[OF sp] obtain new where new: "s = seen @ new" "p = rest @ new" by auto
    have "length s \<le> card (nodes r)"
      using inv card_mono[OF finite_nodes[OF assms(1)]]
      by (metis closure_inv_def distinct_card)
    then have "2 * (card (nodes r) - length s) + length p
      < 2 * (card (nodes r) - length seen) + length pending"
      using new Cons by simp
    from less.hyps[OF this inv] show ?thesis
      using Cons vs sp by (simp add: closure_loop_Cons)
  qed
qed

lemma closure_loop_closure:
  assumes "ok r" "a \<in> nodes r"
  shows "\<exists>s. closure_loop (succ r) [a] [a] = Some s \<and> distinct s \<and> set s \<subseteq> nodes r
           \<and> set s = (succ_rel (succ r))\<^sup>* `` {a}"
proof -
  have "closure_inv (succ r) (nodes r) a [a] [a]"
    using assms(2) by (auto simp: closure_inv_def)
  from closure_loop_total[OF assms(1) this] obtain s where
    s: "closure_loop (succ r) [a] [a] = Some s" "closure_inv (succ r) (nodes r) a s []" by auto
  have "(succ_rel (succ r))\<^sup>* `` {a} \<subseteq> set s"
  proof safe
    fix v assume "(a, v) \<in> (succ_rel (succ r))\<^sup>*"
    then show "v \<in> set s"
      using s(2) by (induction rule: rtrancl_induct) (auto simp: closure_inv_def)
  qed
  then show ?thesis using s by (auto simp: closure_inv_def)
qed

end

end
