(* ===== verification/Kahn.thy ===== *)
theory Kahn
  imports Prelude
begin

text \<open>
  Kahn's topological sort as crates/writeonce-svc/src/graph.rs runs it in both transaction
  builders: adjacency lists and in-degrees in maps, a queue of ready nodes, the nodes that
  become ready sorted by id before they are queued. A missing in-degree (an \<open>unwrap\<close>) and a
  decrement of zero are panics, \<open>None\<close> here. The edges are a list of pairs: the adjacency
  list of a node and its in-degree are read off that list, which is what the lemmas relate.
\<close>

type_synonym unit_id = nat

fun relax :: "unit_id list \<Rightarrow> (unit_id \<rightharpoonup> nat) \<Rightarrow> unit_id list \<Rightarrow> ((unit_id \<rightharpoonup> nat) \<times> unit_id list) option" where
  "relax [] deg new = Some (deg, new)"
| "relax (v # vs) deg new =
     (case deg v of
        None \<Rightarrow> None
      | Some 0 \<Rightarrow> None
      | Some (Suc d) \<Rightarrow> relax vs (deg(v \<mapsto> d)) (if d = 0 then new @ [v] else new))"

partial_function (option) kahn_loop ::
  "(unit_id \<rightharpoonup> unit_id list) \<Rightarrow> unit_id list \<Rightarrow> unit_id list \<Rightarrow> (unit_id \<rightharpoonup> nat)
     \<Rightarrow> (unit_id list \<times> (unit_id \<rightharpoonup> nat)) option" where
  "kahn_loop out ready srt deg =
     (case ready of
        [] \<Rightarrow> Some (srt, deg)
      | u # rest \<Rightarrow> (case out u of
          None \<Rightarrow> kahn_loop out rest (srt @ [u]) deg
        | Some downstream \<Rightarrow> (case relax downstream deg [] of
            None \<Rightarrow> None
          | Some (deg', new) \<Rightarrow> kahn_loop out (rest @ sort new) (srt @ [u]) deg')))"

declare kahn_loop.simps [code]

section \<open>Edges\<close>

text \<open>\<open>entry(k).or_default().push(v)\<close>, and one ordering edge recorded in both maps.\<close>

definition push :: "'k \<Rightarrow> 'v \<Rightarrow> ('k \<rightharpoonup> 'v list) \<Rightarrow> ('k \<rightharpoonup> 'v list)" where
  "push k v m = m(k \<mapsto> (case m k of None \<Rightarrow> [v] | Some vs \<Rightarrow> vs @ [v]))"

definition add_edge ::
  "unit_id \<times> unit_id \<Rightarrow> (unit_id \<rightharpoonup> unit_id list) \<times> (unit_id \<rightharpoonup> nat)
     \<Rightarrow> (unit_id \<rightharpoonup> unit_id list) \<times> (unit_id \<rightharpoonup> nat)" where
  "add_edge e s =
     (push (fst e) (snd e) (fst s),
      (snd s)(snd e \<mapsto> (case snd s (snd e) of None \<Rightarrow> 0 | Some d \<Rightarrow> d) + 1))"

definition outl :: "(unit_id \<rightharpoonup> unit_id list) \<Rightarrow> unit_id \<Rightarrow> unit_id list" where
  "outl out u = (case out u of None \<Rightarrow> [] | Some vs \<Rightarrow> vs)"

definition edges_from :: "(unit_id \<times> unit_id) list \<Rightarrow> unit_id \<Rightarrow> unit_id list" where
  "edges_from E u = map snd (filter (\<lambda>e. fst e = u) E)"

definition indeg :: "(unit_id \<times> unit_id) list \<Rightarrow> unit_id set \<Rightarrow> unit_id \<Rightarrow> nat" where
  "indeg E D v = length (filter (\<lambda>e. snd e = v \<and> fst e \<notin> D) E)"

lemma outl_push: "outl (push k v m) u = (if u = k then outl m k @ [v] else outl m u)"
  by (auto simp: outl_def push_def split: option.splits)

lemma outl_fold_add_edge: "outl (fst (fold add_edge E s)) u = outl (fst s) u @ edges_from E u"
  by (induction E arbitrary: s) (auto simp: add_edge_def outl_push edges_from_def)

lemma deg_fold_add_edge:
  assumes "\<forall>e \<in> set E. snd s (snd e) \<noteq> None"
  shows "snd (fold add_edge E s) v = map_option (\<lambda>d. d + indeg E {} v) (snd s v)"
  using assms
proof (induction E arbitrary: s)
  case Nil
  then show ?case by (simp add: indeg_def option.map_ident)
next
  case (Cons e E)
  from Cons.prems obtain d where d: "snd s (snd e) = Some d" by auto
  have "\<forall>x \<in> set E. snd (add_edge e s) (snd x) \<noteq> None"
    using Cons.prems by (auto simp: add_edge_def)
  from Cons.IH[OF this] d show ?case
    by (cases "snd s v") (auto simp: add_edge_def indeg_def)
qed

lemma count_edges_from: "count_list (edges_from E u) v = length (filter (\<lambda>e. e = (u, v)) E)"
  by (induction E) (auto simp: edges_from_def)

lemma indeg_insert:
  "u \<notin> D \<Longrightarrow> indeg E D v = indeg E (insert u D) v + count_list (edges_from E u) v"
  unfolding count_edges_from indeg_def by (induction E) auto

lemma indeg_zero: "indeg E D v = 0 \<longleftrightarrow> (\<forall>u. (u, v) \<in> set E \<longrightarrow> u \<in> D)"
  by (auto simp: indeg_def filter_empty_conv)

lemma edges_from_set: "v \<in> set (edges_from E u) \<longleftrightarrow> (u, v) \<in> set E"
  by (force simp: edges_from_def)

section \<open>One node's successors\<close>

lemma relax_spec:
  assumes "\<forall>v \<in> set ds. \<exists>d. deg v = Some d \<and> count_list ds v \<le> d"
  shows "\<exists>deg' new'. relax ds deg new = Some (deg', new @ new')
     \<and> deg' = (\<lambda>v. map_option (\<lambda>d. d - count_list ds v) (deg v))
     \<and> distinct new' \<and> set new' = {v \<in> set ds. deg v = Some (count_list ds v)}"
  using assms
proof (induction ds arbitrary: deg new)
  case Nil
  then show ?case by (simp add: option.map_ident)
next
  case (Cons x ds)
  from Cons.prems obtain k where k: "deg x = Some k" "count_list (x # ds) x \<le> k"
    by auto
  then obtain d where d: "deg x = Some (Suc d)" "count_list ds x \<le> d"
    by (cases k) auto
  let ?deg = "deg(x \<mapsto> d)"
  let ?new = "if d = 0 then new @ [x] else new"
  have "\<forall>v \<in> set ds. \<exists>k. ?deg v = Some k \<and> count_list ds v \<le> k"
    using Cons.prems d by (auto split: if_splits)
  from Cons.IH[OF this, of ?new] obtain deg' new' where r:
    "relax ds ?deg ?new = Some (deg', ?new @ new')"
    "deg' = (\<lambda>v. map_option (\<lambda>d. d - count_list ds v) (?deg v))"
    "distinct new'" "set new' = {v \<in> set ds. ?deg v = Some (count_list ds v)}"
    by blast
  let ?new' = "if d = 0 then x # new' else new'"
  have x0: "d = 0 \<Longrightarrow> x \<notin> set ds" using d(2) by (simp add: count_list_0_iff)
  have "relax (x # ds) deg new = Some (deg', new @ ?new')"
    using r(1) d(1) by simp
  moreover have "deg' = (\<lambda>v. map_option (\<lambda>k. k - count_list (x # ds) v) (deg v))"
    using r(2) d(1) by (auto simp: fun_eq_iff)
  moreover have "distinct ?new'" using r(3,4) x0 by auto
  moreover have "set ?new' = {v \<in> set (x # ds). deg v = Some (count_list (x # ds) v)}"
  proof (intro set_eqI iffI)
    fix v assume v: "v \<in> set ?new'"
    show "v \<in> {v \<in> set (x # ds). deg v = Some (count_list (x # ds) v)}"
    proof (cases "v = x")
      case True
      have "d = count_list ds x"
      proof (cases "d = 0")
        case True
        with d(2) show ?thesis by simp
      next
        case False
        with v True r(4) show ?thesis by simp
      qed
      with True d(1) show ?thesis by simp
    next
      case False
      with v r(4) show ?thesis by (simp split: if_splits)
    qed
  next
    fix v assume v: "v \<in> {v \<in> set (x # ds). deg v = Some (count_list (x # ds) v)}"
    show "v \<in> set ?new'"
    proof (cases "v = x")
      case True
      with v d(1) have "d = count_list ds x" by simp
      moreover have "d \<noteq> 0 \<Longrightarrow> x \<in> set ds" using calculation by (auto simp: count_list_0_iff)
      ultimately show ?thesis using True r(4) by simp
    next
      case False
      with v r(4) show ?thesis by simp
    qed
  qed
  ultimately show ?case by blast
qed

section \<open>The loop\<close>

definition kahn_inv ::
  "unit_id set \<Rightarrow> (unit_id \<times> unit_id) list \<Rightarrow> unit_id list \<Rightarrow> unit_id list \<Rightarrow> (unit_id \<rightharpoonup> nat) \<Rightarrow> bool" where
  "kahn_inv N E ready srt deg \<longleftrightarrow>
     distinct (srt @ ready) \<and> set (srt @ ready) \<subseteq> N
     \<and> (\<forall>v \<in> N. deg v = Some (indeg E (set srt) v))
     \<and> (\<forall>v \<in> N. v \<in> set (srt @ ready) \<longleftrightarrow> indeg E (set srt) v = 0)
     \<and> (\<forall>i < length srt. \<forall>u. (u, srt ! i) \<in> set E \<longrightarrow> u \<in> set (take i srt))"

lemma kahn_step:
  assumes inv: "kahn_inv N E (u # rest) srt deg" and E: "set E \<subseteq> N \<times> N"
    and ds: "mset ds = mset (edges_from E u)"
  shows "\<exists>deg' new. relax ds deg [] = Some (deg', new)
      \<and> deg' = (\<lambda>v. map_option (\<lambda>d. d - count_list (edges_from E u) v) (deg v))
      \<and> distinct new \<and> set new = {v \<in> set (edges_from E u). deg v = Some (count_list (edges_from E u) v)}
      \<and> kahn_inv N E (rest @ sort new) (srt @ [u]) deg'"
proof -
  have cnt: "count_list ds v = count_list (edges_from E u) v" for v
    using ds by (metis count_mset)
  have set_ds: "set ds = set (edges_from E u)" using ds by (rule mset_eq_setD)
  have uN: "u \<in> N" and un: "u \<notin> set srt" using inv by (auto simp: kahn_inv_def)
  have deg: "deg v = Some (indeg E (insert u (set srt)) v + count_list (edges_from E u) v)"
    if "v \<in> N" for v
    using inv that indeg_insert[OF un] by (simp add: kahn_inv_def)
  have dsN: "set ds \<subseteq> N" using E set_ds by (auto simp: edges_from_set)
  have "\<forall>v \<in> set ds. \<exists>d. deg v = Some d \<and> count_list ds v \<le> d"
    using dsN deg cnt by (auto simp: subset_iff)
  from relax_spec[OF this, of "[]"] obtain deg' new where r:
    "relax ds deg [] = Some (deg', new)"
    "deg' = (\<lambda>v. map_option (\<lambda>d. d - count_list (edges_from E u) v) (deg v))"
    "distinct new" "set new = {v \<in> set (edges_from E u). deg v = Some (count_list (edges_from E u) v)}"
    unfolding cnt set_ds by auto
  have deg': "deg' v = Some (indeg E (set (srt @ [u])) v)" if "v \<in> N" for v
    using r(2) deg[OF that] by simp
  have new_iff: "v \<in> set new \<longleftrightarrow> v \<in> set (edges_from E u) \<and> indeg E (set (srt @ [u])) v = 0"
    if "v \<in> N" for v
    using r(4) deg[OF that] by auto
  have old: "v \<in> set (srt @ u # rest) \<longleftrightarrow> indeg E (set srt) v = 0" if "v \<in> N" for v
    using inv that by (auto simp: kahn_inv_def)
  have new_fresh: "v \<notin> set (srt @ u # rest)" if "v \<in> set new" for v
  proof -
    have "(u, v) \<in> set E" using that r(4) by (auto simp: edges_from_set)
    moreover from this have "v \<in> N" using E by auto
    ultimately show ?thesis using old[of v] un by (auto simp: indeg_zero)
  qed
  have newN: "set new \<subseteq> N" using r(4) set_ds dsN by auto
  have zero: "v \<in> set (srt @ [u]) \<union> set rest \<union> set new \<longleftrightarrow> indeg E (set (srt @ [u])) v = 0"
    if "v \<in> N" for v
  proof (cases "v \<in> set (edges_from E u)")
    case True
    then show ?thesis using that new_iff[OF that] old[OF that] un
      by (auto simp: edges_from_set indeg_zero)
  next
    case False
    then have "count_list (edges_from E u) v = 0" by (simp add: count_list_0_iff)
    then show ?thesis using False that new_iff[OF that] old[OF that] indeg_insert[OF un, of E v]
      by auto
  qed
  have pos: "(w, (srt @ [u]) ! i) \<in> set E \<longrightarrow> w \<in> set (take i (srt @ [u]))"
    if "i < length (srt @ [u])" for i w
  proof (cases "i < length srt")
    case True
    then show ?thesis using inv by (simp add: kahn_inv_def nth_append)
  next
    case False
    with that have i: "i = length srt" by simp
    show ?thesis using old[OF uN] i by (auto simp: indeg_zero)
  qed
  have "kahn_inv N E (rest @ sort new) (srt @ [u]) deg'"
    unfolding kahn_inv_def
  proof (intro conjI)
    show "distinct ((srt @ [u]) @ rest @ sort new)"
      using inv r(3) new_fresh by (auto simp: kahn_inv_def)
    show "set ((srt @ [u]) @ rest @ sort new) \<subseteq> N"
      using inv newN by (auto simp: kahn_inv_def)
    show "\<forall>v \<in> N. deg' v = Some (indeg E (set (srt @ [u])) v)" using deg' by blast
    show "\<forall>v \<in> N. v \<in> set ((srt @ [u]) @ rest @ sort new) \<longleftrightarrow> indeg E (set (srt @ [u])) v = 0"
      using zero by auto
    show "\<forall>i < length (srt @ [u]). \<forall>w. (w, (srt @ [u]) ! i) \<in> set E \<longrightarrow> w \<in> set (take i (srt @ [u]))"
      using pos by blast
  qed
  with r show ?thesis by blast
qed

lemma kahn_loop_Nil [simp]: "kahn_loop out [] srt deg = Some (srt, deg)"
  by (simp add: kahn_loop.simps)

text \<open>A node without an adjacency list is one with an empty list.\<close>

lemma kahn_loop_Cons:
  "kahn_loop out (u # rest) srt deg =
     (case relax (outl out u) deg [] of
        None \<Rightarrow> None
      | Some (deg', new) \<Rightarrow> kahn_loop out (rest @ sort new) (srt @ [u]) deg')"
  by (subst kahn_loop.simps) (auto simp: outl_def split: option.splits)

lemma kahn_inv_measure:
  assumes "finite N" "kahn_inv N E (u # rest) srt deg"
  shows "card N - length (srt @ [u]) < card N - length srt"
proof -
  have d: "distinct (srt @ u # rest)" and sub: "set (srt @ u # rest) \<subseteq> N"
    using assms(2) unfolding kahn_inv_def by blast+
  have "length (srt @ u # rest) \<le> card N"
    using card_mono[OF assms(1) sub] distinct_card[OF d] by simp
  then show ?thesis by simp
qed

text \<open>
  The loop runs to its end without a panic, whatever order the adjacency lists are in; its
  result depends only on the edges.
\<close>

lemma kahn_loop_total:
  assumes "finite N" "set E \<subseteq> N \<times> N" "\<forall>u. mset (outl out u) = mset (edges_from E u)"
    and "kahn_inv N E ready srt deg"
  shows "\<exists>srt' deg'. kahn_loop out ready srt deg = Some (srt', deg') \<and> kahn_inv N E [] srt' deg'"
  using assms(4)
proof (induction "card N - length srt" arbitrary: ready srt deg rule: less_induct)
  case less
  show ?case
  proof (cases ready)
    case Nil
    with less.prems show ?thesis by simp
  next
    case (Cons u rest)
    with less.prems have inv: "kahn_inv N E (u # rest) srt deg" by simp
    from kahn_step[OF inv assms(2) assms(3)[rule_format, of u]] obtain deg' new where
      r: "relax (outl out u) deg [] = Some (deg', new)" "kahn_inv N E (rest @ sort new) (srt @ [u]) deg'"
      by blast
    from less.hyps[OF kahn_inv_measure[OF assms(1) inv] r(2)] show ?thesis
      using Cons r(1) by (simp add: kahn_loop_Cons)
  qed
qed

lemma kahn_loop_cong:
  assumes "finite N" "set E \<subseteq> N \<times> N"
    and "\<forall>u. mset (outl out u) = mset (edges_from E u)" "\<forall>u. mset (outl out' u) = mset (edges_from E u)"
    and "kahn_inv N E ready srt deg"
  shows "kahn_loop out ready srt deg = kahn_loop out' ready srt deg"
  using assms(5)
proof (induction "card N - length srt" arbitrary: ready srt deg rule: less_induct)
  case less
  show ?case
  proof (cases ready)
    case (Cons u rest)
    with less.prems have inv: "kahn_inv N E (u # rest) srt deg" by simp
    from kahn_step[OF inv assms(2) assms(3)[rule_format, of u]] obtain deg1 new1 where
      r1: "relax (outl out u) deg [] = Some (deg1, new1)" "kahn_inv N E (rest @ sort new1) (srt @ [u]) deg1"
        "deg1 = (\<lambda>v. map_option (\<lambda>d. d - count_list (edges_from E u) v) (deg v))" "distinct new1"
        "set new1 = {v \<in> set (edges_from E u). deg v = Some (count_list (edges_from E u) v)}"
      by blast
    from kahn_step[OF inv assms(2) assms(4)[rule_format, of u]] obtain deg2 new2 where
      r2: "relax (outl out' u) deg [] = Some (deg2, new2)"
        "deg2 = (\<lambda>v. map_option (\<lambda>d. d - count_list (edges_from E u) v) (deg v))" "distinct new2"
        "set new2 = {v \<in> set (edges_from E u). deg v = Some (count_list (edges_from E u) v)}"
      by blast
    have "sort new1 = sort new2"
      using r1(4,5) r2(3,4) by (intro sorted_distinct_set_unique) auto
    moreover have "deg1 = deg2" using r1(3) r2(2) by simp
    ultimately show ?thesis
      using less.hyps[OF kahn_inv_measure[OF assms(1) inv] r1(2)] Cons r1(1) r2(1)
      by (simp add: kahn_loop_Cons)
  qed simp
qed

section \<open>What the result says\<close>

text \<open>The output is in topological order: no edge goes backwards.\<close>

definition topological :: "(unit_id \<times> unit_id) set \<Rightarrow> unit_id list \<Rightarrow> bool" where
  "topological R xs \<longleftrightarrow> (\<forall>i j. i \<le> j \<and> j < length xs \<longrightarrow> (xs ! j, xs ! i) \<notin> R)"

lemma kahn_inv_topological:
  assumes "kahn_inv N E ready srt deg"
  shows "topological (set E) srt"
  unfolding topological_def
proof (intro allI impI notI)
  fix i j assume ij: "i \<le> j \<and> j < length srt" and e: "(srt ! j, srt ! i) \<in> set E"
  then have "srt ! j \<in> set (take i srt)" using assms by (auto simp: kahn_inv_def)
  then obtain k where "k < i" "srt ! k = srt ! j" using ij by (auto simp: in_set_conv_nth)
  moreover have "distinct srt" using assms by (simp add: kahn_inv_def)
  ultimately show False using ij by (simp add: nth_eq_iff_index_eq)
qed

lemma topological_acyclic:
  assumes "topological R xs" "R \<subseteq> set xs \<times> set xs" "distinct xs"
  shows "acyclic R"
proof -
  let ?ix = "\<lambda>x. THE i. i < length xs \<and> xs ! i = x"
  have ix: "?ix (xs ! i) = i" if "i < length xs" for i
    using that assms(3) by (auto simp: nth_eq_iff_index_eq)
  have "R \<subseteq> measure ?ix"
  proof (rule subrelI)
    fix x y assume "(x, y) \<in> R"
    moreover from this assms(2) obtain i j where "i < length xs" "x = xs ! i" "j < length xs" "y = xs ! j"
      by (auto simp: in_set_conv_nth subset_iff) metis
    ultimately show "(x, y) \<in> measure ?ix"
      using assms(1) ix by (auto simp: topological_def not_le[symmetric])
  qed
  then have "wf R" by (rule wf_subset[OF wf_measure])
  then show ?thesis by (rule wf_acyclic)
qed

lemma kahn_end_complete_iff:
  assumes "finite N" "set E \<subseteq> N \<times> N" "kahn_inv N E [] srt deg"
  shows "length srt = card N \<longleftrightarrow> acyclic (set E)"
proof
  have sub: "set srt \<subseteq> N" and dist: "distinct srt" using assms(3) by (auto simp: kahn_inv_def)
  {
    assume "length srt = card N"
    then have "set srt = N"
      using assms(1) sub dist by (intro card_subset_eq) (auto simp: distinct_card)
    then show "acyclic (set E)"
      using topological_acyclic[OF kahn_inv_topological[OF assms(3)] _ dist] assms(2) by simp
  }
  assume ac: "acyclic (set E)"
  have "N - set srt = {}"
  proof (rule ccontr)
    assume ne: "N - set srt \<noteq> {}"
    have "wf (set E)" using ac by (intro finite_acyclic_wf) auto
    moreover from ne obtain x where "x \<in> N - set srt" by blast
    ultimately obtain z where z: "z \<in> N - set srt" "\<And>y. (y, z) \<in> set E \<Longrightarrow> y \<notin> N - set srt"
      by (rule wfE_min) blast
    have "indeg E (set srt) z = 0" using z(2) assms(2) by (auto simp: indeg_zero)
    then show False using z(1) assms(3) by (auto simp: kahn_inv_def)
  qed
  with sub have "set srt = N" by blast
  with dist show "length srt = card N" by (simp add: distinct_card[symmetric])
qed

text \<open>The nodes left with a positive in-degree are those not in the output.\<close>

lemma kahn_end_remaining:
  assumes "kahn_inv N E [] srt deg" "v \<in> N"
  shows "(\<exists>d. deg v = Some d \<and> 0 < d) \<longleftrightarrow> v \<notin> set srt"
  using assms by (auto simp: kahn_inv_def)

lemma kahn_inv_initial:
  assumes "set ready = {v \<in> N. indeg E {} v = 0}" "distinct ready"
    and "\<forall>v \<in> N. deg v = Some (indeg E {} v)"
  shows "kahn_inv N E ready [] deg"
  using assms by (auto simp: kahn_inv_def)

end
