(* ===== verification/Graph.thy ===== *)
theory Graph
  imports Config Worklist Kahn
begin

text \<open>
  The unit registry of crates/writeonce-svc/src/graph.rs: the loaded units in load order, the
  map from names to ids and the two maps of lifted install directives, with the operations
  that build the registry, look units up and read the requirement edges. A \<open>UnitId\<close> is the
  index of the unit; reading the vector out of range is a panic, \<open>None\<close>.
\<close>

section \<open>Types\<close>

datatype edge_type = Requirement | Ordering | Binding | Conflict
datatype job_kind = Start | Stop | Restart | Reload
datatype job_result = Done | Failed | Dependency | Timeout | Canceled
datatype job_state = Waiting | Running | Finished job_result

record job =
  job_unit :: unit_id
  job_kind :: job_kind
  job_state :: job_state

datatype transaction_error =
  UnknownUnit string | RequirementCycle "string list" | OrderingCycle "string list"

record registry =
  units :: "loaded_unit list"
  by_name :: "string \<rightharpoonup> unit_id"
  extra_wants :: "unit_id \<rightharpoonup> unit_id list"
  extra_requires :: "unit_id \<rightharpoonup> unit_id list"

section \<open>Construction\<close>

text \<open>A name that is loaded twice belongs to the later unit: \<open>insert\<close> overwrites.\<close>

fun index_names :: "loaded_unit list \<Rightarrow> unit_id \<Rightarrow> (string \<rightharpoonup> unit_id) \<Rightarrow> (string \<rightharpoonup> unit_id)" where
  "index_names [] i m = m"
| "index_names (u # us) i m = index_names us (Suc i) (m(lu_name u \<mapsto> i))"

definition lift_names ::
  "(string \<rightharpoonup> unit_id) \<Rightarrow> unit_id \<Rightarrow> string list \<Rightarrow> (unit_id \<rightharpoonup> unit_id list) \<Rightarrow> (unit_id \<rightharpoonup> unit_id list)" where
  "lift_names names me =
     fold (\<lambda>n m. case names n of None \<Rightarrow> m | Some t \<Rightarrow> push t me m)"

fun lift_installs ::
  "(string \<rightharpoonup> unit_id) \<Rightarrow> loaded_unit list \<Rightarrow> unit_id
     \<Rightarrow> (unit_id \<rightharpoonup> unit_id list) \<times> (unit_id \<rightharpoonup> unit_id list)
     \<Rightarrow> (unit_id \<rightharpoonup> unit_id list) \<times> (unit_id \<rightharpoonup> unit_id list)" where
  "lift_installs names [] i acc = acc"
| "lift_installs names (u # us) i (ew, er) =
     lift_installs names us (Suc i)
       (lift_names names i (wanted_by (install_of (lu_file u))) ew,
        lift_names names i (required_by (install_of (lu_file u))) er)"

definition from_loaded :: "loaded_unit list \<Rightarrow> registry" where
  "from_loaded loaded =
     (let names = index_names loaded 0 Map.empty;
          lifted = lift_installs names loaded 0 (Map.empty, Map.empty)
      in \<lparr>units = loaded, by_name = names, extra_wants = fst lifted, extra_requires = snd lifted\<rparr>)"

section \<open>Look-ups\<close>

definition get_unit :: "registry \<Rightarrow> unit_id \<Rightarrow> loaded_unit option" where
  "get_unit reg i = nth_opt (units reg) i"

definition name_of :: "registry \<Rightarrow> unit_id \<Rightarrow> string option" where
  "name_of reg i = map_option lu_name (nth_opt (units reg) i)"

definition lookup_unit :: "registry \<Rightarrow> string \<Rightarrow> unit_id option" where
  "lookup_unit reg name = by_name reg name"

definition registry_len :: "registry \<Rightarrow> nat" where
  "registry_len reg = length (units reg)"

definition add_wanted_by :: "registry \<Rightarrow> string \<Rightarrow> string \<Rightarrow> string + registry" where
  "add_wanted_by reg target_name unit_name =
     bind_r (ok_or (''unknown target: '' @ target_name) (by_name reg target_name)) (\<lambda>target_id.
     bind_r (ok_or (''unknown unit: '' @ unit_name) (by_name reg unit_name)) (\<lambda>u.
       let entry = (case extra_wants reg target_id of None \<Rightarrow> [] | Some us \<Rightarrow> us);
           entry' = (if u \<in> set entry then entry else entry @ [u])
       in Inr (reg\<lparr>extra_wants := (extra_wants reg)(target_id \<mapsto> entry')\<rparr>)))"

section \<open>Requirement edges\<close>

definition named_ids :: "registry \<Rightarrow> string list \<Rightarrow> unit_id list" where
  "named_ids reg names = List.map_filter (by_name reg) names"

definition requirement_targets :: "registry \<Rightarrow> unit_id \<Rightarrow> unit_id list option" where
  "requirement_targets reg i =
     (case get_unit reg i of
        None \<Rightarrow> None
      | Some u \<Rightarrow>
          let sect = unit_of (lu_file u);
              out = named_ids reg (wants sect) @ named_ids reg (requires sect)
                      @ named_ids reg (binds_to sect)
                      @ outl (extra_wants reg) i @ outl (extra_requires reg) i
          in Some (dedup (sort out)))"

definition hard_requirement_targets :: "registry \<Rightarrow> unit_id \<Rightarrow> unit_id list option" where
  "hard_requirement_targets reg i =
     (case get_unit reg i of
        None \<Rightarrow> None
      | Some u \<Rightarrow>
          let sect = unit_of (lu_file u);
              out = named_ids reg (requires sect) @ named_ids reg (binds_to sect)
                      @ outl (extra_requires reg) i
          in Some (dedup (sort out)))"

section \<open>Well-formed registries\<close>

text \<open>
  Every id the registry's maps hold is the index of a loaded unit, and a name maps to a unit
  of that name: what makes the indexing of \<open>get\<close> and \<open>name_of\<close> safe.
\<close>

definition lists_in :: "nat \<Rightarrow> (unit_id \<rightharpoonup> unit_id list) \<Rightarrow> bool" where
  "lists_in n m \<longleftrightarrow> (\<forall>k vs. m k = Some vs \<longrightarrow> k < n \<and> set vs \<subseteq> {..<n})"

definition reg_ok :: "registry \<Rightarrow> bool" where
  "reg_ok reg \<longleftrightarrow>
     (\<forall>name i. by_name reg name = Some i \<longrightarrow> i < length (units reg) \<and> lu_name (units reg ! i) = name)
     \<and> lists_in (length (units reg)) (extra_wants reg)
     \<and> lists_in (length (units reg)) (extra_requires reg)"

lemma index_names_snoc:
  "index_names (us @ [u]) i m = (index_names us i m)(lu_name u \<mapsto> i + length us)"
  by (induction us arbitrary: i m) (simp_all del: fun_upd_apply)

lemma index_names_iff:
  "index_names us 0 Map.empty n = Some k \<longleftrightarrow>
     k < length us \<and> lu_name (us ! k) = n \<and> n \<notin> lu_name ` set (drop (Suc k) us)"
proof (induction us arbitrary: k rule: rev_induct)
  case (snoc u us)
  have "k < length us \<or> k = length us \<or> length us < k" by linarith
  then show ?case
    using snoc by (auto simp: index_names_snoc nth_append)
qed simp

text \<open>The key of \<open>push\<close> gains the value; \<open>lift_names\<close> pushes one value for every known name.\<close>

lemma outl_empty [simp]: "outl Map.empty t = []"
  by (simp add: outl_def)

lemma set_outl_lift_names:
  "set (outl (lift_names names me ns m) t) =
     set (outl m t) \<union> (if \<exists>n \<in> set ns. names n = Some t then {me} else {})"
proof (induction ns arbitrary: m)
  case (Cons n ns)
  then show ?case
    by (cases "names n") (auto simp: lift_names_def outl_push)
qed (simp add: lift_names_def)

lemma set_outl_lift_installs:
  "set (outl (fst (lift_installs names us i acc)) t) = set (outl (fst acc) t)
     \<union> {i + j |j. j < length us \<and> (\<exists>n \<in> set (wanted_by (install_of (lu_file (us ! j)))). names n = Some t)}
   \<and> set (outl (snd (lift_installs names us i acc)) t) = set (outl (snd acc) t)
     \<union> {i + j |j. j < length us \<and> (\<exists>n \<in> set (required_by (install_of (lu_file (us ! j)))). names n = Some t)}"
proof (induction names us i acc rule: lift_installs.induct)
  case (2 names u us i ew er)
  have split: "{i + j |j. j < length (u # us) \<and> P ((u # us) ! j)}
    = (if P u then {i} else {}) \<union> {Suc i + j |j. j < length us \<and> P (us ! j)}"
    for P :: "loaded_unit \<Rightarrow> bool"
    by (auto simp: less_Suc_eq_0_disj; force)
  show ?case
    using 2 split[of "\<lambda>v. \<exists>n \<in> set (wanted_by (install_of (lu_file v))). names n = Some t"]
      split[of "\<lambda>v. \<exists>n \<in> set (required_by (install_of (lu_file v))). names n = Some t"]
    by (simp add: set_outl_lift_names Un_assoc)
qed simp_all

text \<open>
  What the registry should answer, over the loaded units alone. A name resolves to the last
  unit that bears it; a unit requires another when it names it, or when that one's install
  section names it.
\<close>

definition resolves :: "loaded_unit list \<Rightarrow> string \<Rightarrow> unit_id \<Rightarrow> bool" where
  "resolves us n i \<longleftrightarrow> i < length us \<and> lu_name (us ! i) = n \<and> n \<notin> lu_name ` set (drop (Suc i) us)"

definition hard_edge :: "loaded_unit list \<Rightarrow> unit_id \<Rightarrow> unit_id \<Rightarrow> bool" where
  "hard_edge us u v \<longleftrightarrow> u < length us \<and> v < length us \<and>
     ((\<exists>n \<in> set (requires (unit_of (lu_file (us ! u)))) \<union> set (binds_to (unit_of (lu_file (us ! u)))).
         resolves us n v)
      \<or> (\<exists>n \<in> set (required_by (install_of (lu_file (us ! v)))). resolves us n u))"

definition soft_edge :: "loaded_unit list \<Rightarrow> unit_id \<Rightarrow> unit_id \<Rightarrow> bool" where
  "soft_edge us u v \<longleftrightarrow> u < length us \<and> v < length us \<and>
     ((\<exists>n \<in> set (wants (unit_of (lu_file (us ! u)))). resolves us n v)
      \<or> (\<exists>n \<in> set (wanted_by (install_of (lu_file (us ! v)))). resolves us n u))"

lemma by_name_from_loaded: "by_name (from_loaded us) n = Some i \<longleftrightarrow> resolves us n i"
  by (simp add: from_loaded_def Let_def index_names_iff resolves_def)

lemma units_from_loaded [simp]: "units (from_loaded us) = us"
  by (simp add: from_loaded_def Let_def)

lemma set_named_ids: "set (named_ids reg ns) = {i. \<exists>n \<in> set ns. by_name reg n = Some i}"
  by (force simp: named_ids_def List.map_filter_def)

lemma set_extra_from_loaded:
  "set (outl (extra_wants (from_loaded us)) t) =
     {v. v < length us \<and> (\<exists>n \<in> set (wanted_by (install_of (lu_file (us ! v)))). resolves us n t)}"
  "set (outl (extra_requires (from_loaded us)) t) =
     {v. v < length us \<and> (\<exists>n \<in> set (required_by (install_of (lu_file (us ! v)))). resolves us n t)}"
  unfolding by_name_from_loaded[symmetric]
  by (simp_all add: from_loaded_def Let_def set_outl_lift_installs)

lemma dedup_sort_eq_sorted_list_of_set:
  "dedup (sort xs) = sorted_list_of_set (set xs)" for xs :: "unit_id list"
  by (rule sorted_distinct_set_unique) (auto intro: sorted_dedup distinct_dedup_sorted)

text \<open>
  A name resolves to the last loaded unit that bears it, and to no unit when none does.
\<close>

lemma lookup_from_loaded:
  "lookup_unit (from_loaded us) n =
     (if n \<in> lu_name ` set us
      then Some (last [i \<leftarrow> [0..<length us]. lu_name (us ! i) = n]) else None)"
proof (induction us rule: rev_induct)
  case (snoc u us)
  have "[i \<leftarrow> [0..<length us]. lu_name ((us @ [u]) ! i) = n] = [i \<leftarrow> [0..<length us]. lu_name (us ! i) = n]"
    by (rule filter_cong) (auto simp: nth_append)
  with snoc show ?case
    by (auto simp: lookup_unit_def from_loaded_def Let_def index_names_snoc)
qed (simp add: lookup_unit_def from_loaded_def)

text \<open>
  The requirement edges out of a unit are, in increasing order and once each, the units
  it wants, requires or is bound to and those whose install section lifts an edge to it; the
  hard ones are those of requires, binds-to and required-by alone. An id out of range panics.
\<close>

lemma requirement_targets_from_loaded:
  "requirement_targets (from_loaded us) u =
     (if u < length us then Some (sorted_list_of_set {v. hard_edge us u v \<or> soft_edge us u v}) else None)
   \<and> hard_requirement_targets (from_loaded us) u =
     (if u < length us then Some (sorted_list_of_set {v. hard_edge us u v}) else None)"
proof (cases "u < length us")
  case True
  have v: "resolves us n v \<Longrightarrow> v < length us" for n v by (simp add: resolves_def)
  let ?f = "lu_file (us ! u)"
  have "set (named_ids (from_loaded us) (wants (unit_of ?f)) @ named_ids (from_loaded us) (requires (unit_of ?f))
      @ named_ids (from_loaded us) (binds_to (unit_of ?f)) @ outl (extra_wants (from_loaded us)) u
      @ outl (extra_requires (from_loaded us)) u) = {v. hard_edge us u v \<or> soft_edge us u v}"
    using True v
    by (auto simp: set_named_ids by_name_from_loaded set_extra_from_loaded hard_edge_def soft_edge_def)
  moreover have "set (named_ids (from_loaded us) (requires (unit_of ?f))
      @ named_ids (from_loaded us) (binds_to (unit_of ?f)) @ outl (extra_requires (from_loaded us)) u)
      = {v. hard_edge us u v}"
    using True v by (auto simp: set_named_ids by_name_from_loaded set_extra_from_loaded hard_edge_def)
  ultimately show ?thesis
    using True
    by (simp only: requirement_targets_def hard_requirement_targets_def get_unit_def Let_def
          dedup_sort_eq_sorted_list_of_set units_from_loaded nth_opt_Some option.case if_True simp_thms)
qed (simp add: requirement_targets_def hard_requirement_targets_def get_unit_def)

section \<open>The registry's invariant\<close>

lemma lists_in_outl: "lists_in n m \<Longrightarrow> set (outl m k) \<subseteq> {..<n}"
  by (cases "m k") (fastforce simp: lists_in_def outl_def)+

lemma lists_in_upd: "lists_in n m \<Longrightarrow> k < n \<Longrightarrow> set vs \<subseteq> {..<n} \<Longrightarrow> lists_in n (m(k \<mapsto> vs))"
  by (auto simp: lists_in_def)

lemma lists_in_push: "lists_in n m \<Longrightarrow> k < n \<Longrightarrow> v < n \<Longrightarrow> lists_in n (push k v m)"
  unfolding push_def
  by (rule lists_in_upd) (auto simp: lists_in_def split: option.splits)

lemma lists_in_lift_names:
  assumes "lists_in n m" "me < n" "\<And>x t. names x = Some t \<Longrightarrow> t < n"
  shows "lists_in n (lift_names names me ns m)"
  using assms(1)
proof (induction ns arbitrary: m)
  case (Cons x ns)
  then show ?case
    using assms(2,3) by (cases "names x") (auto simp: lift_names_def intro: lists_in_push)
qed (simp add: lift_names_def)

lemma lists_in_lift_installs:
  assumes "lists_in n (fst acc)" "lists_in n (snd acc)" "i + length us \<le> n"
    and "\<And>x t. names x = Some t \<Longrightarrow> t < n"
  shows "lists_in n (fst (lift_installs names us i acc)) \<and> lists_in n (snd (lift_installs names us i acc))"
  using assms
proof (induction names us i acc rule: lift_installs.induct)
  case (2 names u us i ew er)
  then show ?case by (simp add: lists_in_lift_names)
qed simp

lemma reg_ok_from_loaded [inv_intros]: "reg_ok (from_loaded us)"
proof -
  have names: "index_names us 0 Map.empty x = Some t \<Longrightarrow> t < length us" for x t
    by (simp add: index_names_iff)
  have "lists_in (length us) (fst (Map.empty, Map.empty :: unit_id \<rightharpoonup> unit_id list))"
    "lists_in (length us) (snd (Map.empty :: unit_id \<rightharpoonup> unit_id list, Map.empty))"
    by (simp_all add: lists_in_def)
  from lists_in_lift_installs[OF this _ names, of 0 us]
  have "lists_in (length us) (extra_wants (from_loaded us))" "lists_in (length us) (extra_requires (from_loaded us))"
    by (simp_all add: from_loaded_def Let_def)
  then show ?thesis
    by (auto simp: reg_ok_def by_name_from_loaded resolves_def)
qed

definition wants_entry :: "registry \<Rightarrow> unit_id \<Rightarrow> unit_id \<Rightarrow> unit_id list" where
  "wants_entry reg ti ui =
     (let entry = outl (extra_wants reg) ti in if ui \<in> set entry then entry else entry @ [ui])"

lemma add_wanted_by_cases:
  "add_wanted_by reg t u =
     (case by_name reg t of None \<Rightarrow> Inl (''unknown target: '' @ t)
      | Some ti \<Rightarrow> (case by_name reg u of None \<Rightarrow> Inl (''unknown unit: '' @ u)
      | Some ui \<Rightarrow> Inr (reg\<lparr>extra_wants := (extra_wants reg)(ti \<mapsto> wants_entry reg ti ui)\<rparr>)))"
  by (simp add: add_wanted_by_def Let_def wants_entry_def outl_def split: option.split)

lemma set_wants_entry: "set (wants_entry reg ti ui) = insert ui (set (outl (extra_wants reg) ti))"
  by (auto simp: wants_entry_def Let_def)

lemma reg_ok_add_wanted_by [inv_intros]:
  assumes "reg_ok reg" "add_wanted_by reg t u = Inr reg'"
  shows "reg_ok reg'"
proof -
  from assms(2) obtain ti ui where n: "by_name reg t = Some ti" "by_name reg u = Some ui"
    "reg' = reg\<lparr>extra_wants := (extra_wants reg)(ti \<mapsto> wants_entry reg ti ui)\<rparr>"
    by (auto simp: add_wanted_by_cases split: option.splits)
  moreover have "set (wants_entry reg ti ui) \<subseteq> {..<length (units reg)}"
    using assms(1) n(2) lists_in_outl[of "length (units reg)" "extra_wants reg" ti]
    by (simp add: set_wants_entry reg_ok_def)
  ultimately show ?thesis
    using assms(1) by (auto simp: reg_ok_def intro!: lists_in_upd)
qed

lemma reg_ok_by_name: "reg_ok reg \<Longrightarrow> by_name reg n = Some i \<Longrightarrow> i < length (units reg)"
  by (simp add: reg_ok_def)

lemma requirement_targets_total:
  assumes "reg_ok reg" "u < length (units reg)"
  shows "\<exists>vs. requirement_targets reg u = Some vs \<and> set vs \<subseteq> {..<length (units reg)}"
    and "\<exists>vs. hard_requirement_targets reg u = Some vs \<and> set vs \<subseteq> {..<length (units reg)}"
proof -
  have "set (named_ids reg ns) \<subseteq> {..<length (units reg)}" for ns
    using reg_ok_by_name[OF assms(1)] by (auto simp: set_named_ids)
  moreover have "set (outl (extra_wants reg) u) \<subseteq> {..<length (units reg)}"
    "set (outl (extra_requires reg) u) \<subseteq> {..<length (units reg)}"
    using assms(1) by (auto simp only: reg_ok_def intro!: lists_in_outl)
  ultimately show "\<exists>vs. requirement_targets reg u = Some vs \<and> set vs \<subseteq> {..<length (units reg)}"
    "\<exists>vs. hard_requirement_targets reg u = Some vs \<and> set vs \<subseteq> {..<length (units reg)}"
    using assms(2)
    by (simp_all add: requirement_targets_def hard_requirement_targets_def get_unit_def Let_def)
qed

lemma add_wanted_by_targets:
  "case (lookup_unit reg t, lookup_unit reg u) of
     (None, _) \<Rightarrow> add_wanted_by reg t u = Inl (''unknown target: '' @ t)
   | (Some ti, None) \<Rightarrow> add_wanted_by reg t u = Inl (''unknown unit: '' @ u)
   | (Some ti, Some ui) \<Rightarrow> (\<exists>reg'. add_wanted_by reg t u = Inr reg' \<and>
       (\<forall>i. requirement_targets reg' i =
          map_option (\<lambda>vs. if i = ti then sorted_list_of_set (insert ui (set vs)) else vs)
            (requirement_targets reg i)
          \<and> hard_requirement_targets reg' i = hard_requirement_targets reg i))"
proof (cases "by_name reg t")
  case (Some ti)
  show ?thesis
  proof (cases "by_name reg u")
    case ui: (Some ui)
    define reg' where "reg' = reg\<lparr>extra_wants := (extra_wants reg)(ti \<mapsto> wants_entry reg ti ui)\<rparr>"
    have same: "named_ids reg' ns = named_ids reg ns" "units reg' = units reg"
      "extra_requires reg' = extra_requires reg" for ns
      by (simp_all add: reg'_def named_ids_def)
    have ew: "set (outl (extra_wants reg') i) = (if i = ti then insert ui (set (outl (extra_wants reg) ti)) else set (outl (extra_wants reg) i))" for i
      by (simp add: reg'_def set_wants_entry[symmetric]) (simp add: outl_def)
    have "requirement_targets reg' i =
        map_option (\<lambda>vs. if i = ti then sorted_list_of_set (insert ui (set vs)) else vs)
          (requirement_targets reg i)" for i
      unfolding requirement_targets_def get_unit_def same dedup_sort_eq_sorted_list_of_set
      by (auto simp: Let_def ew split: option.splits
          intro!: arg_cong[where f = sorted_list_of_set])
    moreover have "hard_requirement_targets reg' i = hard_requirement_targets reg i" for i
      by (simp only: hard_requirement_targets_def get_unit_def same)
    ultimately have "\<exists>reg'. add_wanted_by reg t u = Inr reg' \<and>
       (\<forall>i. requirement_targets reg' i =
          map_option (\<lambda>vs. if i = ti then sorted_list_of_set (insert ui (set vs)) else vs)
            (requirement_targets reg i)
          \<and> hard_requirement_targets reg' i = hard_requirement_targets reg i)"
      using Some ui by (intro exI[of _ reg']) (simp add: add_wanted_by_cases reg'_def)
    with Some ui show ?thesis by (simp add: lookup_unit_def)
  qed (simp add: Some lookup_unit_def add_wanted_by_cases)
qed (simp add: lookup_unit_def add_wanted_by_cases)

text \<open>
  An injected wanted-by link adds exactly one requirement edge, from the target to the
  unit, and no hard one; an unknown target is reported before an unknown unit.
\<close>

lemma add_wanted_by_effect:
  "case (lookup_unit reg t, lookup_unit reg u) of
     (None, _) \<Rightarrow> add_wanted_by reg t u = Inl (''unknown target: '' @ t)
   | (Some ti, None) \<Rightarrow> add_wanted_by reg t u = Inl (''unknown unit: '' @ u)
   | (Some ti, Some ui) \<Rightarrow> (\<exists>reg'. add_wanted_by reg t u = Inr reg' \<and>
       (\<forall>i. requirement_targets reg' i =
          map_option (\<lambda>vs. if i = ti then sorted_list_of_set (insert ui (set vs)) else vs)
            (requirement_targets reg i)
          \<and> hard_requirement_targets reg' i = hard_requirement_targets reg i))"
  by (rule add_wanted_by_targets)

section \<open>The requirement closure\<close>

interpretation requirement: worklist reg_ok "\<lambda>reg. {..<length (units reg)}" requirement_targets
  by unfold_locales (auto dest: requirement_targets_total(1))

interpretation hard_requirement: worklist reg_ok "\<lambda>reg. {..<length (units reg)}" hard_requirement_targets
  by unfold_locales (auto dest: requirement_targets_total(2))

end
