(* ===== verification/Transaction.thy ===== *)
theory Transaction
  imports Graph
begin

text \<open>
  The two transaction builders of crates/writeonce-svc/src/graph.rs. Rust's hash sets and maps
  are iterated in an order the program does not choose: every such iteration reads its order
  off the parameter \<open>hord\<close>, one order per place in the code, and the properties assume only that
  an order lists each element as often as it is there (\<open>permuting\<close>). \<open>None\<close> is a panic or a loop
  that does not end; the properties show that neither happens on a registry built by
  \<open>from_loaded\<close> and \<open>add_wanted_by\<close>. An in-degree is at most the number of ordering directives
  in memory and is a natural number here.
\<close>

datatype iter_site = Unit_Set | In_Degree | Remaining

type_synonym hash_order = "iter_site \<Rightarrow> unit_id list \<Rightarrow> unit_id list"

definition permuting :: "hash_order \<Rightarrow> bool" where
  "permuting hord \<longleftrightarrow> (\<forall>site xs. mset (hord site xs) = mset xs)"

section \<open>Ordering\<close>

text \<open>
  The edges one unit contributes: one from each unit of the set it comes after, one to each
  unit of the set it comes before.
\<close>

definition unit_edges :: "registry \<Rightarrow> unit_id list \<Rightarrow> unit_id \<Rightarrow> (unit_id \<times> unit_id) list option" where
  "unit_edges reg unit_set i =
     (case get_unit reg i of
        None \<Rightarrow> None
      | Some u \<Rightarrow>
          let sect = unit_of (lu_file u); here = filter (\<lambda>x. x \<in> set unit_set) in
          Some (map (\<lambda>x. (x, i)) (here (named_ids reg (after sect)))
                @ map (\<lambda>y. (i, y)) (here (named_ids reg (before sect)))))"

definition add_unit_edges ::
  "registry \<Rightarrow> unit_id list \<Rightarrow> unit_id \<Rightarrow> (unit_id \<rightharpoonup> unit_id list) \<times> (unit_id \<rightharpoonup> nat)
     \<Rightarrow> ((unit_id \<rightharpoonup> unit_id list) \<times> (unit_id \<rightharpoonup> nat)) option" where
  "add_unit_edges reg unit_set i s =
     map_option (\<lambda>es. fold add_edge es s) (unit_edges reg unit_set i)"

definition zero_degrees :: "unit_id list \<Rightarrow> (unit_id \<rightharpoonup> nat)" where
  "zero_degrees unit_set = (\<lambda>i. if i \<in> set unit_set then Some 0 else None)"

text \<open>
  Steps 2 and 3 of both builders: the ordering edges restricted to the set, Kahn's sort, and
  the names of the nodes that still have a positive in-degree when some were not reached.
\<close>

definition order_units ::
  "hash_order \<Rightarrow> registry \<Rightarrow> unit_id list \<Rightarrow> (string list + unit_id list) option" where
  "order_units hord reg unit_set =
     (case fold_opt (add_unit_edges reg unit_set) (hord Unit_Set unit_set)
             (Map.empty, zero_degrees unit_set) of
        None \<Rightarrow> None
      | Some (order_out, degree) \<Rightarrow>
          (let ready = sort (filter (\<lambda>i. degree i = Some 0) (hord In_Degree unit_set)) in
           case kahn_loop order_out ready [] degree of
             None \<Rightarrow> None
           | Some (srt, degree') \<Rightarrow>
               if length srt \<noteq> length unit_set
               then map_option Inl
                 (those (map (name_of reg)
                   (filter (\<lambda>i. case degree' i of None \<Rightarrow> False | Some d \<Rightarrow> 0 < d)
                     (hord Remaining unit_set))))
               else Some (Inr srt)))"

section \<open>The builders\<close>

definition build_transaction ::
  "hash_order \<Rightarrow> registry \<Rightarrow> string \<Rightarrow> (transaction_error + job list) option" where
  "build_transaction hord reg anchor =
     (case lookup_unit reg anchor of
        None \<Rightarrow> Some (Inl (UnknownUnit anchor))
      | Some anchor_id \<Rightarrow>
          (case closure_loop (requirement_targets reg) [anchor_id] [anchor_id] of
             None \<Rightarrow> None
           | Some unit_set \<Rightarrow>
               map_option (case_sum (\<lambda>names. Inl (OrderingCycle names))
                 (\<lambda>srt. Inr (map (\<lambda>u. \<lparr>job_unit = u, job_kind = Start, job_state = Waiting\<rparr>) srt)))
                 (order_units hord reg unit_set)))"

definition add_dependent :: "registry \<Rightarrow> unit_id \<Rightarrow> (unit_id \<rightharpoonup> unit_id list) \<Rightarrow> (unit_id \<rightharpoonup> unit_id list) option" where
  "add_dependent reg u m = map_option (\<lambda>vs. fold (\<lambda>v. push v u) vs m) (requirement_targets reg u)"

definition dependents_of :: "registry \<Rightarrow> (unit_id \<rightharpoonup> unit_id list) option" where
  "dependents_of reg = fold_opt (add_dependent reg) [0..<length (units reg)] Map.empty"

definition build_stop_transaction ::
  "hash_order \<Rightarrow> registry \<Rightarrow> string \<Rightarrow> (transaction_error + unit_id list) option" where
  "build_stop_transaction hord reg anchor =
     (case lookup_unit reg anchor of
        None \<Rightarrow> Some (Inl (UnknownUnit anchor))
      | Some anchor_id \<Rightarrow>
          (case dependents_of reg of
             None \<Rightarrow> None
           | Some dependents \<Rightarrow>
               (case closure_loop (\<lambda>u. Some (outl dependents u)) [anchor_id] [anchor_id] of
                  None \<Rightarrow> None
                | Some close \<Rightarrow>
                    map_option (case_sum (\<lambda>names. Inl (OrderingCycle names)) (\<lambda>srt. Inr (rev srt)))
                      (order_units hord reg close))))"

section \<open>What the ordering step computes\<close>

text \<open>The order the After and Before directives declare on a set of units.\<close>

definition comes_before :: "registry \<Rightarrow> unit_id \<Rightarrow> unit_id \<Rightarrow> bool" where
  "comes_before reg x y \<longleftrightarrow>
     (\<exists>n \<in> set (after (unit_of (lu_file (units reg ! y)))). by_name reg n = Some x)
     \<or> (\<exists>n \<in> set (before (unit_of (lu_file (units reg ! x)))). by_name reg n = Some y)"

definition order_rel :: "registry \<Rightarrow> unit_id set \<Rightarrow> (unit_id \<times> unit_id) set" where
  "order_rel reg N = {(x, y). x \<in> N \<and> y \<in> N \<and> comes_before reg x y}"

text \<open>Nodes that lie on a cycle, or after one.\<close>

definition after_cycle :: "('a \<times> 'a) set \<Rightarrow> 'a set" where
  "after_cycle R = {v. \<exists>u. (u, u) \<in> R\<^sup>+ \<and> (u, v) \<in> R\<^sup>*}"

definition edges_of :: "registry \<Rightarrow> unit_id list \<Rightarrow> unit_id \<Rightarrow> (unit_id \<times> unit_id) list" where
  "edges_of reg unit_set i = (case unit_edges reg unit_set i of None \<Rightarrow> [] | Some es \<Rightarrow> es)"

lemma fold_add_unit_edges:
  assumes "set is \<subseteq> {..<length (units reg)}"
  shows "fold_opt (add_unit_edges reg S) is s = Some (fold add_edge (concat (map (edges_of reg S) is)) s)"
  using assms
  by (induction "is" arbitrary: s)
     (auto simp: add_unit_edges_def edges_of_def unit_edges_def get_unit_def Let_def fold_append)

lemma set_edges_of:
  assumes "i < length (units reg)"
  shows "set (edges_of reg S i) =
     {(x, i) |x. x \<in> set S \<and> (\<exists>n \<in> set (after (unit_of (lu_file (units reg ! i)))). by_name reg n = Some x)}
   \<union> {(i, y) |y. y \<in> set S \<and> (\<exists>n \<in> set (before (unit_of (lu_file (units reg ! i)))). by_name reg n = Some y)}"
  using assms by (auto simp: edges_of_def unit_edges_def get_unit_def Let_def set_named_ids)

lemma set_concat_edges_of:
  assumes "set is = set S" "set S \<subseteq> {..<length (units reg)}"
  shows "set (concat (map (edges_of reg S) is)) = order_rel reg (set S)"
proof -
  have "set (concat (map (edges_of reg S) is)) = (\<Union>i \<in> set S. set (edges_of reg S i))"
    using assms(1) by simp
  also have "\<dots> = order_rel reg (set S)"
    using assms(2)
    by (auto simp: set_edges_of subset_iff order_rel_def comes_before_def; blast)
  finally show ?thesis .
qed

text \<open>Nodes Kahn's algorithm does not reach are those on or after a cycle.\<close>

lemma unreached_after_cycle:
  assumes "finite N" "R \<subseteq> N \<times> N" "D \<subseteq> N"
    and closed: "\<And>u v. (u, v) \<in> R \<Longrightarrow> v \<in> D \<Longrightarrow> u \<in> D"
    and acyc: "acyclic (R \<inter> D \<times> D)"
    and stuck: "\<And>v. v \<in> N - D \<Longrightarrow> \<exists>u \<in> N - D. (u, v) \<in> R"
  shows "N - D = after_cycle R"
proof
  show "N - D \<subseteq> after_cycle R"
  proof
    fix v assume v: "v \<in> N - D"
    show "v \<in> after_cycle R"
    proof (rule ccontr)
      assume no: "v \<notin> after_cycle R"
      let ?A = "{u \<in> N - D. (u, v) \<in> R\<^sup>*}"
      have "acyclic (R \<inter> ?A \<times> ?A)"
      proof (rule acyclicI, intro allI notI)
        fix u assume uu: "(u, u) \<in> (R \<inter> ?A \<times> ?A)\<^sup>+"
        then have "(u, u) \<in> R\<^sup>+" by (rule trancl_mono) auto
        moreover from uu have "u \<in> ?A" by (cases rule: tranclE) auto
        ultimately show False using no by (auto simp: after_cycle_def)
      qed
      moreover have "finite (R \<inter> ?A \<times> ?A)"
        using assms(1,2) by (meson finite_Int finite_SigmaI finite_subset)
      ultimately have "wf (R \<inter> ?A \<times> ?A)" by (rule finite_acyclic_wf[rotated])
      moreover have "v \<in> ?A" using v by simp
      ultimately obtain z where z: "z \<in> ?A" "\<And>y. (y, z) \<in> R \<inter> ?A \<times> ?A \<Longrightarrow> y \<notin> ?A"
        by (rule wfE_min) blast
      from z(1) stuck[of z] obtain u where "u \<in> N - D" "(u, z) \<in> R" by auto
      with z(1) have "u \<in> ?A" by (auto intro: converse_rtrancl_into_rtrancl)
      with z \<open>(u, z) \<in> R\<close> show False by blast
    qed
  qed
  show "after_cycle R \<subseteq> N - D"
  proof
    fix v assume "v \<in> after_cycle R"
    then obtain u where u: "(u, u) \<in> R\<^sup>+" "(u, v) \<in> R\<^sup>*" by (auto simp: after_cycle_def)
    have into_D: "(x, y) \<in> R\<^sup>+ \<Longrightarrow> y \<in> D \<Longrightarrow> (x, y) \<in> (R \<inter> D \<times> D)\<^sup>+" for x y
    proof (induction rule: trancl_induct)
      case (base y)
      then show ?case using closed by blast
    next
      case (step y z)
      then show ?case using closed[OF step.hyps(2) step.prems]
        by (metis IntI SigmaI trancl.trancl_into_trancl)
    qed
    have "u \<notin> D" using into_D[OF u(1)] acyc by (auto simp: acyclic_def)
    have "v \<notin> D"
      using u(2) \<open>u \<notin> D\<close> by (induction rule: rtrancl_induct) (auto dest: closed)
    moreover have "u \<in> N" using u(1) assms(2) by (cases rule: tranclE) auto
    with u(2) have "v \<in> N" using assms(2) u(2) by (auto elim: rtranclE)
    ultimately show "v \<in> N - D" by simp
  qed
qed

lemma kahn_end_unreached:
  assumes "finite N" "set E \<subseteq> N \<times> N" "kahn_inv N E [] srt deg"
  shows "N - set srt = after_cycle (set E)"
proof (rule unreached_after_cycle[OF assms(1,2)])
  have inv: "set srt \<subseteq> N" "distinct srt" using assms(3) by (auto simp: kahn_inv_def)
  then show "set srt \<subseteq> N" by simp
  show "u \<in> set srt" if uv: "(u, v) \<in> set E" "v \<in> set srt" for u v
  proof -
    from uv(2) obtain i where "i < length srt" "v = srt ! i" by (auto simp: in_set_conv_nth)
    with uv(1) assms(3) have "u \<in> set (take i srt)" by (auto simp: kahn_inv_def)
    then show ?thesis by (rule in_set_takeD)
  qed
  have "topological (set E \<inter> set srt \<times> set srt) srt"
    using kahn_inv_topological[OF assms(3)] by (auto simp: topological_def)
  from topological_acyclic[OF this _ inv(2)] show "acyclic (set E \<inter> set srt \<times> set srt)" by simp
  fix v assume v: "v \<in> N - set srt"
  then have "indeg E (set srt) v \<noteq> 0" using assms(3) by (auto simp: kahn_inv_def)
  then show "\<exists>u \<in> N - set srt. (u, v) \<in> set E" using assms(2) by (auto simp: indeg_zero)
qed

lemma after_cycle_empty_iff: "after_cycle R = {} \<longleftrightarrow> acyclic R"
  by (auto simp: after_cycle_def acyclic_def)

lemma those_map_name_of:
  "set is \<subseteq> {..<length (units reg)} \<Longrightarrow>
     those (map (name_of reg) is) = Some (map (\<lambda>i. lu_name (units reg ! i)) is)"
  by (induction "is") (auto simp: name_of_def)

lemma indeg_mset: "mset E = mset F \<Longrightarrow> indeg E D v = indeg F D v"
  unfolding indeg_def size_mset[symmetric] mset_filter by simp

lemma edges_from_mset: "mset E = mset F \<Longrightarrow> mset (edges_from E u) = mset (edges_from F u)"
  unfolding edges_from_def mset_map mset_filter by simp

lemma mset_concat_map: "mset xs = mset ys \<Longrightarrow> mset (concat (map f xs)) = mset (concat (map f ys))"
proof -
  have "mset (concat (map f zs)) = (\<Sum>z\<in>#mset zs. mset (f z))" for zs
    by (induction zs) auto
  then show "mset xs = mset ys \<Longrightarrow> mset (concat (map f xs)) = mset (concat (map f ys))" by simp
qed

text \<open>The edges in the order of the set's own list, and Kahn's sort of them.\<close>

definition all_edges :: "registry \<Rightarrow> unit_id list \<Rightarrow> (unit_id \<times> unit_id) list" where
  "all_edges reg S = concat (map (edges_of reg S) S)"

definition sorted_units :: "registry \<Rightarrow> unit_id list \<Rightarrow> (unit_id list \<times> (unit_id \<rightharpoonup> nat)) option" where
  "sorted_units reg S =
     (let E = all_edges reg S in
      kahn_loop (\<lambda>u. Some (edges_from E u)) (sort (filter (\<lambda>i. indeg E {} i = 0) S)) []
        (\<lambda>v. if v \<in> set S then Some (indeg E {} v) else None))"

lemma order_units_sorted:
  assumes hord: "permuting hord" and S: "distinct S" "set S \<subseteq> {..<length (units reg)}"
  shows "\<exists>srt deg'. sorted_units reg S = Some (srt, deg')
     \<and> kahn_inv (set S) (all_edges reg S) [] srt deg'
     \<and> order_units hord reg S =
        Some (if length srt \<noteq> length S
              then Inl (map (\<lambda>i. lu_name (units reg ! i)) (filter (\<lambda>i. i \<notin> set srt) (hord Remaining S)))
              else Inr srt)"
proof -
  define E0 where "E0 = all_edges reg S"
  define E where "E = concat (map (edges_of reg S) (hord Unit_Set S))"
  define out where "out = fst (fold add_edge E (Map.empty, zero_degrees S))"
  define deg where "deg = (\<lambda>v. if v \<in> set S then Some (indeg E0 {} v) else None)"
  define ready where "ready = sort (filter (\<lambda>i. indeg E0 {} i = 0) S)"
  have perm: "mset (hord site S) = mset S" for site using hord by (simp add: permuting_def)
  then have sets: "set (hord site S) = set S" for site by (metis mset_eq_setD)
  have mE: "mset E = mset E0"
    unfolding E_def E0_def all_edges_def by (rule mset_concat_map[OF perm])
  have R: "set E = order_rel reg (set S)"
    unfolding E_def using set_concat_edges_of[OF sets S(2)] .
  then have R0: "set E0 \<subseteq> set S \<times> set S"
    using mset_eq_setD[OF mE] by (auto simp: order_rel_def)
  have deg: "snd (fold add_edge E (Map.empty, zero_degrees S)) = deg"
  proof
    fix v
    have "\<forall>e \<in> set E. snd (Map.empty :: unit_id \<rightharpoonup> unit_id list, zero_degrees S) (snd e) \<noteq> None"
      using R by (auto simp: order_rel_def zero_degrees_def)
    from deg_fold_add_edge[OF this] show "snd (fold add_edge E (Map.empty, zero_degrees S)) v = deg v"
      by (simp add: deg_def zero_degrees_def indeg_mset[OF mE])
  qed
  have fold: "fold_opt (add_unit_edges reg S) (hord Unit_Set S) (Map.empty, zero_degrees S) = Some (out, deg)"
    using fold_add_unit_edges[of "hord Unit_Set S" reg S] S(2) sets deg
    by (simp add: E_def out_def prod_eq_iff)
  have zero: "filter (\<lambda>i. deg i = Some 0) xs = filter (\<lambda>i. indeg E0 {} i = 0) xs" if "set xs = set S" for xs
    using that by (intro filter_cong) (auto simp: deg_def)
  have "mset (filter (\<lambda>i. deg i = Some 0) (hord In_Degree S)) = mset (filter (\<lambda>i. indeg E0 {} i = 0) S)"
    using zero[OF sets] perm by (metis mset_filter)
  then have ready: "sort (filter (\<lambda>i. deg i = Some 0) (hord In_Degree S)) = ready"
    unfolding ready_def by (metis sorted_list_of_multiset_mset)
  have init: "kahn_inv (set S) E0 ready [] deg"
    using S(1) by (intro kahn_inv_initial) (auto simp: ready_def deg_def)
  have adj: "\<forall>u. mset (outl out u) = mset (edges_from E0 u)"
    by (simp add: out_def outl_fold_add_edge edges_from_mset[OF mE])
  have adj0: "\<forall>u. mset (outl (\<lambda>u. Some (edges_from E0 u)) u) = mset (edges_from E0 u)"
    by (simp add: outl_def)
  from kahn_loop_total[OF finite_set R0 adj0 init] obtain srt deg' where k:
    "kahn_loop (\<lambda>u. Some (edges_from E0 u)) ready [] deg = Some (srt, deg')"
    "kahn_inv (set S) E0 [] srt deg'" by blast
  have k': "kahn_loop out ready [] deg = Some (srt, deg')"
    using kahn_loop_cong[OF finite_set R0 adj adj0 init] k(1) by simp
  have left: "filter (\<lambda>i. case deg' i of None \<Rightarrow> False | Some d \<Rightarrow> 0 < d) (hord Remaining S)
      = filter (\<lambda>i. i \<notin> set srt) (hord Remaining S)"
  proof (rule filter_cong[OF refl])
    fix i assume "i \<in> set (hord Remaining S)"
    with kahn_end_remaining[OF k(2), of i] sets
    show "(case deg' i of None \<Rightarrow> False | Some d \<Rightarrow> 0 < d) = (i \<notin> set srt)"
      by (cases "deg' i") auto
  qed
  have "those (map (name_of reg) (filter (\<lambda>i. i \<notin> set srt) (hord Remaining S)))
      = Some (map (\<lambda>i. lu_name (units reg ! i)) (filter (\<lambda>i. i \<notin> set srt) (hord Remaining S)))"
    using sets S(2) by (intro those_map_name_of) auto
  with fold ready k' left have "order_units hord reg S =
        Some (if length srt \<noteq> length S
              then Inl (map (\<lambda>i. lu_name (units reg ! i)) (filter (\<lambda>i. i \<notin> set srt) (hord Remaining S)))
              else Inr srt)"
    by (simp add: order_units_def)
  moreover have "sorted_units reg S = Some (srt, deg')"
    using k(1) unfolding sorted_units_def Let_def ready_def deg_def E0_def .
  ultimately show ?thesis using k(2) by (simp add: E0_def)
qed

lemma order_units_spec:
  assumes "permuting hord" "distinct S" "set S \<subseteq> {..<length (units reg)}"
  shows "if acyclic (order_rel reg (set S))
     then \<exists>srt. order_units hord reg S = Some (Inr srt) \<and> distinct srt \<and> set srt = set S
            \<and> topological (order_rel reg (set S)) srt
     else \<exists>is. order_units hord reg S = Some (Inl (map (\<lambda>i. lu_name (units reg ! i)) is))
            \<and> distinct is \<and> set is = after_cycle (order_rel reg (set S))"
proof -
  from order_units_sorted[OF assms] obtain srt deg' where s:
    "kahn_inv (set S) (all_edges reg S) [] srt deg'"
    "order_units hord reg S =
        Some (if length srt \<noteq> length S
              then Inl (map (\<lambda>i. lu_name (units reg ! i)) (filter (\<lambda>i. i \<notin> set srt) (hord Remaining S)))
              else Inr srt)" by blast
  have R: "set (all_edges reg S) = order_rel reg (set S)"
    unfolding all_edges_def by (rule set_concat_edges_of[OF refl assms(3)])
  have sub: "set (all_edges reg S) \<subseteq> set S \<times> set S" unfolding R by (auto simp: order_rel_def)
  have iff: "length srt = length S \<longleftrightarrow> acyclic (order_rel reg (set S))"
    using kahn_end_complete_iff[OF finite_set sub s(1)] assms(2) by (simp add: R distinct_card)
  have un: "set S - set srt = after_cycle (order_rel reg (set S))"
    using kahn_end_unreached[OF finite_set sub s(1)] by (simp add: R)
  have perm: "mset (hord Remaining S) = mset S" using assms(1) by (simp add: permuting_def)
  show ?thesis
  proof (cases "acyclic (order_rel reg (set S))")
    case True
    then have "set S \<subseteq> set srt" using un after_cycle_empty_iff[of "order_rel reg (set S)"] by auto
    then show ?thesis
      using True s iff kahn_inv_topological[OF s(1)] by (auto simp: R kahn_inv_def)
  next
    case False
    have "distinct (hord Remaining S)" "set (hord Remaining S) = set S"
      using perm assms(2) by (metis mset_eq_imp_distinct_iff, metis mset_eq_setD)
    then show ?thesis
      using False s(2) iff un by (auto intro!: exI[of _ "filter (\<lambda>i. i \<notin> set srt) (hord Remaining S)"])
  qed
qed

section \<open>The start transaction\<close>

definition pulled_in :: "registry \<Rightarrow> unit_id \<Rightarrow> unit_id set" where
  "pulled_in reg a = (succ_rel (requirement_targets reg))\<^sup>* `` {a}"

definition dependents_closure :: "registry \<Rightarrow> unit_id \<Rightarrow> unit_id set" where
  "dependents_closure reg a = ((succ_rel (requirement_targets reg))\<inverse>)\<^sup>* `` {a}"


section \<open>The stop transaction\<close>

lemma set_outl_fold_push:
  "set (outl (fold (\<lambda>v. push v u) vs m) t) = set (outl m t) \<union> (if t \<in> set vs then {u} else {})"
  by (induction vs arbitrary: m) (auto simp: outl_push)

lemma fold_dependents:
  assumes "reg_ok reg" "set us \<subseteq> {..<length (units reg)}"
  shows "\<exists>m'. fold_opt (add_dependent reg) us m = Some m'
    \<and> (\<forall>t. set (outl m' t) = set (outl m t) \<union> {u \<in> set us. (u, t) \<in> succ_rel (requirement_targets reg)})"
  using assms(2)
proof (induction us arbitrary: m)
  case (Cons u us)
  then obtain vs where vs: "requirement_targets reg u = Some vs"
    using requirement_targets_total(1)[OF assms(1), of u] by auto
  from Cons.IH[of "fold (\<lambda>v. push v u) vs m"] Cons.prems obtain m' where m': "fold_opt (add_dependent reg) us (fold (\<lambda>v. push v u) vs m) = Some m'"
    "\<forall>t. set (outl m' t) = set (outl (fold (\<lambda>v. push v u) vs m) t)
       \<union> {w \<in> set us. (w, t) \<in> succ_rel (requirement_targets reg)}"
    by auto
  have "(u, t) \<in> succ_rel (requirement_targets reg) \<longleftrightarrow> t \<in> set vs" for t
    using vs by (simp add: succ_rel_def)
  moreover have "fold_opt (add_dependent reg) (u # us) m = Some m'"
    using m'(1) vs by (simp add: add_dependent_def[of reg u])
  ultimately show ?case using m'(2) by (intro exI[of _ m']) (auto simp: set_outl_fold_push)
qed simp

definition dependent_targets :: "registry \<Rightarrow> unit_id \<Rightarrow> unit_id list option" where
  "dependent_targets reg u = map_option (\<lambda>m. outl m u) (dependents_of reg)"

lemma dependents_of_spec:
  assumes "reg_ok reg"
  shows "\<exists>m. dependents_of reg = Some m
     \<and> (\<forall>t. set (outl m t) = {u. (u, t) \<in> succ_rel (requirement_targets reg)})"
proof -
  have "{u \<in> set [0..<length (units reg)]. (u, t) \<in> succ_rel (requirement_targets reg)}
      = {u. (u, t) \<in> succ_rel (requirement_targets reg)}" for t
    by (auto simp: succ_rel_def requirement_targets_def get_unit_def nth_opt_def split: if_splits)
  moreover have "set [0..<length (units reg)] \<subseteq> {..<length (units reg)}" by auto
  ultimately show ?thesis
    using fold_dependents[OF assms, of "[0..<length (units reg)]" Map.empty]
    unfolding dependents_of_def by (simp del: set_upt)
qed

lemma succ_rel_dependent_targets:
  "reg_ok reg \<Longrightarrow> succ_rel (dependent_targets reg) = (succ_rel (requirement_targets reg))\<inverse>"
  using dependents_of_spec[of reg] by (auto simp: succ_rel_def[of "dependent_targets reg"] dependent_targets_def)

interpretation dependent: worklist reg_ok "\<lambda>reg. {..<length (units reg)}" dependent_targets
proof
  fix reg u assume "reg_ok reg"
  from dependents_of_spec[OF this] show "\<exists>vs. dependent_targets reg u = Some vs \<and> set vs \<subseteq> {..<length (units reg)}"
    by (auto simp: dependent_targets_def succ_rel_def requirement_targets_def get_unit_def nth_opt_def
        split: if_splits)
qed simp

lemma stop_closure:
  assumes "reg_ok reg" "lookup_unit reg anchor = Some a"
  shows "\<exists>S. distinct S \<and> set S \<subseteq> {..<length (units reg)} \<and> set S = dependents_closure reg a
    \<and> build_stop_transaction hord reg anchor =
        map_option (case_sum (\<lambda>names. Inl (OrderingCycle names)) (\<lambda>srt. Inr (rev srt)))
          (order_units hord reg S)"
proof -
  have "a \<in> {..<length (units reg)}"
    using assms by (simp add: lookup_unit_def reg_ok_by_name)
  from dependent.closure_loop_closure[OF assms(1) this] obtain S where S:
    "closure_loop (dependent_targets reg) [a] [a] = Some S" "distinct S"
    "set S \<subseteq> {..<length (units reg)}" "set S = dependents_closure reg a"
    by (auto simp: dependents_closure_def succ_rel_dependent_targets[OF assms(1)])
  from dependents_of_spec[OF assms(1)] obtain m where m: "dependents_of reg = Some m" by blast
  then have "dependent_targets reg = (\<lambda>u. Some (outl m u))"
    by (simp add: dependent_targets_def fun_eq_iff)
  with S m assms(2) show ?thesis by (auto simp: build_stop_transaction_def)
qed

text \<open>
  C22: the stop transaction of a unit never panics and always ends. It lists, exactly once each,
  the unit and everything that depends on it through any chain of requirement edges, later
  units of the After/Before order first; it is refused exactly when that order is cyclic.
\<close>

theorem stop_transaction_spec:
  assumes "reg_ok reg" "permuting hord"
  shows "case lookup_unit reg anchor of
      None \<Rightarrow> build_stop_transaction hord reg anchor = Some (Inl (UnknownUnit anchor))
    | Some a \<Rightarrow>
        if acyclic (order_rel reg (dependents_closure reg a))
        then \<exists>us. build_stop_transaction hord reg anchor = Some (Inr us)
          \<and> distinct us \<and> set us = dependents_closure reg a
          \<and> topological (order_rel reg (dependents_closure reg a)) (rev us)
        else \<exists>is. build_stop_transaction hord reg anchor
            = Some (Inl (OrderingCycle (map (\<lambda>i. lu_name (units reg ! i)) is)))
          \<and> distinct is \<and> set is = after_cycle (order_rel reg (dependents_closure reg a))"
proof (cases "lookup_unit reg anchor")
  case (Some a)
  from stop_closure[OF assms(1) Some, of hord] obtain S where S:
    "distinct S" "set S \<subseteq> {..<length (units reg)}" "set S = dependents_closure reg a"
    "build_stop_transaction hord reg anchor =
        map_option (case_sum (\<lambda>names. Inl (OrderingCycle names)) (\<lambda>srt. Inr (rev srt)))
          (order_units hord reg S)" by blast
  from order_units_spec[OF assms(2) S(1,2)] show ?thesis
    using Some S(3,4) by (auto split: if_splits)
qed (simp add: build_stop_transaction_def)

section \<open>Independence of the hash order\<close>

text \<open>Two answers agree; the names of a cycle error may be listed in another order.\<close>

fun same_answer :: "(transaction_error + 'a) option \<Rightarrow> (transaction_error + 'a) option \<Rightarrow> bool" where
  "same_answer (Some (Inl (OrderingCycle ns))) (Some (Inl (OrderingCycle ms))) = (mset ns = mset ms)"
| "same_answer r r' = (r = r')"

lemma order_units_answer:
  assumes "permuting hord" "permuting hord'" "distinct S" "set S \<subseteq> {..<length (units reg)}"
  shows "same_answer
     (map_option (case_sum (\<lambda>names. Inl (OrderingCycle names)) (\<lambda>srt. Inr (f srt))) (order_units hord reg S))
     (map_option (case_sum (\<lambda>names. Inl (OrderingCycle names)) (\<lambda>srt. Inr (f srt))) (order_units hord' reg S))"
proof -
  have "mset (hord Remaining S) = mset (hord' Remaining S)"
    using assms(1,2) by (simp add: permuting_def)
  then show ?thesis
    using order_units_sorted[OF assms(1,3,4)] order_units_sorted[OF assms(2,3,4)] by auto
qed

text \<open>
  C23: both builders are deterministic: whatever order the hash sets and maps are iterated in,
  the plan is the same list, and an error is the same up to the order of the names it lists.
\<close>

theorem transactions_deterministic:
  assumes "reg_ok reg" "permuting hord" "permuting hord'"
  shows "same_answer (build_transaction hord reg anchor) (build_transaction hord' reg anchor)
    \<and> same_answer (build_stop_transaction hord reg anchor) (build_stop_transaction hord' reg anchor)"
proof (cases "lookup_unit reg anchor")
  case (Some a)
  then have "a \<in> {..<length (units reg)}"
    using assms(1) by (simp add: lookup_unit_def reg_ok_by_name)
  from requirement.closure_loop_closure[OF assms(1) this] obtain S where
    "closure_loop (requirement_targets reg) [a] [a] = Some S" "distinct S"
    "set S \<subseteq> {..<length (units reg)}" by auto
  then have "same_answer (build_transaction hord reg anchor) (build_transaction hord' reg anchor)"
    using Some order_units_answer[OF assms(2,3)] by (simp add: build_transaction_def)
  moreover from dependents_of_spec[OF assms(1)] obtain m where m: "dependents_of reg = Some m" by blast
  have "dependent_targets reg = (\<lambda>u. Some (outl m u))"
    using m by (simp add: dependent_targets_def fun_eq_iff)
  with dependent.closure_loop_closure[OF assms(1) \<open>a \<in> _\<close>] obtain T where
    "closure_loop (\<lambda>u. Some (outl m u)) [a] [a] = Some T" "distinct T"
    "set T \<subseteq> {..<length (units reg)}" by auto
  then have "same_answer (build_stop_transaction hord reg anchor) (build_stop_transaction hord' reg anchor)"
    using Some m order_units_answer[OF assms(2,3)] by (simp add: build_stop_transaction_def)
  ultimately show ?thesis by simp
qed (simp add: build_transaction_def build_stop_transaction_def)

section \<open>Concrete transactions\<close>

definition mk_unit :: "string \<Rightarrow> string list \<Rightarrow> string list \<Rightarrow> string list \<Rightarrow> loaded_unit" where
  "mk_unit name ws rs afters =
     \<lparr>lu_name = name,
      lu_file = \<lparr>unit_of = default_unit_section\<lparr>wants := ws, requires := rs, after := afters\<rparr>,
                service_of = None, install_of = default_install_section\<rparr>\<rparr>"

definition sample_registry :: registry where
  "sample_registry = from_loaded
     [mk_unit ''a.target'' [''b.service''] [''c.service''] [],
      mk_unit ''b.service'' [] [] [''c.service''],
      mk_unit ''c.service'' [] [] [],
      mk_unit ''d.service'' [] [''c.service''] []]"

definition start_job :: "unit_id \<Rightarrow> job" where
  "start_job u = \<lparr>job_unit = u, job_kind = Start, job_state = Waiting\<rparr>"

lemma permuting_id: "permuting (\<lambda>_ xs. xs)" by (simp add: permuting_def)
lemma permuting_rev: "permuting (\<lambda>_. rev)" by (simp add: permuting_def)

lemma sample_start:
  "build_transaction (\<lambda>_ xs. xs) sample_registry ''a.target'' = Some (Inr [start_job 0, start_job 2, start_job 1])"
  "build_transaction (\<lambda>_. rev) sample_registry ''a.target'' = Some (Inr [start_job 0, start_job 2, start_job 1])"
  by code_simp+

lemma sample_stop:
  "build_stop_transaction (\<lambda>_ xs. xs) sample_registry ''c.service'' = Some (Inr [3, 2, 0])"
  by code_simp


theorem stop_transaction_spec_witness:
  "dependents_closure sample_registry 2 = {0, 2, 3}"
proof -
  have l: "lookup_unit sample_registry ''c.service'' = Some 2" by code_simp
  have ok: "reg_ok sample_registry" unfolding sample_registry_def by (rule reg_ok_from_loaded)
  from stop_transaction_spec[OF ok permuting_id, of "''c.service''"]
  have "{3, 2, 0} = dependents_closure sample_registry 2"
    by (simp add: l sample_stop split: if_splits)
  then show ?thesis by blast
qed

theorem transactions_deterministic_witness:
  "same_answer (build_transaction (\<lambda>_ xs. xs) sample_registry ''a.target'')
     (build_transaction (\<lambda>_. rev) sample_registry ''a.target'')"
proof -
  have "reg_ok sample_registry" unfolding sample_registry_def by (rule reg_ok_from_loaded)
  from transactions_deterministic[OF this permuting_id permuting_rev] show ?thesis by simp
qed

text \<open>
  Without After directives between them, a unit with a smaller id than the anchor is stopped
  after it, although it depends on it; and units that require each other are started.
\<close>

lemma stop_order_counterexample:
  "build_stop_transaction (\<lambda>_ xs. xs) sample_registry ''c.service'' = Some (Inr us) \<Longrightarrow>
     last us = 0 \<and> hard_requirement_targets sample_registry 0 = Some [2]"
proof -
  have "hard_requirement_targets sample_registry 0 = Some [2]" by code_simp
  then show "build_stop_transaction (\<lambda>_ xs. xs) sample_registry ''c.service'' = Some (Inr us) \<Longrightarrow>
     last us = 0 \<and> hard_requirement_targets sample_registry 0 = Some [2]"
    by (auto simp: sample_stop)
qed

lemma requirement_cycle_accepted:
  "build_transaction (\<lambda>_ xs. xs)
     (from_loaded [mk_unit ''a.service'' [] [''b.service''] [], mk_unit ''b.service'' [] [''a.service''] []])
     ''a.service'' = Some (Inr [start_job 0, start_job 1])"
  by code_simp

end
