(* ===== verification/Kernel.thy ===== *)
theory Kernel
  imports Config
begin

text \<open>
  The operating system as the supervisor sees it. The kernel is not part of the sources: its
  calls are the fields of a record over an abstract world \<open>'w\<close>, an argument of every operation
  that makes them. What the operations rely on is stated as named hypotheses: \<open>kernel_ok\<close>
  (process ids of unreaped children are not reused, waitpid only reports and removes such
  children), \<open>clock_ok\<close> (sleeping moves the clock) and \<open>mortal\<close> (given processes die).
\<close>

section \<open>Results in a changing world\<close>

definition then_r :: "('e + 'a) \<times> 'w \<Rightarrow> ('a \<Rightarrow> 'w \<Rightarrow> ('e + 'b) \<times> 'w) \<Rightarrow> ('e + 'b) \<times> 'w" where
  "then_r r f = (case r of (Inl e, w) \<Rightarrow> (Inl e, w) | (Inr x, w) \<Rightarrow> f x w)"

lemma then_r_Inr: "then_r r f = (Inr b, w) \<longleftrightarrow> (\<exists>a w'. r = (Inr a, w') \<and> f a w' = (Inr b, w))"
  by (cases r; cases "fst r") (auto simp: then_r_def)

text \<open>\<open>CString::new\<close>: a string with a NUL byte is refused.\<close>

definition c_string :: "string \<Rightarrow> string option" where
  "c_string s = (if NUL \<in> set s then None else Some s)"

section \<open>System calls\<close>

text \<open>What a forked child does between fork and exec, call by call.\<close>

datatype child_call =
    Unblock_Signals | Setsid | Open_Null | Open_Tty string | Take_Tty
  | Dup2 int int | Close_Fd int
  | Setgroups u32 | Setresgid u32 | Setresuid u32
  | Execve string "string list" "string list" | Exit nat

text \<open>A child: its calls, given which of them succeed and what the descriptor it opens is.\<close>

type_synonym child = "(child_call \<Rightarrow> bool) \<Rightarrow> int \<Rightarrow> child_call list"

datatype open_mode = Open_Log | Open_Path_Directory

record 'w kernel =
  k_now :: "'w \<Rightarrow> nat \<times> 'w"
  k_sleep :: "nat \<Rightarrow> 'w \<Rightarrow> 'w"
  k_fork :: "child \<Rightarrow> 'w \<Rightarrow> (io_error + int) \<times> 'w"
  k_clone_into :: "int \<Rightarrow> child \<Rightarrow> 'w \<Rightarrow> (io_error + int) \<times> 'w"
  k_waitpid :: "int \<Rightarrow> bool \<Rightarrow> 'w \<Rightarrow> (int \<times> u32) \<times> 'w"
  k_kill :: "int \<Rightarrow> nat \<Rightarrow> 'w \<Rightarrow> 'w"
  k_getpwnam :: "string \<Rightarrow> 'w \<Rightarrow> u32 option \<times> 'w"
  k_getgrnam :: "string \<Rightarrow> 'w \<Rightarrow> u32 option \<times> 'w"
  k_open :: "string \<Rightarrow> open_mode \<Rightarrow> 'w \<Rightarrow> (io_error + int) \<times> 'w"
  k_close :: "int \<Rightarrow> 'w \<Rightarrow> 'w"
  k_create_dir_all :: "string \<Rightarrow> 'w \<Rightarrow> (io_error + unit) \<times> 'w"
  k_remove_dir :: "string \<Rightarrow> 'w \<Rightarrow> (io_error + unit) \<times> 'w"
  k_write_file :: "string \<Rightarrow> string \<Rightarrow> 'w \<Rightarrow> (io_error + unit) \<times> 'w"
  k_read_file :: "string \<Rightarrow> 'w \<Rightarrow> (io_error + string) \<times> 'w"
  k_remove_file :: "string \<Rightarrow> 'w \<Rightarrow> (io_error + unit) \<times> 'w"
  k_read_dir :: "string \<Rightarrow> 'w \<Rightarrow> (io_error + (io_error + dir_entry) list) \<times> 'w"

definition SIGTERM :: nat where "SIGTERM = 15"
definition SIGKILL :: nat where "SIGKILL = 9"
definition SIGINT :: nat where "SIGINT = 2"
definition SIGHUP :: nat where "SIGHUP = 1"
definition SIGCHLD :: nat where "SIGCHLD = 17"

text \<open>The macros of sys/wait.h on a wait status.\<close>

unbundle bit_operations_syntax

definition wifexited :: "u32 \<Rightarrow> bool" where
  "wifexited status \<longleftrightarrow> status AND 0x7f = 0"

definition wexitstatus :: "u32 \<Rightarrow> u32" where
  "wexitstatus status = drop_bit 8 status AND 0xff"

definition wifsignaled :: "u32 \<Rightarrow> bool" where
  "wifsignaled status \<longleftrightarrow> status AND 0x7f \<noteq> 0 \<and> status AND 0x7f \<noteq> 0x7f"

text \<open>
  \<open>Instant + Duration\<close>: seconds are a signed 64-bit number, and a sum beyond it panics. An
  instant is its number of nanoseconds.
\<close>

definition instant_add :: "nat \<Rightarrow> duration \<Rightarrow> nat option" where
  "instant_add t d = (if t + d < 2 ^ 63 * 1000000000 then Some (t + d) else None)"

section \<open>What the operations rely on\<close>

text \<open>The world's unreaped children, before and after each call.\<close>

definition same_children :: "('w \<Rightarrow> int set) \<Rightarrow> ('w \<Rightarrow> 'w) \<Rightarrow> bool" where
  "same_children ch f \<longleftrightarrow> (\<forall>w. ch (f w) = ch w)"

definition kernel_ok :: "'w kernel \<Rightarrow> ('w \<Rightarrow> int set) \<Rightarrow> bool" where
  "kernel_ok k ch \<longleftrightarrow>
     (\<forall>w. finite (ch w))
     \<and> (\<forall>c w r w'. k_fork k c w = (r, w') \<longrightarrow>
          (case r of Inl e \<Rightarrow> ch w' = ch w | Inr p \<Rightarrow> 0 < p \<and> p \<notin> ch w \<and> ch w' = insert p (ch w)))
     \<and> (\<forall>fd c w r w'. k_clone_into k fd c w = (r, w') \<longrightarrow>
          (case r of Inl e \<Rightarrow> ch w' = ch w | Inr p \<Rightarrow> 0 < p \<and> p \<notin> ch w \<and> ch w' = insert p (ch w)))
     \<and> (\<forall>pid nohang w rc st w'. k_waitpid k pid nohang w = ((rc, st), w') \<longrightarrow>
          (if 0 < rc then rc \<in> ch w \<and> ch w' = ch w - {rc} \<and> (0 < pid \<longrightarrow> rc = pid)
           else ch w' = ch w))
     \<and> same_children ch (\<lambda>w. snd (k_now k w))
     \<and> (\<forall>d. same_children ch (k_sleep k d))
     \<and> (\<forall>p sig. same_children ch (k_kill k p sig))
     \<and> (\<forall>n. same_children ch (\<lambda>w. snd (k_getpwnam k n w)))
     \<and> (\<forall>n. same_children ch (\<lambda>w. snd (k_getgrnam k n w)))
     \<and> (\<forall>n m. same_children ch (\<lambda>w. snd (k_open k n m w)))
     \<and> (\<forall>fd. same_children ch (k_close k fd))
     \<and> (\<forall>n. same_children ch (\<lambda>w. snd (k_create_dir_all k n w)))
     \<and> (\<forall>n. same_children ch (\<lambda>w. snd (k_remove_dir k n w)))
     \<and> (\<forall>n b. same_children ch (\<lambda>w. snd (k_write_file k n b w)))
     \<and> (\<forall>n. same_children ch (\<lambda>w. snd (k_read_file k n w)))
     \<and> (\<forall>n. same_children ch (\<lambda>w. snd (k_remove_file k n w)))
     \<and> (\<forall>n. same_children ch (\<lambda>w. snd (k_read_dir k n w)))"

text \<open>Time does not stand still while a process sleeps.\<close>

definition clock_ok :: "'w kernel \<Rightarrow> ('w \<Rightarrow> nat) \<Rightarrow> bool" where
  "clock_ok k clock \<longleftrightarrow>
     (\<forall>w t w'. k_now k w = (t, w') \<longrightarrow> clock w \<le> t \<and> t \<le> clock w')
     \<and> (\<forall>d w. clock w + d \<le> clock (k_sleep k d w))
     \<and> (\<forall>p h w. clock w \<le> clock (snd (k_waitpid k p h w)))
     \<and> (\<forall>p sig w. clock w \<le> clock (k_kill k p sig w))"

text \<open>
  The processes in \<open>P\<close> terminate: at most \<open>fate w\<close> more sleeps, and waiting for any child
  finds one as long as some process in \<open>P\<close> is unreaped.
\<close>

definition mortal :: "'w kernel \<Rightarrow> ('w \<Rightarrow> int set) \<Rightarrow> int set \<Rightarrow> ('w \<Rightarrow> nat) \<Rightarrow> bool" where
  "mortal k ch P fate \<longleftrightarrow>
     (\<forall>d w. fate (k_sleep k d w) < fate w \<or> fate w = 0 \<and> fate (k_sleep k d w) = 0)
     \<and> (\<forall>p h w. fate (snd (k_waitpid k p h w)) \<le> fate w)
     \<and> (\<forall>p sig w. fate (k_kill k p sig w) \<le> fate w)
     \<and> (\<forall>w. fate (snd (k_now k w)) \<le> fate w)
     \<and> (\<forall>w. fate w = 0 \<and> P \<inter> ch w \<noteq> {} \<longrightarrow> 0 < fst (fst (k_waitpid k (-1) True w)))"

lemma kernel_children [frame_simps]:
  assumes "kernel_ok k ch"
  shows "ch (snd (k_now k w)) = ch w" "ch (k_sleep k d w) = ch w" "ch (k_kill k p sig w) = ch w"
    "ch (snd (k_getpwnam k n w)) = ch w" "ch (snd (k_getgrnam k n w)) = ch w"
    "ch (snd (k_open k n m w)) = ch w" "ch (k_close k fd w) = ch w"
    "ch (snd (k_create_dir_all k n w)) = ch w" "ch (snd (k_remove_dir k n w)) = ch w"
    "ch (snd (k_write_file k n b w)) = ch w" "ch (snd (k_read_file k n w)) = ch w"
    "ch (snd (k_remove_file k n w)) = ch w" "ch (snd (k_read_dir k n w)) = ch w"
  using assms by (simp_all add: kernel_ok_def same_children_def)

lemma kernel_step:
  assumes "kernel_ok k ch"
  shows "k_now k w = (t, w') \<Longrightarrow> ch w' = ch w"
    "k_getpwnam k n w = (u, w') \<Longrightarrow> ch w' = ch w"
    "k_getgrnam k n w = (u, w') \<Longrightarrow> ch w' = ch w"
    "k_open k n m w = (r, w') \<Longrightarrow> ch w' = ch w"
    "k_remove_dir k n w = (e, w') \<Longrightarrow> ch w' = ch w"
  using kernel_children(1,4,5,6,9)[OF assms] by (metis snd_conv)+

lemma kernel_fork:
  assumes "kernel_ok k ch"
  shows "k_fork k c w = (Inl e, w') \<Longrightarrow> ch w' = ch w"
    "k_fork k c w = (Inr p, w') \<Longrightarrow> 0 < p \<and> p \<notin> ch w \<and> ch w' = insert p (ch w)"
    "k_clone_into k fd c w = (Inl e, w') \<Longrightarrow> ch w' = ch w"
    "k_clone_into k fd c w = (Inr p, w') \<Longrightarrow> 0 < p \<and> p \<notin> ch w \<and> ch w' = insert p (ch w)"
  using assms by (fastforce simp: kernel_ok_def)+

lemma kernel_waitpid:
  assumes "kernel_ok k ch" "k_waitpid k pid nohang w = ((rc, st), w')"
  shows "0 < rc \<Longrightarrow> rc \<in> ch w \<and> ch w' = ch w - {rc} \<and> (0 < pid \<longrightarrow> rc = pid)"
    "\<not> 0 < rc \<Longrightarrow> ch w' = ch w"
  using assms by (simp_all add: kernel_ok_def)

lemma mortal_laws:
  assumes "mortal k ch P fate"
  shows "fate (k_sleep k d w) < fate w \<or> fate w = 0 \<and> fate (k_sleep k d w) = 0"
    "k_waitpid k p h w = (r, w') \<Longrightarrow> fate w' \<le> fate w"
    "fate (k_kill k p sig w) \<le> fate w"
    "k_now k w = (t, w') \<Longrightarrow> fate w' \<le> fate w"
    "k_waitpid k (-1) True w = ((rc, st), w') \<Longrightarrow> fate w = 0 \<Longrightarrow> rc \<le> 0 \<Longrightarrow> P \<inter> ch w = {}"
proof -
  note m = assms[unfolded mortal_def]
  show "fate (k_sleep k d w) < fate w \<or> fate w = 0 \<and> fate (k_sleep k d w) = 0"
    "fate (k_kill k p sig w) \<le> fate w"
    using m by blast+
  show "k_waitpid k p h w = (r, w') \<Longrightarrow> fate w' \<le> fate w" "k_now k w = (t, w') \<Longrightarrow> fate w' \<le> fate w"
    using m by (metis snd_conv)+
  show "k_waitpid k (-1) True w = ((rc, st), w') \<Longrightarrow> fate w = 0 \<Longrightarrow> rc \<le> 0 \<Longrightarrow> P \<inter> ch w = {}"
    using m by (metis fst_conv not_less)
qed

lemma clock_laws:
  assumes "clock_ok k clock"
  shows "k_now k w = (t, w') \<Longrightarrow> clock w \<le> t" "k_now k w = (t, w') \<Longrightarrow> t \<le> clock w'"
    "clock w + d \<le> clock (k_sleep k d w)" "clock w \<le> clock (snd (k_waitpid k p h w))"
    "clock w \<le> clock (k_kill k p sig w)"
  using assms by (auto simp: clock_ok_def)

lemma kernel_finite: "kernel_ok k ch \<Longrightarrow> finite (ch w)"
  by (simp add: kernel_ok_def)

end
