(* ===== verification/Spawn.thy ===== *)
theory Spawn
  imports Kernel
begin

text \<open>
  crates/writeonce-svc/src/spawn.rs and cgroup.rs: credentials, the log file, the cgroup
  directory, the fork in the parent and what the child does up to execve.
\<close>

section \<open>Control groups\<close>

record resource_limits =
  memory_max :: "u64 option"
  pids_max :: "u64 option"
  cpu_max :: "string option"

definition no_limits :: resource_limits where
  "no_limits = \<lparr>memory_max = None, pids_max = None, cpu_max = None\<rparr>"

definition write_limit ::
  "'w kernel \<Rightarrow> string \<Rightarrow> string option \<Rightarrow> 'w \<Rightarrow> (io_error + unit) \<times> 'w" where
  "write_limit k path v w = (case v of None \<Rightarrow> (Inr (), w) | Some b \<Rightarrow> k_write_file k path b w)"

definition prepare_cgroup ::
  "'w kernel \<Rightarrow> string \<Rightarrow> resource_limits \<Rightarrow> 'w \<Rightarrow> (io_error + int) \<times> 'w" where
  "prepare_cgroup k rel limits w =
     (let path = ''/sys/fs/cgroup/'' @ rel in
      then_r (k_create_dir_all k path w) (\<lambda>_ w.
      then_r (write_limit k (path @ ''/memory.max'') (map_option (show_nat \<circ> unat) (memory_max limits)) w) (\<lambda>_ w.
      then_r (write_limit k (path @ ''/pids.max'') (map_option (show_nat \<circ> unat) (pids_max limits)) w) (\<lambda>_ w.
      then_r (write_limit k (path @ ''/cpu.max'') (cpu_max limits) w) (\<lambda>_ w.
        case c_string path of
          None \<Rightarrow> (Inl (Other_Error ''cgroup path contained NUL''), w)
        | Some p \<Rightarrow> k_open k p Open_Path_Directory w)))))"

definition remove_cgroup :: "'w kernel \<Rightarrow> string \<Rightarrow> 'w \<Rightarrow> (io_error + unit) \<times> 'w" where
  "remove_cgroup k rel w =
     (case k_remove_dir k (''/sys/fs/cgroup/'' @ rel) w of
        (Inr _, w') \<Rightarrow> (Inr (), w')
      | (Inl e, w') \<Rightarrow> if e = Not_Found then (Inr (), w') else (Inl e, w'))"

section \<open>The parent\<close>

record spawn_request =
  rq_name :: string
  rq_service :: service_section
  rq_fake :: bool
  rq_log_dir :: string

definition uid_for_user :: "'w kernel \<Rightarrow> string \<Rightarrow> 'w \<Rightarrow> (io_error + u32) \<times> 'w" where
  "uid_for_user k name w =
     (case c_string name of
        None \<Rightarrow> (Inl (Other_Error ''user contained NUL''), w)
      | Some c \<Rightarrow> (case k_getpwnam k c w of
          (None, w') \<Rightarrow> (Inl (Other_Error (''unknown user: '' @ name)), w')
        | (Some uid, w') \<Rightarrow> (Inr uid, w')))"

definition gid_for_group :: "'w kernel \<Rightarrow> string \<Rightarrow> 'w \<Rightarrow> (io_error + u32) \<times> 'w" where
  "gid_for_group k name w =
     (case c_string name of
        None \<Rightarrow> (Inl (Other_Error ''group contained NUL''), w)
      | Some c \<Rightarrow> (case k_getgrnam k c w of
          (None, w') \<Rightarrow> (Inl (Other_Error (''unknown group: '' @ name)), w')
        | (Some gid, w') \<Rightarrow> (Inr gid, w')))"

definition resolve_creds ::
  "'w kernel \<Rightarrow> service_section \<Rightarrow> 'w \<Rightarrow> (io_error + (u32 \<times> u32) option) \<times> 'w" where
  "resolve_creds k svc w =
     (if user svc = ''root'' \<and> group svc = ''root'' then (Inr None, w)
      else then_r (uid_for_user k (user svc) w) (\<lambda>uid w.
           then_r (gid_for_group k (group svc) w) (\<lambda>gid w. (Inr (Some (uid, gid)), w))))"

definition open_log :: "'w kernel \<Rightarrow> string \<Rightarrow> string \<Rightarrow> 'w \<Rightarrow> (io_error + int) \<times> 'w" where
  "open_log k dir name w =
     (case c_string (dir @ ''/'' @ name @ ''.log'') of
        None \<Rightarrow> (Inl (Other_Error ''log path contained NUL''), w)
      | Some p \<Rightarrow> k_open k p Open_Log w)"

section \<open>The child\<close>

definition default_env :: "string list" where
  "default_env = [''PATH=/usr/bin:/usr/sbin:/bin:/sbin'', ''TERM=linux'']"

definition redirect_stdio :: "int \<Rightarrow> int \<Rightarrow> child_call list" where
  "redirect_stdio nullfd logfd =
     (let out_fd = (if 0 \<le> logfd then logfd else nullfd) in
      (if 0 \<le> nullfd then [Dup2 nullfd 0] else [])
      @ (if 0 \<le> out_fd then [Dup2 out_fd 1, Dup2 out_fd 2] else [])
      @ (if 2 < nullfd then [Close_Fd nullfd] else [])
      @ (if 2 < logfd then [Close_Fd logfd] else []))"

text \<open>A checked call: when it fails the child prints and leaves with 127.\<close>

definition check_call :: "(child_call \<Rightarrow> bool) \<Rightarrow> child_call \<Rightarrow> child_call list \<Rightarrow> child_call list" where
  "check_call ok c rest = c # (if ok c then rest else [Exit 127])"

definition exec_calls :: "service_section \<Rightarrow> (child_call \<Rightarrow> bool) \<Rightarrow> child_call list" where
  "exec_calls svc ok =
     (case split_whitespace (exec_start svc) of
        [] \<Rightarrow> [Exit 127]
      | prog # args \<Rightarrow>
          (case those (map c_string (prog # args)) of
             None \<Rightarrow> [Exit 127]
           | Some argv \<Rightarrow>
               let env = (if environment svc = [] then default_env
                          else List.map_filter c_string (environment svc))
               in check_call ok (Execve prog argv env) []))"

definition child_exec :: "spawn_request \<Rightarrow> (u32 \<times> u32) option \<Rightarrow> int \<Rightarrow> child" where
  "child_exec req creds logfd ok nullfd =
     [Unblock_Signals, Setsid, Open_Null] @ redirect_stdio nullfd logfd
     @ (case creds of
          None \<Rightarrow> exec_calls (rq_service req) ok
        | Some (uid, gid) \<Rightarrow>
            check_call ok (Setgroups gid) (check_call ok (Setresgid gid)
              (check_call ok (Setresuid uid) (exec_calls (rq_service req) ok))))"

definition spawn_plain_fork ::
  "'w kernel \<Rightarrow> spawn_request \<Rightarrow> (u32 \<times> u32) option \<Rightarrow> int \<Rightarrow> 'w \<Rightarrow> (io_error + int) \<times> 'w" where
  "spawn_plain_fork k req creds logfd w = k_fork k (child_exec req creds logfd) w"

text \<open>When clone3 fails the question mark returns before the cgroup descriptor is closed.\<close>

definition spawn_with_cgroup ::
  "'w kernel \<Rightarrow> spawn_request \<Rightarrow> (u32 \<times> u32) option \<Rightarrow> int \<Rightarrow> 'w \<Rightarrow> (io_error + int) \<times> 'w" where
  "spawn_with_cgroup k req creds logfd w =
     then_r (prepare_cgroup k (''wo.slice/'' @ rq_name req) no_limits w) (\<lambda>cgroup_fd w.
     then_r (k_clone_into k cgroup_fd (child_exec req creds logfd) w) (\<lambda>pid w.
       (Inr pid, k_close k cgroup_fd w)))"

definition spawn :: "'w kernel \<Rightarrow> spawn_request \<Rightarrow> 'w \<Rightarrow> (io_error + int) \<times> 'w" where
  "spawn k req w =
     then_r (resolve_creds k (rq_service req) w) (\<lambda>creds w.
       case open_log k (rq_log_dir req) (rq_name req) w of
         (opened, w1) \<Rightarrow>
           let logfd = (case opened of Inl _ \<Rightarrow> -1 | Inr fd \<Rightarrow> fd) in
           case (if rq_fake req then spawn_plain_fork k req creds logfd w1
                 else spawn_with_cgroup k req creds logfd w1) of
             (res, w2) \<Rightarrow> (res, if 0 \<le> logfd then k_close k logfd w2 else w2))"

section \<open>What the parent promises\<close>

lemma write_limit_children [frame_simps]:
  "kernel_ok k ch \<Longrightarrow> ch (snd (write_limit k path v w)) = ch w"
  by (auto simp: write_limit_def frame_simps split: option.split)

lemma then_r_children:
  assumes "ch (snd r) = c" "\<And>x v. ch v = c \<Longrightarrow> ch (snd (f x v)) = c"
  shows "ch (snd (then_r r f)) = c"
  using assms by (cases r) (auto simp: then_r_def split: sum.splits)

lemma prepare_cgroup_children:
  assumes "kernel_ok k ch"
  shows "ch (snd (prepare_cgroup k rel lim w)) = ch w"
  unfolding prepare_cgroup_def Let_def
  by (intro then_r_children[where ch = ch]) (simp_all add: frame_simps[OF assms] split: option.split)

lemma remove_cgroup_children [frame_simps]:
  assumes "kernel_ok k ch"
  shows "ch (snd (remove_cgroup k rel w)) = ch w"
  using kernel_step(5)[OF assms, of "''/sys/fs/cgroup/'' @ rel" w]
  by (simp add: remove_cgroup_def split: prod.splits sum.splits)

lemma resolve_creds_children:
  assumes "kernel_ok k ch"
  shows "ch (snd (resolve_creds k svc w)) = ch w"
proof -
  have "ch (snd (uid_for_user k n v)) = ch v" "ch (snd (gid_for_group k n v)) = ch v" for n v
    using kernel_step(2,3)[OF assms, of _ v]
    by (simp_all add: uid_for_user_def gid_for_group_def split: prod.splits option.splits)
  then show ?thesis
    unfolding resolve_creds_def by (auto intro!: then_r_children[where ch = ch])
qed

lemma open_log_children:
  "kernel_ok k ch \<Longrightarrow> ch (snd (open_log k d n w)) = ch w"
  by (auto simp: open_log_def frame_simps split: option.split)

definition forked :: "('w \<Rightarrow> int set) \<Rightarrow> 'w \<Rightarrow> (io_error + int) \<times> 'w \<Rightarrow> bool" where
  "forked ch w r \<longleftrightarrow>
     (case r of (Inl e, w') \<Rightarrow> ch w' = ch w
      | (Inr p, w') \<Rightarrow> 0 < p \<and> p \<notin> ch w \<and> ch w' = insert p (ch w))"

lemma spawn_plain_fork_forked: "kernel_ok k ch \<Longrightarrow> forked ch w (spawn_plain_fork k req creds logfd w)"
  by (auto simp: forked_def spawn_plain_fork_def split: prod.splits sum.splits dest: kernel_fork)

lemma spawn_with_cgroup_forked:
  assumes "kernel_ok k ch"
  shows "forked ch w (spawn_with_cgroup k req creds logfd w)"
proof (cases "prepare_cgroup k (''wo.slice/'' @ rq_name req) no_limits w")
  case (Pair r w1)
  then have w1: "ch w1 = ch w"
    using prepare_cgroup_children[OF assms, of "''wo.slice/'' @ rq_name req" no_limits w] by simp
  show ?thesis
  proof (cases r)
    case (Inr fd)
    then show ?thesis
      using Pair w1 kernel_fork(3,4)[OF assms, of fd "child_exec req creds logfd" w1]
      by (cases "k_clone_into k fd (child_exec req creds logfd) w1")
         (auto simp: spawn_with_cgroup_def then_r_def forked_def frame_simps[OF assms] split: sum.splits)
  qed (use Pair w1 in \<open>simp add: spawn_with_cgroup_def then_r_def forked_def\<close>)
qed

lemma spawn_forked:
  assumes "kernel_ok k ch"
  shows "forked ch w (spawn k req w)"
proof (cases "resolve_creds k (rq_service req) w")
  case (Pair r w1)
  then have w1: "ch w1 = ch w" using resolve_creds_children[OF assms, of "rq_service req" w] by simp
  show ?thesis
  proof (cases r)
    case (Inr creds)
    obtain opened w2 where o: "open_log k (rq_log_dir req) (rq_name req) w1 = (opened, w2)" by fastforce
    then have w2: "ch w2 = ch w"
      using open_log_children[OF assms, of "rq_log_dir req" "rq_name req" w1] w1 by simp
    define logfd where "logfd = (case opened of Inl _ \<Rightarrow> -1 | Inr fd \<Rightarrow> fd)"
    define res where "res = (if rq_fake req then spawn_plain_fork k req creds logfd w2
      else spawn_with_cgroup k req creds logfd w2)"
    have "forked ch w2 res"
      using spawn_plain_fork_forked[OF assms] spawn_with_cgroup_forked[OF assms] by (simp add: res_def)
    moreover have "spawn k req w = (fst res, if 0 \<le> logfd then k_close k logfd (snd res) else snd res)"
      using Pair Inr o by (simp add: spawn_def then_r_def logfd_def[symmetric] Let_def res_def split: prod.split)
    ultimately show ?thesis
      using w2 by (auto simp: forked_def frame_simps[OF assms] split: prod.splits sum.splits)
  qed (use Pair w1 in \<open>simp add: spawn_def then_r_def forked_def\<close>)
qed

section \<open>What the child promises\<close>

lemma exec_calls_cases:
  "exec_calls svc ok = [Exit 127] \<or>
   (\<exists>prog args env. split_whitespace (exec_start svc) = prog # args \<and>
      exec_calls svc ok = Execve prog (prog # args) env
        # (if ok (Execve prog (prog # args) env) then [] else [Exit 127]))"
proof -
  have those: "those (map c_string xs) = Some ys \<Longrightarrow> ys = xs" for xs ys
    by (induction xs arbitrary: ys) (auto simp: c_string_def split: if_splits)
  show ?thesis
  proof (cases "split_whitespace (exec_start svc)")
    case (Cons prog args)
    define env where "env = (if environment svc = [] then default_env
      else List.map_filter c_string (environment svc))"
    show ?thesis
    proof (cases "those (map c_string (prog # args))")
      case (Some argv)
      then have "exec_calls svc ok = check_call ok (Execve prog (prog # args) env) []"
        using Cons those[OF Some] by (simp only: exec_calls_def list.case option.case Let_def env_def)
      then show ?thesis using Cons by (simp add: check_call_def)
    next
      case None
      then have "exec_calls svc ok = [Exit 127]"
        using Cons by (simp only: exec_calls_def list.case option.case)
      then show ?thesis ..
    qed
  qed (simp add: exec_calls_def)
qed

lemma no_exec_before:
  "Execve p a e \<notin> set (redirect_stdio nullfd logfd)"
  by (auto simp: redirect_stdio_def Let_def)

text \<open>
  C30: a child that must run as another user or group reaches execve only after its
  supplementary groups, its group ids and its user ids were changed, in that order and with
  every change successful; the program it runs is the first word of the command line, its
  arguments are all of them, and nothing but a failed exec's exit follows.
\<close>

theorem child_drops_privileges:
  assumes "Execve prog argv env \<in> set (child_exec req (Some (uid, gid)) logfd ok nullfd)"
  shows "ok (Setgroups gid) \<and> ok (Setresgid gid) \<and> ok (Setresuid uid)
    \<and> argv = split_whitespace (exec_start (rq_service req)) \<and> prog = hd argv
    \<and> child_exec req (Some (uid, gid)) logfd ok nullfd
       = [Unblock_Signals, Setsid, Open_Null] @ redirect_stdio nullfd logfd
         @ [Setgroups gid, Setresgid gid, Setresuid uid, Execve prog argv env]
         @ (if ok (Execve prog argv env) then [] else [Exit 127])"
  using assms exec_calls_cases[of "rq_service req" ok] no_exec_before
  by (auto simp: child_exec_def check_call_def split: if_splits)

definition sample_service :: service_section where
  "sample_service =
     \<lparr>kind = Simple, exec_start = ''/usr/bin/dbus-daemon --system'', exec_stop = [], exec_reload = [],
      restart = Always, restart_sec = ''5s'', start_limit_burst = 3,
      start_limit_interval_sec = ''30s'', timeout_start_sec = ''30s'', timeout_stop_sec = ''10s'',
      user = ''dbus'', group = ''dbus'', slice = ''system.slice'', remain_after_exit = False,
      environment = []\<rparr>"

definition sample_request :: spawn_request where
  "sample_request = \<lparr>rq_name = ''dbus.service'', rq_service = sample_service, rq_fake = True,
     rq_log_dir = ''/var/log/writeonce''\<rparr>"

theorem child_drops_privileges_witness:
  "child_exec sample_request (Some (81, 81)) 7 (\<lambda>_. True) 3 =
     [Unblock_Signals, Setsid, Open_Null, Dup2 3 0, Dup2 7 1, Dup2 7 2, Close_Fd 3, Close_Fd 7,
      Setgroups 81, Setresgid 81, Setresuid 81,
      Execve ''/usr/bin/dbus-daemon'' [''/usr/bin/dbus-daemon'', ''--system''] default_env]"
proof -
  let ?e = "Execve ''/usr/bin/dbus-daemon'' [''/usr/bin/dbus-daemon'', ''--system''] default_env"
  have "?e \<in> set (child_exec sample_request (Some (81, 81)) 7 (\<lambda>_. True) 3)" by code_simp
  from child_drops_privileges[OF this] show ?thesis by (simp add: redirect_stdio_def)
qed

text \<open>
  Nothing is run with the wrong credentials: when the user or the group cannot be resolved
  no process is created and the error names it; a service of root and root resolves nothing.
  A successful spawn adds exactly one child, whose id was not in use.
\<close>

lemma spawn_outcome:
  assumes "kernel_ok k ch"
  shows "case spawn k req w of
      (Inl e, w') \<Rightarrow> ch w' = ch w
    | (Inr pid, w') \<Rightarrow> 0 < pid \<and> pid \<notin> ch w \<and> ch w' = insert pid (ch w)
        \<and> (user (rq_service req) = ''root'' \<and> group (rq_service req) = ''root''
           \<or> (\<exists>uid gid v v'. k_getpwnam k (user (rq_service req)) w = (Some uid, v)
                \<and> k_getgrnam k (group (rq_service req)) v = (Some gid, v')))"
proof -
  have "\<exists>uid gid v v'. k_getpwnam k (user (rq_service req)) w = (Some uid, v)
                \<and> k_getgrnam k (group (rq_service req)) v = (Some gid, v')"
    if "spawn k req w = (Inr pid, w')" "\<not> (user (rq_service req) = ''root'' \<and> group (rq_service req) = ''root'')"
    for pid w'
    using that
    by (auto simp: spawn_def then_r_def resolve_creds_def uid_for_user_def gid_for_group_def c_string_def
        split: prod.splits sum.splits option.splits if_splits)
  with spawn_forked[OF assms, of w req] show ?thesis
    by (auto simp: forked_def split: prod.splits sum.splits)
qed

end
