(* ===== verification/Supervisor.thy ===== *)
theory Supervisor
  imports Transaction Spawn
begin

text \<open>
  The supervisor's state machine, crates/writeonce-svc/src/state.rs: unit metadata, the map from
  process ids to units, restart bookkeeping and the shutdown flag, with every operation on
  them. An operation takes the supervisor and the kernel's world and returns both, or \<open>None\<close>
  when it panics (an index out of range, an instant beyond the clock) or never returns. The
  lines an operation prints are left out, and so is a result that is \<open>Ok\<close> on every path.
\<close>

section \<open>State\<close>

datatype unit_active_state = Inactive | Activating | Active | Deactivating | UnitFailed

record unit_meta =
  um_id :: unit_id
  um_state :: unit_active_state
  um_pid :: "int option"
  restart_history :: "nat list"

record pending_restart =
  pr_unit :: unit_id
  fire_at :: nat

record supervisor =
  registry :: registry
  metas :: "unit_meta list"
  by_pid :: "int \<rightharpoonup> unit_id"
  pending_restarts :: "pending_restart list"
  shutting_down :: bool
  fake :: bool
  enabled_d :: string
  log_dir :: string

definition DEFAULT_LOG_DIR :: string where "DEFAULT_LOG_DIR = ''/var/log/writeonce''"
definition DEFAULT_ENABLED_D :: string where "DEFAULT_ENABLED_D = ''/etc/writeonce/enabled.d''"

definition new_supervisor :: "registry \<Rightarrow> bool \<Rightarrow> supervisor" where
  "new_supervisor reg fk =
     \<lparr>registry = reg,
      metas = map (\<lambda>i. \<lparr>um_id = i, um_state = Inactive, um_pid = None, restart_history = []\<rparr>)
                [0..<registry_len reg],
      by_pid = Map.empty, pending_restarts = [], shutting_down = False, fake = fk,
      enabled_d = DEFAULT_ENABLED_D, log_dir = DEFAULT_LOG_DIR\<rparr>"

definition supervisor_from_loaded :: "loaded_unit list \<Rightarrow> bool \<Rightarrow> supervisor" where
  "supervisor_from_loaded loaded fk = new_supervisor (from_loaded loaded) fk"

definition unit_meta_of :: "supervisor \<Rightarrow> unit_id \<Rightarrow> unit_meta option" where
  "unit_meta_of s i = nth_opt (metas s) i"

definition update_meta :: "unit_id \<Rightarrow> (unit_meta \<Rightarrow> unit_meta) \<Rightarrow> supervisor \<Rightarrow> supervisor option" where
  "update_meta i f s =
     (if i < length (metas s) then Some (s\<lparr>metas := (metas s)[i := f (metas s ! i)]\<rparr>) else None)"

definition set_state :: "unit_id \<Rightarrow> unit_active_state \<Rightarrow> supervisor \<Rightarrow> supervisor option" where
  "set_state i st = update_meta i (\<lambda>m. m\<lparr>um_state := st\<rparr>)"

definition set_pid :: "unit_id \<Rightarrow> int option \<Rightarrow> supervisor \<Rightarrow> supervisor option" where
  "set_pid i p = update_meta i (\<lambda>m. m\<lparr>um_pid := p\<rparr>)"

section \<open>Starting\<close>

datatype oneshot_outcome = Clean | OneshotFailed | TimedOut

text \<open>The poll of a oneshot child, from the deadline on. \<open>None\<close>: it polls for ever.\<close>

partial_function (option) poll_oneshot ::
  "'w kernel \<Rightarrow> int \<Rightarrow> nat \<Rightarrow> 'w \<Rightarrow> (oneshot_outcome \<times> 'w) option" where
  "poll_oneshot k pid deadline w =
     (case k_waitpid k pid True w of ((rc, status), w1) \<Rightarrow>
        if rc = pid then
          Some (if wifexited status \<and> wexitstatus status = 0 then Clean else OneshotFailed, w1)
        else if rc < 0 then Some (OneshotFailed, w1)
        else (case k_now k w1 of (now, w2) \<Rightarrow>
          if deadline \<le> now then
            Some (TimedOut, snd (k_waitpid k pid False (k_kill k pid SIGKILL w2)))
          else poll_oneshot k pid deadline (k_sleep k (20 * 1000000) w2)))"

declare poll_oneshot.simps [code]

definition wait_oneshot ::
  "'w kernel \<Rightarrow> int \<Rightarrow> duration \<Rightarrow> 'w \<Rightarrow> (oneshot_outcome \<times> 'w) option" where
  "wait_oneshot k pid timeout w =
     (case k_now k w of (now, w1) \<Rightarrow> do {
        deadline \<leftarrow> instant_add now timeout;
        poll_oneshot k pid deadline w1 })"

fun find_failed :: "supervisor \<Rightarrow> unit_id list \<Rightarrow> unit_id option option" where
  "find_failed s [] = Some None"
| "find_failed s (d # ds) =
     (case unit_meta_of s d of
        None \<Rightarrow> None
      | Some m \<Rightarrow> if um_state m = UnitFailed then Some (Some d) else find_failed s ds)"

definition duration_or :: "string \<Rightarrow> u64 \<Rightarrow> duration" where
  "duration_or text secs = (case parse_duration text of None \<Rightarrow> from_secs secs | Some d \<Rightarrow> d)"

definition oneshot_state :: "service_section \<Rightarrow> oneshot_outcome \<Rightarrow> unit_active_state" where
  "oneshot_state svc outcome =
     (case outcome of
        Clean \<Rightarrow> if remain_after_exit svc then Active else Inactive
      | OneshotFailed \<Rightarrow> UnitFailed
      | TimedOut \<Rightarrow> UnitFailed)"

text \<open>The branch of a service once its process exists.\<close>

definition service_started ::
  "'w kernel \<Rightarrow> unit_id \<Rightarrow> service_section \<Rightarrow> int \<Rightarrow> supervisor \<Rightarrow> 'w \<Rightarrow> (supervisor \<times> 'w) option" where
  "service_started k i svc pid s w = do {
     s1 \<leftarrow> set_pid i (Some pid) s;
     let s2 = s1\<lparr>by_pid := (by_pid s1)(pid \<mapsto> i)\<rparr>;
     if kind svc = Oneshot then do {
       (outcome, w1) \<leftarrow> wait_oneshot k pid (duration_or (timeout_start_sec svc) 30) w;
       s3 \<leftarrow> set_state i (oneshot_state svc outcome) s2;
       s4 \<leftarrow> set_pid i None s3;
       Some (s4\<lparr>by_pid := (by_pid s4)(pid := None)\<rparr>, w1) }
     else do {
       s3 \<leftarrow> set_state i Active s2;
       Some (s3, w) } }"

definition start_service ::
  "'w kernel \<Rightarrow> unit_id \<Rightarrow> string \<Rightarrow> service_section \<Rightarrow> supervisor \<Rightarrow> 'w \<Rightarrow> (supervisor \<times> 'w) option" where
  "start_service k i name svc s w = do {
     s1 \<leftarrow> set_state i Activating s;
     case spawn k \<lparr>rq_name = name, rq_service = svc, rq_fake = fake s, rq_log_dir = log_dir s\<rparr> w of
       (Inl e, w1) \<Rightarrow> do { s2 \<leftarrow> set_state i UnitFailed s1; Some (s2, w1) }
     | (Inr pid, w1) \<Rightarrow> service_started k i svc pid s1 w1 }"

definition start_unit_internal ::
  "'w kernel \<Rightarrow> unit_id \<Rightarrow> supervisor \<times> 'w \<Rightarrow> (supervisor \<times> 'w) option" where
  "start_unit_internal k i sw = (case sw of (s, w) \<Rightarrow> do {
     deps \<leftarrow> hard_requirement_targets (registry s) i;
     failed_dep \<leftarrow> find_failed s deps;
     case failed_dep of
       Some dep \<Rightarrow> do { s1 \<leftarrow> set_state i UnitFailed s; Some (s1, w) }
     | None \<Rightarrow> do {
         u \<leftarrow> get_unit (registry s) i;
         case service_of (lu_file u) of
           None \<Rightarrow> do { s1 \<leftarrow> set_state i Active s; Some (s1, w) }
         | Some svc \<Rightarrow> start_service k i (lu_name u) svc s w } })"

fun activate_plan :: "'w kernel \<Rightarrow> job list \<Rightarrow> supervisor \<times> 'w \<Rightarrow> (supervisor \<times> 'w) option" where
  "activate_plan k [] sw = Some sw"
| "activate_plan k (j # js) sw =
     (if job_state j \<noteq> Waiting then activate_plan k js sw
      else case start_unit_internal k (job_unit j) sw of
             None \<Rightarrow> None
           | Some sw' \<Rightarrow> activate_plan k js sw')"

section \<open>Exits and restarts\<close>

definition wants_restart :: "restart_policy \<Rightarrow> bool \<Rightarrow> bool \<Rightarrow> bool" where
  "wants_restart policy exited_clean signaled =
     (case policy of RestartNo \<Rightarrow> False | Always \<Rightarrow> True
      | OnFailure \<Rightarrow> \<not> exited_clean | OnAbnormal \<Rightarrow> signaled)"

text \<open>
  The rate limit: the history is pruned to the interval before now; with a positive burst
  that many attempts left in it refuse the restart, else the attempt is recorded.
\<close>

definition restart_gate :: "u32 \<Rightarrow> duration \<Rightarrow> nat \<Rightarrow> nat list \<Rightarrow> nat list \<times> bool" where
  "restart_gate burst interval now history =
     (let recent = filter (\<lambda>t. now - t \<le> interval) history in
      if 0 < burst \<and> unat burst \<le> length recent then (recent, False) else (recent @ [now], True))"

definition maybe_schedule_restart ::
  "'w kernel \<Rightarrow> unit_id \<Rightarrow> bool \<Rightarrow> bool \<Rightarrow> supervisor \<times> 'w \<Rightarrow> (supervisor \<times> 'w) option" where
  "maybe_schedule_restart k i exited_clean signaled sw = (case sw of (s, w) \<Rightarrow> do {
     u \<leftarrow> get_unit (registry s) i;
     case service_of (lu_file u) of
       None \<Rightarrow> Some (s, w)
     | Some svc \<Rightarrow>
         if \<not> wants_restart (restart svc) exited_clean signaled then Some (s, w)
         else (case k_now k w of (now, w1) \<Rightarrow> do {
           m \<leftarrow> unit_meta_of s i;
           let gate = restart_gate (start_limit_burst svc)
                        (duration_or (start_limit_interval_sec svc) 10) now (restart_history m);
           s1 \<leftarrow> update_meta i (\<lambda>m. m\<lparr>restart_history := fst gate\<rparr>) s;
           if \<not> snd gate then do { s2 \<leftarrow> set_state i UnitFailed s1; Some (s2, w1) }
           else do {
             at \<leftarrow> instant_add now (duration_or (restart_sec svc) 5);
             Some (s1\<lparr>pending_restarts := pending_restarts s1 @ [\<lparr>pr_unit = i, fire_at = at\<rparr>]\<rparr>, w1) } }) })"

definition reap_cgroup :: "'w kernel \<Rightarrow> unit_id \<Rightarrow> supervisor \<times> 'w \<Rightarrow> (supervisor \<times> 'w) option" where
  "reap_cgroup k i sw = (case sw of (s, w) \<Rightarrow>
     if fake s then Some (s, w)
     else do {
       name \<leftarrow> name_of (registry s) i;
       Some (s, snd (remove_cgroup k (''wo.slice/'' @ name) w)) })"

definition exit_state :: "bool \<Rightarrow> bool \<Rightarrow> unit_active_state" where
  "exit_state stopping exited_clean =
     (if stopping then Inactive else if exited_clean then Inactive else UnitFailed)"

definition on_child_exit ::
  "'w kernel \<Rightarrow> int \<Rightarrow> u32 \<Rightarrow> supervisor \<times> 'w \<Rightarrow> (supervisor \<times> 'w) option" where
  "on_child_exit k pid status sw = (case sw of (s, w) \<Rightarrow>
     case by_pid s pid of
       None \<Rightarrow> Some (s, w)
     | Some i \<Rightarrow> do {
         s1 \<leftarrow> set_pid i None (s\<lparr>by_pid := (by_pid s)(pid := None)\<rparr>);
         let exited_clean = (wifexited status \<and> wexitstatus status = 0);
         s2 \<leftarrow> set_state i (exit_state (shutting_down s) exited_clean) s1;
         (s3, w3) \<leftarrow> (if shutting_down s then Some (s2, w)
                     else maybe_schedule_restart k i exited_clean (wifsignaled status) (s2, w));
         if \<not> shutting_down s3 \<and> \<not> (\<exists>r \<in> set (pending_restarts s3). pr_unit r = i)
         then reap_cgroup k i (s3, w3)
         else Some (s3, w3) })"

definition next_restart_deadline :: "supervisor \<Rightarrow> nat option" where
  "next_restart_deadline s =
     (if pending_restarts s = [] then None else Some (Min (set (map fire_at (pending_restarts s)))))"

definition fire_due_restarts :: "'w kernel \<Rightarrow> supervisor \<times> 'w \<Rightarrow> (supervisor \<times> 'w) option" where
  "fire_due_restarts k sw = (case sw of (s, w) \<Rightarrow>
     (case k_now k w of (now, w1) \<Rightarrow>
        let due = map pr_unit (filter (\<lambda>r. fire_at r \<le> now) (pending_restarts s));
            s1 = s\<lparr>pending_restarts := filter (\<lambda>r. \<not> fire_at r \<le> now) (pending_restarts s)\<rparr>
        in fold_opt (start_unit_internal k) due (s1, w1)))"

section \<open>Stopping\<close>

text \<open>Everything waitpid reports right now, as \<open>stop_unit\<close> and the event loop's reap drain it.\<close>

partial_function (option) drain_exits ::
  "'w kernel \<Rightarrow> int list \<Rightarrow> supervisor \<times> 'w \<Rightarrow> (int list \<times> supervisor \<times> 'w) option" where
  "drain_exits k expected sw =
     (case k_waitpid k (-1) True (snd sw) of ((pid, status), w1) \<Rightarrow>
        if pid \<le> 0 then Some (expected, fst sw, w1)
        else (case on_child_exit k pid status (fst sw, w1) of
                None \<Rightarrow> None
              | Some sw' \<Rightarrow> drain_exits k (removeAll pid expected) sw'))"

declare drain_exits.simps [code]

text \<open>The wait for the processes that were signalled; after the grace they are killed, once.\<close>

partial_function (option) await_stopped ::
  "'w kernel \<Rightarrow> nat \<Rightarrow> duration \<Rightarrow> bool \<Rightarrow> int list \<Rightarrow> supervisor \<times> 'w \<Rightarrow> (supervisor \<times> 'w) option" where
  "await_stopped k start grace escalated expected sw =
     (if expected = [] then Some sw
      else (case (if escalated then (False, snd sw)
                  else case k_now k (snd sw) of (now, w1) \<Rightarrow> (grace < now - start, w1)) of
        (escalate, w1) \<Rightarrow>
          (case drain_exits k expected
                  (fst sw, if escalate then fold (\<lambda>pid. k_kill k pid SIGKILL) expected w1 else w1) of
             None \<Rightarrow> None
           | Some (expected', s2, w2) \<Rightarrow>
               await_stopped k start grace (escalated \<or> escalate) expected'
                 (s2, if expected' \<noteq> [] then k_sleep k (50 * 1000000) w2 else w2))))"

declare await_stopped.simps [code]

definition stop_grace :: "registry \<Rightarrow> unit_id list \<Rightarrow> duration option" where
  "stop_grace reg plan =
     map_option (\<lambda>us.
       let ds = List.map_filter (\<lambda>svc. parse_duration (timeout_stop_sec svc))
                  (List.map_filter (\<lambda>u. service_of (lu_file u)) us)
       in if ds = [] then from_secs 10 else Max (set ds))
       (those (map (get_unit reg) plan))"

text \<open>One unit of the plan: its pending restarts are dropped and its process is signalled.\<close>

definition signal_stop ::
  "'w kernel \<Rightarrow> unit_id \<Rightarrow> int list \<times> supervisor \<times> 'w \<Rightarrow> (int list \<times> supervisor \<times> 'w) option" where
  "signal_stop k i st = (case st of (expected, s, w) \<Rightarrow> do {
     let s1 = s\<lparr>pending_restarts := filter (\<lambda>r. pr_unit r \<noteq> i) (pending_restarts s)\<rparr>;
     m \<leftarrow> unit_meta_of s1 i;
     case um_pid m of
       Some pid \<Rightarrow> do {
         s2 \<leftarrow> set_state i Deactivating s1;
         Some (if pid \<in> set expected then expected else expected @ [pid], s2, k_kill k pid SIGTERM w) }
     | None \<Rightarrow> do { s2 \<leftarrow> set_state i Inactive s1; Some (expected, s2, w) } })"

definition stop_unit ::
  "'w kernel \<Rightarrow> hash_order \<Rightarrow> string \<Rightarrow> supervisor \<times> 'w \<Rightarrow> ((transaction_error + unit) \<times> supervisor \<times> 'w) option" where
  "stop_unit k hord anchor sw = (case sw of (s, w) \<Rightarrow> do {
     plan \<leftarrow> build_stop_transaction hord (registry s) anchor;
     case plan of
       Inl e \<Rightarrow> Some (Inl e, s, w)
     | Inr plan \<Rightarrow> do {
         grace \<leftarrow> stop_grace (registry s) plan;
         (expected, s1, w1) \<leftarrow> fold_opt (signal_stop k) plan ([], s\<lparr>shutting_down := True\<rparr>, w);
         let (start, w2) = k_now k w1;
         sw3 \<leftarrow> await_stopped k start grace False expected (s1, w2);
         (s4, w4) \<leftarrow> fold_opt (reap_cgroup k) plan sw3;
         Some (Inr (), s4\<lparr>shutting_down := shutting_down s\<rparr>, w4) } })"

definition start_job_named :: "'w kernel \<Rightarrow> job \<Rightarrow> supervisor \<times> 'w \<Rightarrow> (supervisor \<times> 'w) option" where
  "start_job_named k j sw = do {
     m \<leftarrow> unit_meta_of (fst sw) (job_unit j);
     if um_state m = Active then Some sw else start_unit_internal k (job_unit j) sw }"

definition start_named ::
  "'w kernel \<Rightarrow> hash_order \<Rightarrow> string \<Rightarrow> supervisor \<times> 'w \<Rightarrow> ((transaction_error + unit) \<times> supervisor \<times> 'w) option" where
  "start_named k hord name sw = do {
     plan \<leftarrow> build_transaction hord (registry (fst sw)) name;
     case plan of
       Inl e \<Rightarrow> Some (Inl e, sw)
     | Inr jobs \<Rightarrow> do { sw' \<leftarrow> fold_opt (start_job_named k) jobs sw; Some (Inr (), sw') } }"

section \<open>Shutting down\<close>

definition initiate_shutdown :: "'w kernel \<Rightarrow> supervisor \<times> 'w \<Rightarrow> supervisor \<times> 'w" where
  "initiate_shutdown k sw = (case sw of (s, w) \<Rightarrow>
     if shutting_down s then (s, w)
     else (s\<lparr>shutting_down := True, pending_restarts := []\<rparr>,
           fold (\<lambda>p. k_kill k p SIGTERM) (List.map_filter um_pid (metas s)) w))"

definition all_units_quiet :: "supervisor \<Rightarrow> bool" where
  "all_units_quiet s = list_all (\<lambda>m. um_pid m = None) (metas s)"

section \<open>The invariant\<close>

text \<open>
  Metadata and registry are indexed alike; ids in the maps and queues are in range; a unit's
  process id leads back to the unit; no history is longer than the unit's burst. A tracked
  process is an unreaped child.
\<close>

definition meta_ok :: "registry \<Rightarrow> (int \<rightharpoonup> unit_id) \<Rightarrow> unit_id \<Rightarrow> unit_meta \<Rightarrow> bool" where
  "meta_ok reg pids i m \<longleftrightarrow>
     um_id m = i
     \<and> (\<forall>p. um_pid m = Some p \<longrightarrow> pids p = Some i)
     \<and> (\<forall>svc. service_of (lu_file (units reg ! i)) = Some svc \<longrightarrow> 0 < start_limit_burst svc
          \<longrightarrow> length (restart_history m) \<le> unat (start_limit_burst svc))"

definition sup_ok :: "supervisor \<Rightarrow> bool" where
  "sup_ok s \<longleftrightarrow>
     reg_ok (registry s) \<and> length (metas s) = length (units (registry s))
     \<and> ran (by_pid s) \<subseteq> {..<length (units (registry s))}
     \<and> pr_unit ` set (pending_restarts s) \<subseteq> {..<length (units (registry s))}
     \<and> (\<forall>i < length (units (registry s)). meta_ok (registry s) (by_pid s) i (metas s ! i))"

definition sup_inv :: "('w \<Rightarrow> int set) \<Rightarrow> supervisor \<times> 'w \<Rightarrow> bool" where
  "sup_inv ch sw \<longleftrightarrow> sup_ok (fst sw) \<and> dom (by_pid (fst sw)) \<subseteq> ch (snd sw)"

lemma sup_ok_new: "reg_ok reg \<Longrightarrow> sup_ok (new_supervisor reg fk)"
  by (simp add: sup_ok_def meta_ok_def new_supervisor_def registry_len_def)

lemma update_meta_Some:
  "update_meta i f s = Some s' \<longleftrightarrow>
     i < length (metas s) \<and> s' = s\<lparr>metas := (metas s)[i := f (metas s ! i)]\<rparr>"
  by (auto simp: update_meta_def)

lemma set_state_Some:
  "set_state i st s = Some s' \<longleftrightarrow>
     i < length (metas s) \<and> s' = s\<lparr>metas := (metas s)[i := (metas s ! i)\<lparr>um_state := st\<rparr>]\<rparr>"
  by (simp add: set_state_def update_meta_Some)

lemma set_pid_Some:
  "set_pid i p s = Some s' \<longleftrightarrow>
     i < length (metas s) \<and> s' = s\<lparr>metas := (metas s)[i := (metas s ! i)\<lparr>um_pid := p\<rparr>]\<rparr>"
  by (simp add: set_pid_def update_meta_Some)

lemmas meta_updates = update_meta_Some set_state_Some set_pid_Some

lemma sup_ok_update:
  assumes "sup_ok s" "i < length (metas s)" "meta_ok (registry s) (by_pid s) i m"
  shows "sup_ok (s\<lparr>metas := (metas s)[i := m]\<rparr>)"
  using assms by (simp add: sup_ok_def nth_list_update)

lemma sup_ok_set_state:
  assumes "sup_ok s" "set_state i st s = Some s'"
  shows "sup_ok s' \<and> by_pid s' = by_pid s"
proof -
  from assms(2) have i: "i < length (metas s)"
    "s' = s\<lparr>metas := (metas s)[i := (metas s ! i)\<lparr>um_state := st\<rparr>]\<rparr>" by (simp_all add: set_state_Some)
  moreover have "meta_ok (registry s) (by_pid s) i ((metas s ! i)\<lparr>um_state := st\<rparr>)"
    using assms(1) i(1) by (simp add: sup_ok_def meta_ok_def)
  ultimately show ?thesis using sup_ok_update[OF assms(1)] by simp
qed

lemma meta_ok_track:
  "meta_ok reg pids j m \<Longrightarrow> pids pid = None \<Longrightarrow> meta_ok reg (pids(pid \<mapsto> i)) j m"
  by (simp add: meta_ok_def) (metis option.distinct(1))

lemma sup_ok_track:
  assumes "sup_ok s" "set_pid i (Some pid) s = Some s'" "by_pid s pid = None"
  shows "sup_ok (s'\<lparr>by_pid := (by_pid s')(pid \<mapsto> i)\<rparr>) \<and> by_pid s' = by_pid s"
proof -
  from assms(2) have i: "i < length (metas s)"
    "s' = s\<lparr>metas := (metas s)[i := (metas s ! i)\<lparr>um_pid := Some pid\<rparr>]\<rparr>" by (simp_all add: set_pid_Some)
  let ?b = "(by_pid s)(pid \<mapsto> i)"
  have "\<forall>j < length (units (registry s)). meta_ok (registry s) ?b j (metas s ! j)"
    using assms(1,3) meta_ok_track by (simp add: sup_ok_def)
  moreover have "meta_ok (registry s) ?b i ((metas s ! i)\<lparr>um_pid := Some pid\<rparr>)"
    using assms(1) i(1) by (simp add: sup_ok_def meta_ok_def)
  moreover have "ran ?b \<subseteq> {..<length (units (registry s))}"
    using assms(1,3) i(1) by (simp add: sup_ok_def)
  ultimately show ?thesis using assms(1) i by (simp add: sup_ok_def nth_list_update)
qed

lemma ran_untrack: "ran m \<subseteq> A \<Longrightarrow> ran (m(p := None)) \<subseteq> A"
  by (auto simp: ran_def)

lemma sup_ok_untrack:
  assumes "sup_ok s" "set_pid i None (s\<lparr>by_pid := (by_pid s)(pid := None)\<rparr>) = Some s'"
    and "by_pid s pid = Some i"
  shows "sup_ok s' \<and> by_pid s' = (by_pid s)(pid := None)"
proof -
  from assms(2) have i: "i < length (metas s)"
    "s' = s\<lparr>by_pid := (by_pid s)(pid := None), metas := (metas s)[i := (metas s ! i)\<lparr>um_pid := None\<rparr>]\<rparr>"
    by (simp_all add: set_pid_Some)
  let ?b = "(by_pid s)(pid := None)"
  have "meta_ok (registry s) ?b j (metas s ! j)" if "j < length (units (registry s))" "j \<noteq> i" for j
    using assms(1,3) that by (auto simp: sup_ok_def meta_ok_def)
  moreover have "meta_ok (registry s) ?b i ((metas s ! i)\<lparr>um_pid := None\<rparr>)"
    using assms(1) i(1) by (simp add: sup_ok_def meta_ok_def)
  ultimately show ?thesis
    using assms(1) i by (simp add: sup_ok_def nth_list_update ran_untrack)
qed

section \<open>Operations keep the invariant\<close>

lemma poll_oneshot_children:
  assumes "poll_oneshot k pid deadline w = Some r" "kernel_ok k ch" "0 < pid"
  shows "ch w - {pid} \<subseteq> ch (snd r)"
  using assms
proof (induction rule: poll_oneshot.raw_induct[rotated, consumes 1, case_names step])
  case (step poll k pid deadline w r)
  obtain rc status w1 where w1: "k_waitpid k pid True w = ((rc, status), w1)"
    by (metis surj_pair)
  from kernel_waitpid[OF step(3) w1] step(4) have ch1: "ch w - {pid} \<subseteq> ch w1"
    by (cases "0 < rc") auto
  obtain now w2 where w2: "k_now k w1 = (now, w2)" by fastforce
  have ch2: "ch w2 = ch w1" by (rule kernel_step(1)[OF step(3) w2])
  obtain rc' status' w3 where w3:
    "k_waitpid k pid False (k_kill k pid SIGKILL w2) = ((rc', status'), w3)"
    by (metis surj_pair)
  from kernel_waitpid[OF step(3) w3] step(4) have ch3: "ch w2 - {pid} \<subseteq> ch w3"
    by (cases "0 < rc'") (auto simp: frame_simps[OF step(3)])
  consider "snd r = w1" | "snd r = w3"
    | "poll k pid deadline (k_sleep k (20 * 1000000) w2) = Some r"
    using step(2) w1 w2 w3 by (auto split: if_splits)
  then show ?case
  proof cases
    case 3
    from step(1)[OF 3 step(3,4)] ch1 ch2 show ?thesis by (auto simp: frame_simps[OF step(3)])
  qed (use ch1 ch2 ch3 in auto)
qed

lemma wait_oneshot_children:
  assumes "kernel_ok k ch" "0 < pid" "wait_oneshot k pid timeout w = Some (outcome, w')"
  shows "ch w - {pid} \<subseteq> ch w'"
proof -
  obtain now w1 where n: "k_now k w = (now, w1)" by fastforce
  with assms(3) obtain d where "poll_oneshot k pid d w1 = Some (outcome, w')"
    by (auto simp: wait_oneshot_def bind_eq_Some_conv)
  from poll_oneshot_children[OF this assms(1,2)] kernel_step(1)[OF assms(1) n] show ?thesis by simp
qed

lemma service_started_inv:
  assumes k: "kernel_ok k ch" and s: "sup_ok s" "by_pid s pid = None" "0 < pid"
    and dom: "dom (by_pid s) \<subseteq> ch w - {pid}" and pid: "pid \<in> ch w"
    and run: "service_started k i svc pid s w = Some (s', w')"
  shows "sup_inv ch (s', w')"
proof -
  from run obtain s1 where s1: "set_pid i (Some pid) s = Some s1"
    by (auto simp: service_started_def bind_eq_Some_conv)
  define s2 where "s2 = s1\<lparr>by_pid := (by_pid s1)(pid \<mapsto> i)\<rparr>"
  from sup_ok_track[OF s(1) s1 s(2)] have s2: "sup_ok s2" "by_pid s2 = (by_pid s)(pid \<mapsto> i)"
    by (auto simp: s2_def)
  show ?thesis
  proof (cases "kind svc = Oneshot")
    case False
    with run s1 have "set_state i Active s2 = Some s'" "w' = w"
      by (auto simp: service_started_def s2_def bind_eq_Some_conv)
    with sup_ok_set_state[OF s2(1)] s2(2) dom pid show ?thesis by (auto simp: sup_inv_def)
  next
    case True
    with run s1 obtain outcome s3 s4 where t:
      "wait_oneshot k pid (duration_or (timeout_start_sec svc) 30) w = Some (outcome, w')"
      "set_state i (oneshot_state svc outcome) s2 = Some s3" "set_pid i None s3 = Some s4"
      "s' = s4\<lparr>by_pid := (by_pid s4)(pid := None)\<rparr>"
      by (auto simp: service_started_def s2_def bind_eq_Some_conv)
    from sup_ok_set_state[OF s2(1) t(2)] s2(2) have s3: "sup_ok s3" "by_pid s3 = (by_pid s)(pid \<mapsto> i)"
      by auto
    have swap: "set_pid i None (s3\<lparr>by_pid := (by_pid s3)(pid := None)\<rparr>) = Some s'"
      using t(3,4) by (auto simp: set_pid_Some)
    from sup_ok_untrack[OF s3(1) swap] s3(2)
    have "sup_ok s'" "by_pid s' = (by_pid s)(pid := None)" by simp_all
    moreover have "ch w - {pid} \<subseteq> ch w'" by (rule wait_oneshot_children[OF k s(3) t(1)])
    ultimately show ?thesis using dom by (auto simp: sup_inv_def)
  qed
qed

lemma start_service_inv:
  assumes k: "kernel_ok k ch" and s: "sup_ok s" "dom (by_pid s) \<subseteq> ch w"
    and run: "start_service k i name svc s w = Some sw'"
  shows "sup_inv ch sw'"
proof -
  obtain r w1 where sp:
    "spawn k \<lparr>rq_name = name, rq_service = svc, rq_fake = fake s, rq_log_dir = log_dir s\<rparr> w = (r, w1)"
    by fastforce
  with run obtain s1 where s1: "set_state i Activating s = Some s1"
    by (auto simp: start_service_def bind_eq_Some_conv)
  from sup_ok_set_state[OF s(1) s1] have s1': "sup_ok s1" "by_pid s1 = by_pid s" by auto
  have f: "forked ch w (r, w1)" using spawn_forked[OF k, of w] sp by metis
  show ?thesis
  proof (cases r)
    case (Inl e)
    with run sp s1 have "set_state i UnitFailed s1 = Some (fst sw')" "snd sw' = w1"
      by (auto simp: start_service_def bind_eq_Some_conv)
    with Inl f sup_ok_set_state[OF s1'(1)] s1'(2) s(2) show ?thesis
      by (auto simp: sup_inv_def forked_def)
  next
    case (Inr pid)
    with f have p: "0 < pid" "pid \<notin> ch w" "ch w1 = insert pid (ch w)" by (auto simp: forked_def)
    have "service_started k i svc pid s1 w1 = Some (fst sw', snd sw')"
      using run sp s1 Inr by (simp add: start_service_def)
    moreover have "by_pid s1 pid = None" "dom (by_pid s1) \<subseteq> ch w1 - {pid}" "pid \<in> ch w1"
      using p s(2) s1'(2) by auto
    ultimately have "sup_inv ch (fst sw', snd sw')"
      using service_started_inv[OF k s1'(1) _ p(1)] by blast
    then show ?thesis by simp
  qed
qed

lemma start_unit_internal_cases:
  assumes "start_unit_internal k i (s, w) = Some sw'"
  obtains (state) st where "set_state i st s = Some (fst sw')" "snd sw' = w"
  | (service) u svc where "get_unit (registry s) i = Some u" "service_of (lu_file u) = Some svc"
      "start_service k i (lu_name u) svc s w = Some sw'"
proof -
  from assms obtain deps failed where fd: "hard_requirement_targets (registry s) i = Some deps"
    "find_failed s deps = Some failed"
    by (auto simp: start_unit_internal_def bind_eq_Some_conv)
  show thesis
  proof (cases failed)
    case (Some d)
    with assms fd show thesis
      by (intro state[of UnitFailed]) (auto simp: start_unit_internal_def bind_eq_Some_conv)
  next
    case None
    with assms fd obtain u where u: "get_unit (registry s) i = Some u"
      by (auto simp: start_unit_internal_def bind_eq_Some_conv)
    show thesis
    proof (cases "service_of (lu_file u)")
      case (Some svc)
      with assms fd u None show thesis
        by (intro service[of u svc]) (auto simp: start_unit_internal_def)
    next
      case no: None
      with assms fd u None show thesis
        by (intro state[of Active]) (auto simp: start_unit_internal_def bind_eq_Some_conv)
    qed
  qed
qed

lemma start_unit_internal_inv [inv_intros]:
  assumes k: "kernel_ok k ch" and inv: "sup_inv ch sw"
    and run: "start_unit_internal k i sw = Some sw'"
  shows "sup_inv ch sw'"
proof -
  obtain s w where sw: "sw = (s, w)" by fastforce
  from inv sw have s: "sup_ok s" "dom (by_pid s) \<subseteq> ch w" by (auto simp: sup_inv_def)
  from run[unfolded sw] show ?thesis
  proof (cases rule: start_unit_internal_cases)
    case (state st)
    with sup_ok_set_state[OF s(1) state(1)] s(2) show ?thesis by (auto simp: sup_inv_def)
  next
    case (service u svc)
    from start_service_inv[OF k s service(3)] show ?thesis .
  qed
qed

lemma restart_gate_burst:
  "0 < burst \<Longrightarrow> length history \<le> unat burst
     \<Longrightarrow> length (fst (restart_gate burst interval now history)) \<le> unat burst"
  using order_trans[OF length_filter_le[of "\<lambda>t. now - t \<le> interval" history]]
  by (auto simp: restart_gate_def Let_def)

lemma maybe_schedule_restart_inv [inv_intros]:
  assumes k: "kernel_ok k ch" and inv: "sup_inv ch sw"
    and run: "maybe_schedule_restart k i clean sig sw = Some sw'"
  shows "sup_inv ch sw'"
proof -
  obtain s w where sw: "sw = (s, w)" by fastforce
  from inv sw have s: "sup_ok s" "dom (by_pid s) \<subseteq> ch w" by (auto simp: sup_inv_def)
  from run sw obtain u where u: "get_unit (registry s) i = Some u"
    by (auto simp: maybe_schedule_restart_def bind_eq_Some_conv)
  show ?thesis
  proof (cases "\<exists>svc. service_of (lu_file u) = Some svc \<and> wants_restart (restart svc) clean sig")
    case False
    with run sw u inv show ?thesis
      by (auto simp: maybe_schedule_restart_def split: option.splits if_splits)
  next
    case True
    then obtain svc where svc: "service_of (lu_file u) = Some svc" "wants_restart (restart svc) clean sig"
      by auto
    obtain now w1 where n: "k_now k w = (now, w1)" by fastforce
    define gate where "gate = restart_gate (start_limit_burst svc)
      (duration_or (start_limit_interval_sec svc) 10) now (restart_history (metas s ! i))"
    define s1 where "s1 = s\<lparr>metas := (metas s)[i := (metas s ! i)\<lparr>restart_history := fst gate\<rparr>]\<rparr>"
    from run sw u svc n have i: "i < length (metas s)"
      and res: "(if \<not> snd gate then do { s2 \<leftarrow> set_state i UnitFailed s1; Some (s2, w1) }
           else do {
             at \<leftarrow> instant_add now (duration_or (restart_sec svc) 5);
             Some (s1\<lparr>pending_restarts := pending_restarts s1 @ [\<lparr>pr_unit = i, fire_at = at\<rparr>]\<rparr>, w1) })
        = Some sw'"
      by (auto simp: maybe_schedule_restart_def bind_eq_Some_conv unit_meta_of_def nth_opt_eq_Some
          update_meta_Some gate_def s1_def Let_def)
    have m: "meta_ok (registry s) (by_pid s) i (metas s ! i)" using s(1) i by (simp add: sup_ok_def)
    have "units (registry s) ! i = u" using u by (simp add: get_unit_def nth_opt_eq_Some)
    then have "meta_ok (registry s) (by_pid s) i ((metas s ! i)\<lparr>restart_history := fst gate\<rparr>)"
      using m svc(1) restart_gate_burst by (simp add: meta_ok_def gate_def)
    then have s1: "sup_ok s1" "by_pid s1 = by_pid s"
      using sup_ok_update[OF s(1) i] by (simp_all add: s1_def)
    have w1: "ch w1 = ch w" by (rule kernel_step(1)[OF k n])
    show ?thesis
    proof (cases "snd gate")
      case False
      with res have "set_state i UnitFailed s1 = Some (fst sw')" "snd sw' = w1"
        by (auto simp: bind_eq_Some_conv)
      with sup_ok_set_state[OF s1(1)] s1(2) s(2) w1 show ?thesis by (auto simp: sup_inv_def)
    next
      case True
      with res obtain at where
        "sw' = (s1\<lparr>pending_restarts := pending_restarts s1 @ [\<lparr>pr_unit = i, fire_at = at\<rparr>]\<rparr>, w1)"
        by (auto simp: bind_eq_Some_conv)
      moreover have "i < length (units (registry s))" using i s(1) by (simp add: sup_ok_def)
      then have "sup_ok (s1\<lparr>pending_restarts := pending_restarts s1 @ [\<lparr>pr_unit = i, fire_at = at\<rparr>]\<rparr>)"
        using s1(1) by (simp add: sup_ok_def s1_def)
      ultimately show ?thesis using s1 s(2) w1 by (simp add: sup_inv_def)
    qed
  qed
qed

lemma reap_cgroup_Some:
  "reap_cgroup k i (s, w) = Some sw' \<Longrightarrow>
     fst sw' = s \<and> (snd sw' = w \<or> (\<exists>name. snd sw' = snd (remove_cgroup k (''wo.slice/'' @ name) w)))"
  by (auto simp: reap_cgroup_def bind_eq_Some_conv split: if_splits)

lemma reap_cgroup_inv [inv_intros]:
  "kernel_ok k ch \<Longrightarrow> sup_inv ch sw \<Longrightarrow> reap_cgroup k i sw = Some sw' \<Longrightarrow> sup_inv ch sw'"
  using reap_cgroup_Some[of k i "fst sw" "snd sw" sw']
  by (auto simp: sup_inv_def remove_cgroup_children)

text \<open>An exit, by what it finds.\<close>

lemma on_child_exit_cases:
  assumes "on_child_exit k pid status (s, w) = Some sw'"
  obtains (untracked) "by_pid s pid = None" "sw' = (s, w)"
  | (tracked) i s1 s2 s3 w3 where "by_pid s pid = Some i"
      "set_pid i None (s\<lparr>by_pid := (by_pid s)(pid := None)\<rparr>) = Some s1"
      "set_state i (exit_state (shutting_down s) (wifexited status \<and> wexitstatus status = 0)) s1 = Some s2"
      "(if shutting_down s then Some (s2, w)
        else maybe_schedule_restart k i (wifexited status \<and> wexitstatus status = 0)
               (wifsignaled status) (s2, w)) = Some (s3, w3)"
      "if \<not> shutting_down s3 \<and> i \<notin> pr_unit ` set (pending_restarts s3)
       then reap_cgroup k i (s3, w3) = Some sw' else sw' = (s3, w3)"
proof (cases "by_pid s pid")
  case None
  with assms untracked show thesis by (simp add: on_child_exit_def)
next
  case (Some i)
  define clean where "clean = (wifexited status \<and> wexitstatus status = 0)"
  from assms Some obtain s1 s2 sw3 where t12:
    "set_pid i None (s\<lparr>by_pid := (by_pid s)(pid := None)\<rparr>) = Some s1"
    "set_state i (exit_state (shutting_down s) clean) s1 = Some s2"
    and t3: "(if shutting_down s then Some (s2, w)
      else maybe_schedule_restart k i clean (wifsignaled status) (s2, w)) = Some sw3"
    and last: "(case sw3 of (s3, w3) \<Rightarrow>
       if \<not> shutting_down s3 \<and> \<not> (\<exists>r \<in> set (pending_restarts s3). pr_unit r = i)
       then reap_cgroup k i (s3, w3) else Some (s3, w3)) = Some sw'"
    unfolding on_child_exit_def Let_def clean_def prod.case Some option.case bind_eq_Some_conv by blast
  obtain s3 w3 where sw3: "sw3 = (s3, w3)" by fastforce
  have "(\<exists>r \<in> set (pending_restarts s3). pr_unit r = i) \<longleftrightarrow> i \<in> pr_unit ` set (pending_restarts s3)"
    by auto
  with tracked[OF Some t12[unfolded clean_def], of s3 w3] t3 last sw3 show thesis
    by (auto simp: clean_def split: if_splits)
qed

text \<open>An exit is handled after waitpid has removed the process from the children.\<close>

lemma on_child_exit_inv [inv_intros]:
  assumes k: "kernel_ok k ch" and s: "sup_ok s" "dom (by_pid s) \<subseteq> insert pid (ch w)"
    and run: "on_child_exit k pid status (s, w) = Some sw'"
  shows "sup_inv ch sw'"
  using run
proof (cases rule: on_child_exit_cases)
  case untracked
  then have "pid \<notin> dom (by_pid s)" by auto
  then have "dom (by_pid s) \<subseteq> ch w" using s(2) by blast
  then show ?thesis using s(1) untracked(2) by (simp add: sup_inv_def)
next
  case (tracked i s1 s2 s3 w3)
  from sup_ok_untrack[OF s(1) tracked(2,1)] have s1: "sup_ok s1" "by_pid s1 = (by_pid s)(pid := None)" by auto
  with sup_ok_set_state[OF s1(1) tracked(3)] s(2) have inv2: "sup_inv ch (s2, w)" by (auto simp: sup_inv_def)
  have inv3: "sup_inv ch (s3, w3)"
  proof (cases "shutting_down s")
    case True
    with tracked(4) inv2 show ?thesis by simp
  next
    case False
    with tracked(4) have "maybe_schedule_restart k i (wifexited status \<and> wexitstatus status = 0)
        (wifsignaled status) (s2, w) = Some (s3, w3)" by simp
    with maybe_schedule_restart_inv[OF k inv2] show ?thesis by blast
  qed
  with tracked(5) reap_cgroup_inv[OF k inv3] show ?thesis by (auto split: if_splits)
qed

lemma drop_pending_inv:
  "sup_inv ch (s, w) \<Longrightarrow> sup_inv ch (s\<lparr>pending_restarts := filter P (pending_restarts s)\<rparr>, w)"
  by (auto simp: sup_inv_def sup_ok_def)

lemma fire_due_restarts_inv [inv_intros]:
  assumes k: "kernel_ok k ch" and inv: "sup_inv ch sw" and run: "fire_due_restarts k sw = Some sw'"
  shows "sup_inv ch sw'"
proof -
  obtain s w where sw: "sw = (s, w)" by fastforce
  obtain now w1 where n: "k_now k w = (now, w1)" by fastforce
  have w1: "ch w1 = ch w" by (rule kernel_step(1)[OF k n])
  have "sup_inv ch (s\<lparr>pending_restarts := filter (\<lambda>r. \<not> fire_at r \<le> now) (pending_restarts s)\<rparr>, w1)"
    using inv sw w1 drop_pending_inv[of ch s w1] by (simp add: sup_inv_def)
  from fold_opt_inv[where I = "sup_inv ch", OF _ this start_unit_internal_inv[OF k]] run sw n
  show ?thesis by (simp add: fire_due_restarts_def Let_def)
qed

lemma activate_plan_inv [inv_intros]:
  "kernel_ok k ch \<Longrightarrow> sup_inv ch sw \<Longrightarrow> activate_plan k js sw = Some sw' \<Longrightarrow> sup_inv ch sw'"
  by (induction k js sw rule: activate_plan.induct)
     (auto split: if_splits option.splits dest: start_unit_internal_inv)

section \<open>Stopping ends, with everything stopped\<close>

text \<open>
  While the stop runs: the units handled so far have no pending restart, and each either has
  no process and is inactive, or has a process the stop still waits for.
\<close>

definition stop_inv :: "unit_id set \<Rightarrow> int list \<Rightarrow> supervisor \<Rightarrow> bool" where
  "stop_inv D expected s \<longleftrightarrow>
     shutting_down s \<and> set expected \<subseteq> dom (by_pid s)
     \<and> (\<forall>i \<in> D. i < length (metas s) \<and> i \<notin> pr_unit ` set (pending_restarts s)
          \<and> (case um_pid (metas s ! i) of
                None \<Rightarrow> um_state (metas s ! i) = Inactive | Some p \<Rightarrow> p \<in> set expected))"

text \<open>During a planned stop an exit only clears the unit's process.\<close>

lemma on_child_exit_stopping:
  assumes "shutting_down s" "by_pid s pid = Some i" "i < length (metas s)"
  shows "on_child_exit k pid status (s, w) = Some
    (s\<lparr>by_pid := (by_pid s)(pid := None),
       metas := (metas s)[i := (metas s ! i)\<lparr>um_pid := None, um_state := Inactive\<rparr>]\<rparr>, w)"
  using assms
  by (simp add: on_child_exit_def set_pid_def set_state_def update_meta_def exit_state_def Let_def)

lemma stop_inv_exit:
  assumes s: "sup_ok s" and inv: "stop_inv D expected s"
  shows "\<exists>s'. on_child_exit k pid status (s, w) = Some (s', w)
    \<and> stop_inv D (removeAll pid expected) s'
    \<and> registry s' = registry s \<and> length (metas s') = length (metas s)"
proof (cases "by_pid s pid")
  case None
  then have "removeAll pid expected = expected"
    using inv by (auto simp: stop_inv_def removeAll_filter_not_eq intro!: filter_True)
  then show ?thesis using None inv by (simp add: on_child_exit_def)
next
  case (Some i)
  then have i: "i < length (metas s)" using s by (auto simp: sup_ok_def ran_def)
  define s' where "s' = s\<lparr>by_pid := (by_pid s)(pid := None),
       metas := (metas s)[i := (metas s ! i)\<lparr>um_pid := None, um_state := Inactive\<rparr>]\<rparr>"
  have "on_child_exit k pid status (s, w) = Some (s', w)"
    using on_child_exit_stopping[OF _ Some i] inv by (simp add: stop_inv_def s'_def)
  moreover have "case um_pid (metas s' ! j) of None \<Rightarrow> um_state (metas s' ! j) = Inactive
      | Some p \<Rightarrow> p \<in> set (removeAll pid expected)" if j: "j \<in> D" for j
  proof (cases "j = i")
    case True
    with i show ?thesis by (simp add: s'_def)
  next
    case False
    have "j < length (units (registry s))" using inv j s by (simp add: stop_inv_def sup_ok_def)
    then have "meta_ok (registry s) (by_pid s) j (metas s ! j)" using s by (simp add: sup_ok_def)
    then have "um_pid (metas s ! j) \<noteq> Some pid" using False Some by (auto simp: meta_ok_def)
    then show ?thesis
      using inv j False by (auto simp: stop_inv_def s'_def split: option.splits)
  qed
  moreover have f: "shutting_down s' = shutting_down s" "by_pid s' = (by_pid s)(pid := None)"
    "pending_restarts s' = pending_restarts s" "length (metas s') = length (metas s)" "registry s' = registry s"
    by (simp_all add: s'_def)
  ultimately have "stop_inv D (removeAll pid expected) s'"
    using inv unfolding stop_inv_def f by auto
  with \<open>on_child_exit k pid status (s, w) = Some (s', w)\<close> f show ?thesis by blast
qed

lemma drain_exits_step:
  "k_waitpid k (-1) True w = ((pid, status), w1) \<Longrightarrow>
     drain_exits k expected (s, w) =
       (if pid \<le> 0 then Some (expected, s, w1)
        else (case on_child_exit k pid status (s, w1) of
                None \<Rightarrow> None
              | Some sw' \<Rightarrow> drain_exits k (removeAll pid expected) sw'))"
  by (subst drain_exits.simps) simp

lemma drain_exits_stopping:
  assumes k: "kernel_ok k ch" "mortal k ch P fate"
    and inv: "sup_inv ch (s, w)" "stop_inv D expected s"
  shows "\<exists>expected' s' w'. drain_exits k expected (s, w) = Some (expected', s', w')
    \<and> sup_inv ch (s', w') \<and> stop_inv D expected' s' \<and> set expected' \<subseteq> set expected
    \<and> registry s' = registry s \<and> length (metas s') = length (metas s)
    \<and> fate w' \<le> fate w \<and> (fate w = 0 \<longrightarrow> P \<inter> set expected' = {})"
  using inv
proof (induction "card (ch w)" arbitrary: s w expected rule: less_induct)
  case less
  obtain pid status w1 where w1: "k_waitpid k (-1) True w = ((pid, status), w1)"
    by (metis surj_pair)
  have fate1: "fate w1 \<le> fate w" by (rule mortal_laws(2)[OF k(2) w1])
  have s: "sup_ok s" "dom (by_pid s) \<subseteq> ch w" using less.prems(1) by (auto simp: sup_inv_def)
  show ?case
  proof (cases "0 < pid")
    case False
    have "set expected \<subseteq> ch w" using s(2) less.prems(2) by (auto simp: stop_inv_def)
    then have "P \<inter> set expected = {}" if "fate w = 0"
      using mortal_laws(5)[OF k(2) w1 that] False by auto
    moreover have "ch w1 = ch w" using kernel_waitpid(2)[OF k(1) w1] False by simp
    ultimately show ?thesis
      using False less.prems fate1 drain_exits_step[OF w1] by (auto simp: sup_inv_def)
  next
    case True
    with kernel_waitpid(1)[OF k(1) w1] have p: "pid \<in> ch w" "ch w1 = ch w - {pid}" by auto
    from stop_inv_exit[where k = k and pid = pid and status = status and w = w1, OF s(1) less.prems(2)] obtain s' where s':
      "on_child_exit k pid status (s, w1) = Some (s', w1)" "stop_inv D (removeAll pid expected) s'"
      "registry s' = registry s" "length (metas s') = length (metas s)" by blast
    have "dom (by_pid s) \<subseteq> insert pid (ch w1)" using s(2) p by auto
    from on_child_exit_inv[OF k(1) s(1) this s'(1)] have inv': "sup_inv ch (s', w1)" .
    have "card (ch w1) < card (ch w)"
      unfolding p(2) by (rule card_Diff1_less[OF kernel_finite[OF k(1)] p(1)])
    from less.hyps[OF this inv' s'(2)] obtain e s2 w2 where r:
      "drain_exits k (removeAll pid expected) (s', w1) = Some (e, s2, w2)"
      "sup_inv ch (s2, w2)" "stop_inv D e s2" "set e \<subseteq> set (removeAll pid expected)"
      "registry s2 = registry s'" "length (metas s2) = length (metas s')"
      "fate w2 \<le> fate w1" "fate w1 = 0 \<longrightarrow> P \<inter> set e = {}"
      by (elim exE conjE) (rule that)
    have "drain_exits k expected (s, w) = Some (e, s2, w2)"
      using drain_exits_step[OF w1] True s'(1) r(1) by simp
    then show ?thesis using r s' fate1 by auto
  qed
qed

lemma fold_kill:
  assumes "kernel_ok k ch" "mortal k ch P fate"
  shows "ch (fold (\<lambda>p. k_kill k p sig) ps w) = ch w \<and> fate (fold (\<lambda>p. k_kill k p sig) ps w) \<le> fate w"
proof (induction ps arbitrary: w)
  case (Cons p ps)
  from Cons.IH[of "k_kill k p sig w"] mortal_laws(3)[OF assms(2), of p sig w] show ?case
    by (simp add: frame_simps[OF assms(1)])
qed simp

lemma await_stopped_step:
  assumes "expected \<noteq> []"
    and "(if escalated then (False, w)
          else case k_now k w of (now, w1) \<Rightarrow> (grace < now - start, w1)) = (escalate, w1)"
    and "drain_exits k expected
           (s, if escalate then fold (\<lambda>pid. k_kill k pid SIGKILL) expected w1 else w1) = Some (e', s3, w3)"
  shows "await_stopped k start grace escalated expected (s, w) =
    await_stopped k start grace (escalated \<or> escalate) e'
      (s3, if e' \<noteq> [] then k_sleep k (50 * 1000000) w3 else w3)"
  by (subst await_stopped.simps) (simp only: assms fst_conv snd_conv prod.case option.case if_False)

lemma await_stopped_stopping:
  assumes k: "kernel_ok k ch" "mortal k ch P fate"
    and inv: "sup_inv ch (s, w)" "stop_inv D expected s" "set expected \<subseteq> P"
  shows "\<exists>s' w'. await_stopped k start grace escalated expected (s, w) = Some (s', w')
    \<and> sup_inv ch (s', w') \<and> stop_inv D [] s'
    \<and> registry s' = registry s \<and> length (metas s') = length (metas s)"
  using inv
proof (induction "fate w" arbitrary: s w expected escalated rule: less_induct)
  case less
  show ?case
  proof (cases "expected = []")
    case True
    then show ?thesis using less.prems by (simp add: await_stopped.simps)
  next
    case False
    obtain escalate w1 where e: "(if escalated then (False, w)
        else case k_now k w of (now, w1) \<Rightarrow> (grace < now - start, w1)) = (escalate, w1)"
      by fastforce
    have w1: "ch w1 = ch w" "fate w1 \<le> fate w"
      using e kernel_step(1)[OF k(1), of w] mortal_laws(4)[OF k(2), of w]
      by (auto split: if_splits prod.splits)
    define w2 where "w2 = (if escalate then fold (\<lambda>pid. k_kill k pid SIGKILL) expected w1 else w1)"
    have w2: "ch w2 = ch w" "fate w2 \<le> fate w"
      using w1 fold_kill[OF k, of SIGKILL expected w1] by (auto simp: w2_def)
    have "sup_inv ch (s, w2)" using less.prems(1) w2 by (simp add: sup_inv_def)
    from drain_exits_stopping[OF k this less.prems(2)] obtain e' s3 w3 where d:
      "drain_exits k expected (s, w2) = Some (e', s3, w3)" "sup_inv ch (s3, w3)" "stop_inv D e' s3"
      "set e' \<subseteq> set expected" "registry s3 = registry s" "length (metas s3) = length (metas s)"
      "fate w3 \<le> fate w2" "fate w2 = 0 \<longrightarrow> P \<inter> set e' = {}"
      by (elim exE conjE) (rule that)
    define w4 where "w4 = (if e' \<noteq> [] then k_sleep k (50 * 1000000) w3 else w3)"
    have step: "await_stopped k start grace escalated expected (s, w)
        = await_stopped k start grace (escalated \<or> escalate) e' (s3, w4)"
      unfolding w4_def by (rule await_stopped_step[OF False e d(1)[unfolded w2_def]])
    show ?thesis
    proof (cases "e' = []")
      case True
      have "await_stopped k start grace escalated expected (s, w) = Some (s3, w3)"
        unfolding step using True by (simp add: await_stopped.simps w4_def)
      then show ?thesis using True d by auto
    next
      case e': False
      have "sup_inv ch (s3, w4)" using d(2) by (simp add: sup_inv_def w4_def frame_simps[OF k(1)])
      moreover have "fate w4 < fate w"
      proof -
        have "fate w2 \<noteq> 0" using d(4,8) e' less.prems(3) by (metis Int_absorb1 set_empty2 subset_trans)
        then show ?thesis
          using mortal_laws(1)[OF k(2), of "50 * 1000000" w3] d(7) w2(2) e' by (auto simp: w4_def)
      qed
      moreover have "set e' \<subseteq> P" using d(4) less.prems(3) by blast
      ultimately obtain s5 w5 where "await_stopped k start grace (escalated \<or> escalate) e' (s3, w4) = Some (s5, w5)"
        "sup_inv ch (s5, w5)" "stop_inv D [] s5" "registry s5 = registry s3" "length (metas s5) = length (metas s3)"
        using less.hyps[of w4 s3 e'] d(3) by blast
      then show ?thesis unfolding step using d(5,6) by simp
    qed
  qed
qed

text \<open>One unit joins the stop.\<close>

lemma signal_stop_step:
  assumes k: "kernel_ok k ch" and inv: "sup_inv ch (s, w)" "stop_inv D expected s"
    and i: "i < length (metas s)"
  shows "\<exists>e' s' w'. signal_stop k i (expected, s, w) = Some (e', s', w')
    \<and> sup_inv ch (s', w') \<and> stop_inv (insert i D) e' s'
    \<and> set e' = set expected \<union> set_option (um_pid (metas s ! i))
    \<and> registry s' = registry s \<and> length (metas s') = length (metas s)
    \<and> (\<forall>j. um_pid (metas s' ! j) = um_pid (metas s ! j))"
proof -
  define s1 where "s1 = s\<lparr>pending_restarts := filter (\<lambda>r. pr_unit r \<noteq> i) (pending_restarts s)\<rparr>"
  define st where "st = (case um_pid (metas s ! i) of None \<Rightarrow> Inactive | Some _ \<Rightarrow> Deactivating)"
  define e' where "e' = (case um_pid (metas s ! i) of None \<Rightarrow> expected
    | Some pid \<Rightarrow> if pid \<in> set expected then expected else expected @ [pid])"
  define w' where "w' = (case um_pid (metas s ! i) of None \<Rightarrow> w | Some pid \<Rightarrow> k_kill k pid SIGTERM w)"
  obtain s2 where s2: "set_state i st s1 = Some s2"
    using i by (simp add: set_state_def update_meta_def s1_def)
  then have s2': "s2 = s1\<lparr>metas := (metas s1)[i := (metas s1 ! i)\<lparr>um_state := st\<rparr>]\<rparr>"
    by (simp add: set_state_Some)
  have run: "signal_stop k i (expected, s, w) = Some (e', s2, w')"
    using i s2 by (auto simp: signal_stop_def unit_meta_of_def s1_def st_def e'_def w'_def split: option.splits)
  have "sup_inv ch (s1, w)" unfolding s1_def by (rule drop_pending_inv[OF inv(1)])
  moreover have "ch w' = ch w" by (auto simp: w'_def frame_simps[OF k] split: option.split)
  ultimately have inv': "sup_inv ch (s2, w')"
    using sup_ok_set_state[OF _ s2] by (auto simp: sup_inv_def)
  have pid: "um_pid (metas s2 ! j) = um_pid (metas s ! j)" for j
    by (cases "j = i") (simp_all add: s2' s1_def i)
  have e: "set e' = set expected \<union> set_option (um_pid (metas s ! i))"
    by (auto simp: e'_def split: option.splits)
  have f: "registry s2 = registry s" "length (metas s2) = length (metas s)"
    "shutting_down s2 = shutting_down s" "by_pid s2 = by_pid s"
    "pr_unit ` set (pending_restarts s2) = pr_unit ` set (pending_restarts s) - {i}"
    by (auto simp: s2' s1_def)
  have "i < length (units (registry s))" using i inv(1) by (simp add: sup_inv_def sup_ok_def)
  then have "meta_ok (registry s) (by_pid s) i (metas s ! i)"
    using inv(1) by (simp add: sup_inv_def sup_ok_def)
  then have "set_option (um_pid (metas s ! i)) \<subseteq> dom (by_pid s)"
    by (auto simp: meta_ok_def elem_set)
  moreover have "case um_pid (metas s2 ! j) of None \<Rightarrow> um_state (metas s2 ! j) = Inactive
      | Some p \<Rightarrow> p \<in> set e'" if "j \<in> insert i D" for j
  proof (cases "j = i")
    case True
    then show ?thesis
      unfolding pid e by (auto simp: s2' s1_def i st_def split: option.splits)
  next
    case False
    then show ?thesis
      using that inv(2) unfolding pid e by (auto simp: stop_inv_def s2' s1_def split: option.splits)
  qed
  ultimately have "stop_inv (insert i D) e' s2"
    using inv(2) i unfolding stop_inv_def f e by auto
  with run inv' e f(1,2) pid show ?thesis by blast
qed

lemma fold_signal_stop:
  assumes k: "kernel_ok k ch" and inv: "sup_inv ch (s, w)" "stop_inv D expected s"
    and plan: "set plan \<subseteq> {..<length (metas s)}"
  shows "\<exists>e' s' w'. fold_opt (signal_stop k) plan (expected, s, w) = Some (e', s', w')
    \<and> sup_inv ch (s', w') \<and> stop_inv (D \<union> set plan) e' s'
    \<and> set e' = set expected \<union> {p. \<exists>i \<in> set plan. um_pid (metas s ! i) = Some p}
    \<and> registry s' = registry s \<and> length (metas s') = length (metas s)"
  using inv plan
proof (induction plan arbitrary: D expected s w)
  case (Cons i plan)
  then have i: "i < length (metas s)" by simp
  from signal_stop_step[OF k Cons.prems(1,2) i] obtain e1 s1 w1 where 1:
    "signal_stop k i (expected, s, w) = Some (e1, s1, w1)" "sup_inv ch (s1, w1)" "stop_inv (insert i D) e1 s1"
    "set e1 = set expected \<union> set_option (um_pid (metas s ! i))"
    "registry s1 = registry s" "length (metas s1) = length (metas s)"
    "\<forall>j. um_pid (metas s1 ! j) = um_pid (metas s ! j)" by blast
  have "set plan \<subseteq> {..<length (metas s1)}" using Cons.prems(3) 1(6) by simp
  from Cons.IH[OF 1(2,3) this] obtain e2 s2 w2 where 2:
    "fold_opt (signal_stop k) plan (e1, s1, w1) = Some (e2, s2, w2)" "sup_inv ch (s2, w2)"
    "stop_inv (insert i D \<union> set plan) e2 s2"
    "set e2 = set e1 \<union> {p. \<exists>i \<in> set plan. um_pid (metas s1 ! i) = Some p}"
    "registry s2 = registry s1" "length (metas s2) = length (metas s1)" by blast
  have "set e2 = set expected \<union> {p. \<exists>j \<in> set (i # plan). um_pid (metas s ! j) = Some p}"
    using 2(4) 1(4,7) by (auto simp: elem_set)
  moreover have "D \<union> set (i # plan) = insert i D \<union> set plan" by auto
  ultimately show ?case using 1 2 by simp
qed simp

lemma sup_ok_shutting_down [simp]: "sup_ok (s\<lparr>shutting_down := b\<rparr>) = sup_ok s"
  by (simp add: sup_ok_def)

lemma sup_inv_shutting_down [simp]: "sup_inv ch (s\<lparr>shutting_down := b\<rparr>, w) = sup_inv ch (s, w)"
  by (simp add: sup_inv_def)

lemma stop_grace_total:
  "set plan \<subseteq> {..<length (units reg)} \<Longrightarrow> \<exists>g. stop_grace reg plan = Some g"
proof -
  assume "set plan \<subseteq> {..<length (units reg)}"
  then have "\<exists>us. those (map (get_unit reg) plan) = Some us"
    by (induction plan) (auto simp: get_unit_def)
  then show ?thesis by (auto simp: stop_grace_def)
qed

lemma fold_reap_cgroup:
  assumes k: "kernel_ok k ch" and inv: "sup_inv ch (s, w)" and plan: "set plan \<subseteq> {..<length (units (registry s))}"
  shows "\<exists>w'. fold_opt (reap_cgroup k) plan (s, w) = Some (s, w') \<and> sup_inv ch (s, w')"
  using inv plan
proof (induction plan arbitrary: w)
  case (Cons i plan)
  then have "\<exists>w1. reap_cgroup k i (s, w) = Some (s, w1)"
    by (auto simp: reap_cgroup_def name_of_def)
  then obtain w1 where w1: "reap_cgroup k i (s, w) = Some (s, w1)" by blast
  from reap_cgroup_inv[OF k Cons.prems(1) w1] Cons.IH Cons.prems(2) w1 show ?case by auto
qed simp


section \<open>Every run keeps the invariant\<close>

lemma drain_exits_inv:
  assumes "drain_exits k expected sw = Some r" "kernel_ok k ch" "sup_inv ch sw"
  shows "sup_inv ch (snd r)"
  using assms
proof (induction rule: drain_exits.raw_induct[rotated, consumes 1, case_names step])
  case (step drain k expected sw r)
  obtain pid status w1 where w1: "k_waitpid k (-1) True (snd sw) = ((pid, status), w1)"
    by (metis surj_pair)
  have s: "sup_ok (fst sw)" "dom (by_pid (fst sw)) \<subseteq> ch (snd sw)" using step(4) by (auto simp: sup_inv_def)
  show ?case
  proof (cases "0 < pid")
    case False
    then have "r = (expected, fst sw, w1)" "ch w1 = ch (snd sw)"
      using step(2) w1 kernel_waitpid(2)[OF step(3) w1] by simp_all
    with s show ?thesis by (simp add: sup_inv_def)
  next
    case True
    with step(2) w1 obtain sw' where sw': "on_child_exit k pid status (fst sw, w1) = Some sw'"
      "drain k (removeAll pid expected) sw' = Some r"
      by (auto split: option.splits)
    have "dom (by_pid (fst sw)) \<subseteq> insert pid (ch w1)"
      using s(2) kernel_waitpid(1)[OF step(3) w1 True] by auto
    from on_child_exit_inv[OF step(3) s(1) this sw'(1)] step(1)[OF sw'(2) step(3)] show ?thesis by blast
  qed
qed

lemma await_stopped_inv:
  assumes "await_stopped k start grace escalated expected sw = Some r" "kernel_ok k ch" "sup_inv ch sw"
  shows "sup_inv ch r"
  using assms
proof (induction rule: await_stopped.raw_induct[rotated, consumes 1, case_names step])
  case (step await k start grace escalated expected sw r)
  show ?case
  proof (cases "expected = []")
    case True
    with step(2,4) show ?thesis by simp
  next
    case False
    obtain escalate w1 where e: "(if escalated then (False, snd sw)
        else case k_now k (snd sw) of (now, w1) \<Rightarrow> (grace < now - start, w1)) = (escalate, w1)"
      by fastforce
    have w1: "ch w1 = ch (snd sw)"
      using e kernel_step(1)[OF step(3), of "snd sw"] by (auto split: if_splits prod.splits)
    have kills: "ch (fold (\<lambda>p. k_kill k p SIGKILL) ps v) = ch v" for ps v
      by (induction ps arbitrary: v) (simp_all add: frame_simps[OF step(3)])
    define w2 where "w2 = (if escalate then fold (\<lambda>pid. k_kill k pid SIGKILL) expected w1 else w1)"
    have inv2: "sup_inv ch (fst sw, w2)" using step(4) w1 kills by (simp add: sup_inv_def w2_def)
    from step(2)[unfolded e] False obtain e' s3 w3 where d: "drain_exits k expected (fst sw, w2) = Some (e', s3, w3)"
      "await k start grace (escalated \<or> escalate) e'
         (s3, if e' \<noteq> [] then k_sleep k (50 * 1000000) w3 else w3) = Some r"
      by (auto simp: w2_def[symmetric] split: option.splits)
    have "sup_inv ch (s3, if e' \<noteq> [] then k_sleep k (50 * 1000000) w3 else w3)"
      using drain_exits_inv[OF d(1) step(3) inv2] by (simp add: sup_inv_def frame_simps[OF step(3)])
    from step(1)[OF d(2) step(3) this] show ?thesis .
  qed
qed

lemma signal_stop_inv:
  assumes k: "kernel_ok k ch" and inv: "sup_inv ch (snd st)" and run: "signal_stop k i st = Some st'"
  shows "sup_inv ch (snd st')"
proof -
  obtain e s w where st: "st = (e, s, w)" by (metis surj_pair)
  define s1 where "s1 = s\<lparr>pending_restarts := filter (\<lambda>r. pr_unit r \<noteq> i) (pending_restarts s)\<rparr>"
  have "sup_inv ch (s1, w)" using drop_pending_inv[of ch s w] inv st by (simp add: s1_def)
  moreover have "\<exists>e' x s2 w'. st' = (e', s2, w') \<and> set_state i x s1 = Some s2
    \<and> (w' = w \<or> (\<exists>p. w' = k_kill k p SIGTERM w))"
  proof -
    from run st obtain m where m: "unit_meta_of s1 i = Some m"
      by (auto simp: signal_stop_def bind_eq_Some_conv s1_def Let_def)
    with run st show ?thesis
      by (cases "um_pid m") (auto simp: signal_stop_def bind_eq_Some_conv s1_def Let_def)
  qed
  then obtain e' x s2 w' where "st' = (e', s2, w')" "set_state i x s1 = Some s2"
    "w' = w \<or> (\<exists>p. w' = k_kill k p SIGTERM w)" by blast
  ultimately show ?thesis
    using sup_ok_set_state[of s1 i x s2] by (auto simp: sup_inv_def frame_simps[OF k])
qed

lemma stop_unit_inv [inv_intros]:
  assumes k: "kernel_ok k ch" and inv: "sup_inv ch sw" and run: "stop_unit k hord anchor sw = Some (r, sw')"
  shows "sup_inv ch sw'"
proof -
  obtain s w where sw: "sw = (s, w)" by fastforce
  from run sw obtain plan where plan: "build_stop_transaction hord (registry s) anchor = Some plan"
    by (auto simp: stop_unit_def bind_eq_Some_conv)
  show ?thesis
  proof (cases plan)
    case (Inl e)
    with run sw plan inv show ?thesis by (simp add: stop_unit_def)
  next
    case (Inr us)
    with run sw plan obtain grace e s1 w1 sw3 s4 w4 where t:
      "fold_opt (signal_stop k) us ([], s\<lparr>shutting_down := True\<rparr>, w) = Some (e, s1, w1)"
      "await_stopped k (fst (k_now k w1)) grace False e (s1, snd (k_now k w1)) = Some sw3"
      "fold_opt (reap_cgroup k) us sw3 = Some (s4, w4)" "sw' = (s4\<lparr>shutting_down := shutting_down s\<rparr>, w4)"
      by (auto simp: stop_unit_def bind_eq_Some_conv case_prod_beta)
    have "sup_inv ch (snd (e, s1, w1))"
      by (rule fold_opt_inv[where I = "\<lambda>st. sup_inv ch (snd st)", OF t(1)])
         (use inv sw in \<open>auto intro: signal_stop_inv[OF k]\<close>)
    then have "sup_inv ch (s1, snd (k_now k w1))"
      by (simp add: sup_inv_def frame_simps[OF k])
    from await_stopped_inv[OF t(2) k this] have "sup_inv ch sw3" .
    then have "sup_inv ch (s4, w4)"
      by (rule fold_opt_inv[where I = "sup_inv ch", OF t(3)]) (rule reap_cgroup_inv[OF k])
    then show ?thesis using t(4) by simp
  qed
qed

lemma start_named_inv [inv_intros]:
  assumes k: "kernel_ok k ch" and inv: "sup_inv ch sw" and run: "start_named k hord name sw = Some (r, sw')"
  shows "sup_inv ch sw'"
proof -
  from run obtain plan where plan: "build_transaction hord (registry (fst sw)) name = Some plan"
    by (auto simp: start_named_def bind_eq_Some_conv)
  show ?thesis
  proof (cases plan)
    case (Inl e)
    with run plan inv show ?thesis by (simp add: start_named_def)
  next
    case (Inr jobs)
    with run plan have "fold_opt (start_job_named k) jobs sw = Some sw'"
      by (auto simp: start_named_def bind_eq_Some_conv)
    then show ?thesis using inv
    proof (rule fold_opt_inv[where I = "sup_inv ch"])
      fix j t t' assume "sup_inv ch t" "start_job_named k j t = Some t'"
      then show "sup_inv ch t'"
        by (auto simp: start_job_named_def bind_eq_Some_conv split: if_splits
            dest: start_unit_internal_inv[OF k])
    qed
  qed
qed

lemma initiate_shutdown_inv [inv_intros]:
  assumes k: "kernel_ok k ch" and inv: "sup_inv ch sw"
  shows "sup_inv ch (initiate_shutdown k sw)"
proof -
  have "ch (fold (\<lambda>p. k_kill k p SIGTERM) ps v) = ch v" for ps v
    by (induction ps arbitrary: v) (simp_all add: frame_simps[OF k])
  then show ?thesis
    using inv by (cases sw) (simp add: initiate_shutdown_def sup_inv_def sup_ok_def)
qed

section \<open>What no operation changes\<close>

definition sup_config :: "supervisor \<Rightarrow> registry \<times> bool \<times> string \<times> string" where
  "sup_config s = (registry s, fake s, enabled_d s, log_dir s)"

lemma sup_config_updates [simp]:
  "sup_config (s\<lparr>metas := m\<rparr>) = sup_config s" "sup_config (s\<lparr>by_pid := b\<rparr>) = sup_config s"
  "sup_config (s\<lparr>pending_restarts := p\<rparr>) = sup_config s" "sup_config (s\<lparr>shutting_down := d\<rparr>) = sup_config s"
  by (simp_all add: sup_config_def)

lemma meta_updates_config:
  "set_state i st s = Some s' \<Longrightarrow> sup_config s' = sup_config s"
  "set_pid i p s = Some s' \<Longrightarrow> sup_config s' = sup_config s"
  "update_meta i f s = Some s' \<Longrightarrow> sup_config s' = sup_config s"
  by (auto simp: meta_updates)

lemma service_started_config:
  "service_started k i svc pid s w = Some sw' \<Longrightarrow> sup_config (fst sw') = sup_config s"
  by (auto simp: service_started_def bind_eq_Some_conv Let_def meta_updates split: if_splits)

lemma start_unit_internal_config:
  assumes "start_unit_internal k i sw = Some sw'"
  shows "sup_config (fst sw') = sup_config (fst sw)"
proof -
  obtain s w where sw: "sw = (s, w)" by fastforce
  from assms[unfolded sw] show ?thesis
  proof (cases rule: start_unit_internal_cases)
    case (state st)
    then show ?thesis using sw meta_updates_config(1) by fastforce
  next
    case (service u svc)
    then obtain s1 where s1: "set_state i Activating s = Some s1"
      by (auto simp: start_service_def bind_eq_Some_conv)
    obtain r w1 where sp: "spawn k \<lparr>rq_name = lu_name u, rq_service = svc, rq_fake = fake s,
        rq_log_dir = log_dir s\<rparr> w = (r, w1)" by fastforce
    show ?thesis
      using service(3) s1 sp sw meta_updates_config(1)[OF s1]
      by (cases r) (auto simp: start_service_def bind_eq_Some_conv
          dest: meta_updates_config service_started_config)
  qed
qed

lemma maybe_schedule_restart_config:
  assumes "maybe_schedule_restart k i clean sig sw = Some sw'"
  shows "sup_config (fst sw') = sup_config (fst sw)"
proof -
  obtain s w where sw: "sw = (s, w)" by fastforce
  from assms sw obtain u where u: "get_unit (registry s) i = Some u"
    by (auto simp: maybe_schedule_restart_def bind_eq_Some_conv)
  show ?thesis
    using assms sw u
    by (cases "service_of (lu_file u)")
       (auto simp: maybe_schedule_restart_def bind_eq_Some_conv Let_def case_prod_beta meta_updates split: if_splits)
qed

lemma reap_cgroup_config:
  "reap_cgroup k i sw = Some sw' \<Longrightarrow> fst sw' = fst sw"
  using reap_cgroup_Some[of k i "fst sw" "snd sw" sw'] by simp

lemma on_child_exit_config:
  assumes "on_child_exit k pid status (s, w) = Some sw'"
  shows "sup_config (fst sw') = sup_config s"
  using assms
proof (cases rule: on_child_exit_cases)
  case (tracked i s1 s2 s3 w3)
  have "sup_config s2 = sup_config s"
    using meta_updates_config(2)[OF tracked(2)] meta_updates_config(1)[OF tracked(3)] by simp
  moreover have "sup_config s3 = sup_config s2"
    using tracked(4) maybe_schedule_restart_config[of k i _ _ "(s2, w)" "(s3, w3)"]
    by (auto split: if_splits)
  ultimately show ?thesis using tracked(5) reap_cgroup_config[of k i "(s3, w3)" sw'] by (auto split: if_splits)
qed simp

lemma drain_exits_config:
  assumes "drain_exits k expected sw = Some r"
  shows "sup_config (fst (snd r)) = sup_config (fst sw)"
  using assms
proof (induction rule: drain_exits.raw_induct[rotated, consumes 1, case_names step])
  case (step drain k expected sw r)
  obtain pid status w1 where w1: "k_waitpid k (-1) True (snd sw) = ((pid, status), w1)"
    by (metis surj_pair)
  show ?case
  proof (cases "0 < pid")
    case False
    with step(2) w1 show ?thesis by auto
  next
    case True
    with step(2) w1 obtain sw' where sw': "on_child_exit k pid status (fst sw, w1) = Some sw'"
      "drain k (removeAll pid expected) sw' = Some r"
      by (auto split: option.splits)
    from on_child_exit_config[OF sw'(1)] step(1)[OF sw'(2)] show ?thesis by simp
  qed
qed

lemma await_stopped_config:
  assumes "await_stopped k start grace escalated expected sw = Some r"
  shows "sup_config (fst r) = sup_config (fst sw)"
  using assms
proof (induction rule: await_stopped.raw_induct[rotated, consumes 1, case_names step])
  case (step await k start grace escalated expected sw r)
  show ?case
  proof (cases "expected = []")
    case False
    obtain escalate w1 where e: "(if escalated then (False, snd sw)
        else case k_now k (snd sw) of (now, w1) \<Rightarrow> (grace < now - start, w1)) = (escalate, w1)"
      by fastforce
    from step(2)[unfolded e] False obtain e' s3 w3 w2 where d: "drain_exits k expected (fst sw, w2) = Some (e', s3, w3)"
      "await k start grace (escalated \<or> escalate) e'
         (s3, if e' \<noteq> [] then k_sleep k (50 * 1000000) w3 else w3) = Some r"
      by (auto split: option.splits)
    from step(1)[OF d(2)] drain_exits_config[OF d(1)] show ?thesis by simp
  qed (use step(2) in simp)
qed

lemma signal_stop_config:
  "signal_stop k i st = Some st' \<Longrightarrow> sup_config (fst (snd st')) = sup_config (fst (snd st))"
  by (cases st) (auto simp: signal_stop_def bind_eq_Some_conv Let_def meta_updates split: option.splits)

lemma fold_opt_keeps:
  assumes "fold_opt f xs st = Some st'" "\<And>x t t'. f x t = Some t' \<Longrightarrow> g t' = g t"
  shows "g st' = g st"
  using fold_opt_inv[where I = "\<lambda>t. g t = g st", OF assms(1)] assms(2) by metis

lemma stop_unit_config:
  assumes "stop_unit k hord anchor sw = Some (r, sw')"
  shows "sup_config (fst sw') = sup_config (fst sw)"
proof -
  obtain s w where sw: "sw = (s, w)" by fastforce
  from assms sw obtain plan where plan: "build_stop_transaction hord (registry s) anchor = Some plan"
    by (auto simp: stop_unit_def bind_eq_Some_conv)
  show ?thesis
  proof (cases plan)
    case (Inl e)
    with assms sw plan show ?thesis by (simp add: stop_unit_def)
  next
    case (Inr us)
    with assms sw plan obtain grace e s1 w1 sw3 s4 w4 where t:
      "fold_opt (signal_stop k) us ([], s\<lparr>shutting_down := True\<rparr>, w) = Some (e, s1, w1)"
      "await_stopped k (fst (k_now k w1)) grace False e (s1, snd (k_now k w1)) = Some sw3"
      "fold_opt (reap_cgroup k) us sw3 = Some (s4, w4)" "sw' = (s4\<lparr>shutting_down := shutting_down s\<rparr>, w4)"
      by (auto simp: stop_unit_def bind_eq_Some_conv case_prod_beta)
    have "sup_config (fst (snd (e, s1, w1))) = sup_config (fst (snd ([] :: int list, s\<lparr>shutting_down := True\<rparr>, w)))"
      by (rule fold_opt_keeps[OF t(1)]) (rule signal_stop_config)
    moreover have "sup_config (fst (s4, w4)) = sup_config (fst sw3)"
      by (rule fold_opt_keeps[OF t(3)]) (metis reap_cgroup_config)
    ultimately show ?thesis using await_stopped_config[OF t(2)] t(4) sw by simp
  qed
qed

lemma start_named_config:
  assumes "start_named k hord name sw = Some (r, sw')"
  shows "sup_config (fst sw') = sup_config (fst sw)"
proof -
  from assms obtain plan where plan: "build_transaction hord (registry (fst sw)) name = Some plan"
    by (auto simp: start_named_def bind_eq_Some_conv)
  show ?thesis
  proof (cases plan)
    case (Inl e)
    with assms plan show ?thesis by (simp add: start_named_def)
  next
    case (Inr jobs)
    with assms plan have "fold_opt (start_job_named k) jobs sw = Some sw'"
      by (auto simp: start_named_def bind_eq_Some_conv)
    then show ?thesis
      by (rule fold_opt_keeps)
         (auto simp: start_job_named_def bind_eq_Some_conv split: if_splits dest: start_unit_internal_config)
  qed
qed

lemma fire_due_restarts_config:
  assumes "fire_due_restarts k sw = Some sw'"
  shows "sup_config (fst sw') = sup_config (fst sw)"
proof -
  obtain s w now w1 where sw: "sw = (s, w)" "k_now k w = (now, w1)" by fastforce
  from assms sw have "fold_opt (start_unit_internal k) (map pr_unit (filter (\<lambda>r. fire_at r \<le> now) (pending_restarts s)))
    (s\<lparr>pending_restarts := filter (\<lambda>r. \<not> fire_at r \<le> now) (pending_restarts s)\<rparr>, w1) = Some sw'"
    by (simp add: fire_due_restarts_def Let_def)
  from fold_opt_keeps[OF this, of "\<lambda>sw. sup_config (fst sw)"] show ?thesis
    using start_unit_internal_config sw(1) by fastforce
qed

lemma activate_plan_config:
  "activate_plan k js sw = Some sw' \<Longrightarrow> sup_config (fst sw') = sup_config (fst sw)"
  by (induction k js sw rule: activate_plan.induct)
     (auto split: if_splits option.splits dest: start_unit_internal_config)

lemma initiate_shutdown_config: "sup_config (fst (initiate_shutdown k sw)) = sup_config (fst sw)"
  by (cases sw) (simp add: initiate_shutdown_def)

end
