(* ===== verification/Sim_Kernel.thy ===== *)
theory Sim_Kernel
  imports Supervisor
begin

text \<open>
  A concrete kernel: a clock, and children with the instant and status of their exit. It
  satisfies the hypotheses the supervisor's properties make of a kernel, so those can hold,
  and the sample runs of the development are evaluated on it.
\<close>

record sim =
  sim_time :: nat
  sim_children :: "(int \<times> nat \<times> u32) list"
  sim_fates :: "(nat \<times> u32) list"

definition sim_pids :: "sim \<Rightarrow> int set" where
  "sim_pids w = {p \<in> fst ` set (sim_children w). 0 < p}"

definition sim_fork :: "sim \<Rightarrow> (io_error + int) \<times> sim" where
  "sim_fork w =
     (case sim_fates w of
        [] \<Rightarrow> (Inl (Other_Error ''EAGAIN''), w)
      | (life, status) # rest \<Rightarrow>
          let pid = fold (\<lambda>c m. max (fst c) m) (sim_children w) 99 + 1
          in (Inr pid, w\<lparr>sim_children := sim_children w @ [(pid, sim_time w + life, status)],
                        sim_fates := rest\<rparr>))"

definition sim_exited :: "int \<Rightarrow> nat \<Rightarrow> int \<times> nat \<times> u32 \<Rightarrow> bool" where
  "sim_exited pid now c \<longleftrightarrow> 0 < fst c \<and> (pid = -1 \<or> fst c = pid) \<and> fst (snd c) \<le> now"

definition sim_waitpid :: "int \<Rightarrow> bool \<Rightarrow> sim \<Rightarrow> (int \<times> u32) \<times> sim" where
  "sim_waitpid pid nohang w0 =
     (let w = (if nohang then w0 else w0\<lparr>sim_time := fold (\<lambda>c m. max (fst (snd c)) m) (sim_children w0) (sim_time w0)\<rparr>) in
      case find (sim_exited pid (sim_time w)) (sim_children w) of
        None \<Rightarrow> ((if sim_children w = [] then -1 else 0, 0), w)
      | Some c \<Rightarrow> ((fst c, snd (snd c)),
          w\<lparr>sim_children := filter (\<lambda>d. fst d \<noteq> fst c) (sim_children w)\<rparr>))"

definition sim_kill :: "int \<Rightarrow> nat \<Rightarrow> sim \<Rightarrow> sim" where
  "sim_kill pid sig w =
     w\<lparr>sim_children := map (\<lambda>c. if fst c = pid \<and> sim_time w < fst (snd c)
        then (fst c, sim_time w, of_nat sig) else c) (sim_children w)\<rparr>"

definition sim_kernel :: "sim kernel" where
  "sim_kernel =
     \<lparr>k_now = (\<lambda>w. (sim_time w, w)),
      k_sleep = (\<lambda>d w. w\<lparr>sim_time := sim_time w + max d 1\<rparr>),
      k_fork = (\<lambda>_. sim_fork), k_clone_into = (\<lambda>_ _. sim_fork),
      k_waitpid = sim_waitpid, k_kill = sim_kill,
      k_getpwnam = (\<lambda>n w. (if n = ''root'' then Some 0 else None, w)),
      k_getgrnam = (\<lambda>n w. (if n = ''root'' then Some 0 else None, w)),
      k_open = (\<lambda>_ _ w. (Inr 5, w)), k_close = (\<lambda>_ w. w),
      k_create_dir_all = (\<lambda>_ w. (Inr (), w)), k_remove_dir = (\<lambda>_ w. (Inr (), w)),
      k_write_file = (\<lambda>_ _ w. (Inr (), w)), k_read_file = (\<lambda>_ w. (Inl Not_Found, w)),
      k_remove_file = (\<lambda>_ w. (Inl Not_Found, w)), k_read_dir = (\<lambda>_ w. (Inl Not_Found, w))\<rparr>"

definition sim_fate :: "sim \<Rightarrow> nat" where
  "sim_fate w = sum_list (map (\<lambda>c. fst (snd c) - sim_time w) (sim_children w))"

section \<open>It is a kernel\<close>

lemma fold_max_ge:
  "(\<forall>c \<in> set cs. f c \<le> fold (\<lambda>c m. max (f c) m) cs a) \<and> a \<le> fold (\<lambda>c m. max (f c) m) cs a"
  for a :: "'a::linorder"
proof (induction cs arbitrary: a)
  case (Cons c cs)
  from Cons.IH[of "max (f c) a"] show ?case by auto
qed simp

lemma sim_fork_forked: "forked sim_pids w (sim_fork w)"
proof (cases "sim_fates w")
  case (Cons f rest)
  obtain life status where f: "f = (life, status)" by fastforce
  let ?p = "fold (\<lambda>c m. max (fst c) m) (sim_children w) 99 + 1"
  have "(\<forall>c \<in> set (sim_children w). fst c < ?p) \<and> 0 < ?p"
    using fold_max_ge[of "sim_children w" fst 99] by force
  then show ?thesis
    using Cons f by (auto simp: sim_fork_def forked_def sim_pids_def Let_def)
qed (simp add: sim_fork_def forked_def)

lemma sim_waitpid_children:
  assumes "sim_waitpid pid nohang w = ((rc, st), w')"
  shows "if 0 < rc then rc \<in> sim_pids w \<and> sim_pids w' = sim_pids w - {rc} \<and> (0 < pid \<longrightarrow> rc = pid)
         else sim_pids w' = sim_pids w"
  using assms
  by (auto simp: sim_waitpid_def Let_def sim_pids_def find_Some_iff sim_exited_def
      split: option.splits if_splits)

lemma sim_kill_children [simp]: "sim_pids (sim_kill p sig w) = sim_pids w"
proof -
  have "map fst (sim_children (sim_kill p sig w)) = map fst (sim_children w)" by (simp add: sim_kill_def)
  then have "fst ` set (sim_children (sim_kill p sig w)) = fst ` set (sim_children w)"
    by (metis list.set_map)
  then show ?thesis by (simp add: sim_pids_def)
qed

lemma sim_kernel_ok: "kernel_ok sim_kernel sim_pids"
proof -
  have fin: "finite (sim_pids w)" for w by (simp add: sim_pids_def)
  have fork: "case r of Inl e \<Rightarrow> sim_pids w' = sim_pids w
      | Inr p \<Rightarrow> 0 < p \<and> p \<notin> sim_pids w \<and> sim_pids w' = insert p (sim_pids w)"
    if "sim_fork w = (r, w')" for w r w'
    using sim_fork_forked[of w] that by (simp add: forked_def)
  have time: "sim_pids (w\<lparr>sim_time := t\<rparr>) = sim_pids w" for w t by (simp add: sim_pids_def)
  show ?thesis
    unfolding kernel_ok_def same_children_def sim_kernel_def kernel.simps
    using fin fork sim_waitpid_children time by simp
qed

lemma sim_clock_ok: "clock_ok sim_kernel sim_time"
  using fold_max_ge[of "sim_children w" "fst \<circ> snd" "sim_time w" for w]
  by (auto simp: clock_ok_def sim_kernel_def sim_kill_def sim_waitpid_def Let_def split: option.splits)

lemma sim_fate_zero: "sim_fate w = 0 \<longleftrightarrow> (\<forall>c \<in> set (sim_children w). fst (snd c) \<le> sim_time w)"
  by (auto simp: sim_fate_def)

lemma sim_fate_sleep:
  assumes "0 < d"
  shows "sim_fate (w\<lparr>sim_time := sim_time w + d\<rparr>) < sim_fate w
     \<or> sim_fate w = 0 \<and> sim_fate (w\<lparr>sim_time := sim_time w + d\<rparr>) = 0"
proof (cases "sim_fate w = 0")
  case False
  then obtain c where c: "c \<in> set (sim_children w)" "sim_time w < fst (snd c)"
    by (auto simp: sim_fate_zero not_le)
  have "(\<Sum>c\<leftarrow>cs. fst (snd c) - (t + d)) < (\<Sum>c\<leftarrow>cs. fst (snd c) - t)"
    if "c \<in> set cs" "t < fst (snd c)" for cs :: "(int \<times> nat \<times> u32) list" and t
    using that
  proof (induction cs)
    case (Cons x cs)
    have le: "(\<Sum>c\<leftarrow>cs. fst (snd c) - (t + d)) \<le> (\<Sum>c\<leftarrow>cs. fst (snd c) - t)"
      by (rule sum_list_mono) simp
    show ?case
    proof (cases "x = c")
      case True
      then have "fst (snd x) - (t + d) < fst (snd x) - t" using Cons.prems(2) assms by simp
      with le show ?thesis by simp
    next
      case False
      then have "(\<Sum>c\<leftarrow>cs. fst (snd c) - (t + d)) < (\<Sum>c\<leftarrow>cs. fst (snd c) - t)" using Cons by simp
      then show ?thesis by simp
    qed
  qed simp
  from this[OF c] show ?thesis by (simp add: sim_fate_def)
next
  case True
  then have "sim_fate (w\<lparr>sim_time := sim_time w + d\<rparr>) = 0"
    unfolding sim_fate_zero by auto
  with True show ?thesis by simp
qed

lemma sum_list_filter_le: "(\<Sum>c\<leftarrow>filter P cs. f c) \<le> (\<Sum>c\<leftarrow>cs. f c)" for f :: "'a \<Rightarrow> nat"
  by (induction cs) auto

lemma sim_fate_waitpid: "sim_fate (snd (sim_waitpid p h w)) \<le> sim_fate w"
proof -
  define t where "t = (if h then sim_time w
    else fold (\<lambda>c m. max (fst (snd c)) m) (sim_children w) (sim_time w))"
  have t: "sim_time w \<le> t"
    using fold_max_ge[of "sim_children w" "fst \<circ> snd" "sim_time w"] by (simp add: t_def)
  obtain P where P: "sim_children (snd (sim_waitpid p h w)) = filter P (sim_children w)"
    "sim_time (snd (sim_waitpid p h w)) = t"
  proof (cases "find (sim_exited p t) (sim_children w)")
    case None
    then have "sim_children (snd (sim_waitpid p h w)) = filter (\<lambda>_. True) (sim_children w)"
      "sim_time (snd (sim_waitpid p h w)) = t"
      by (auto simp: sim_waitpid_def Let_def t_def)
    then show thesis by (rule that)
  next
    case (Some c)
    then have "sim_children (snd (sim_waitpid p h w)) = filter (\<lambda>d. fst d \<noteq> fst c) (sim_children w)"
      "sim_time (snd (sim_waitpid p h w)) = t"
      by (auto simp: sim_waitpid_def Let_def t_def)
    then show thesis by (rule that)
  qed
  have "(\<Sum>c\<leftarrow>filter P (sim_children w). fst (snd c) - t) \<le> (\<Sum>c\<leftarrow>sim_children w. fst (snd c) - t)"
    by (rule sum_list_filter_le)
  also have "\<dots> \<le> (\<Sum>c\<leftarrow>sim_children w. fst (snd c) - sim_time w)"
    using t by (intro sum_list_mono) simp
  finally show ?thesis by (simp add: sim_fate_def P)
qed

lemma sim_fate_kill: "sim_fate (sim_kill p sig w) \<le> sim_fate w"
  unfolding sim_fate_def sim_kill_def
  by (auto simp: o_def intro!: sum_list_mono)

lemma sim_waitpid_found:
  assumes "sim_fate w = 0" "sim_pids w \<noteq> {}"
  shows "0 < fst (fst (sim_waitpid (-1) True w))"
proof -
  from assms obtain c where "c \<in> set (sim_children w)" "sim_exited (-1) (sim_time w) c"
    by (auto simp: sim_pids_def sim_fate_zero sim_exited_def)
  then obtain d where d: "find (sim_exited (-1) (sim_time w)) (sim_children w) = Some d"
    by (metis find_None_iff option.exhaust)
  then have "0 < fst d" by (auto simp: find_Some_iff sim_exited_def)
  with d show ?thesis by (simp add: sim_waitpid_def)
qed

lemma sim_mortal: "mortal sim_kernel sim_pids P sim_fate"
proof -
  have "sim_fate (w\<lparr>sim_time := sim_time w + max d 1\<rparr>) < sim_fate w
     \<or> sim_fate w = 0 \<and> sim_fate (w\<lparr>sim_time := sim_time w + max d 1\<rparr>) = 0" for w d
    by (rule sim_fate_sleep) simp
  moreover have "sim_fate w = 0 \<and> P \<inter> sim_pids w \<noteq> {} \<longrightarrow> 0 < fst (fst (sim_waitpid (-1) True w))" for w
    using sim_waitpid_found[of w] by blast
  ultimately show ?thesis
    unfolding mortal_def sim_kernel_def kernel.simps
    using sim_fate_waitpid sim_fate_kill by simp
qed

end
