(* ===== verification/Lifecycle.thy ===== *)
theory Lifecycle
  imports Sim_Kernel
begin

text \<open>
  What the supervisor promises over its operations: the invariant along every sequence of
  them, when a unit is started, that waiting for a oneshot ends, the restart rate limit, what
  an exit leads to, and that a shutdown starts nothing. The sample runs at the end are
  evaluated on the concrete kernel of \<open>Sim_Kernel\<close>.
\<close>

section \<open>Sequences of operations\<close>

text \<open>What the event loop and the control socket make the supervisor do.\<close>

datatype sup_event =
  Ev_Activate "job list" | Ev_Reap | Ev_Fire | Ev_Stop string | Ev_Start string | Ev_Shutdown

text \<open>\<open>reap\<close> of signal.rs is the drain loop with nothing awaited.\<close>

definition reap :: "'w kernel \<Rightarrow> supervisor \<times> 'w \<Rightarrow> (supervisor \<times> 'w) option" where
  "reap k sw = map_option snd (drain_exits k [] sw)"

fun sup_step :: "'w kernel \<Rightarrow> hash_order \<Rightarrow> sup_event \<Rightarrow> supervisor \<times> 'w \<Rightarrow> (supervisor \<times> 'w) option" where
  "sup_step k hord (Ev_Activate js) sw = activate_plan k js sw"
| "sup_step k hord Ev_Reap sw = reap k sw"
| "sup_step k hord Ev_Fire sw = fire_due_restarts k sw"
| "sup_step k hord (Ev_Stop n) sw = map_option snd (stop_unit k hord n sw)"
| "sup_step k hord (Ev_Start n) sw = map_option snd (start_named k hord n sw)"
| "sup_step k hord Ev_Shutdown sw = Some (initiate_shutdown k sw)"

lemma reap_inv [inv_intros]:
  "kernel_ok k ch \<Longrightarrow> sup_inv ch sw \<Longrightarrow> reap k sw = Some sw' \<Longrightarrow> sup_inv ch sw'"
  using drain_exits_inv[of k "[]" sw _ ch] by (auto simp: reap_def)

lemma sup_step_inv:
  assumes "kernel_ok k ch" "sup_inv ch sw" "sup_step k hord e sw = Some sw'"
  shows "sup_inv ch sw'"
  using assms by (cases e) (auto intro: inv_intros)

lemma sup_run_inv:
  assumes "kernel_ok k ch" "sup_inv ch sw" "fold_opt (sup_step k hord) es sw = Some sw'"
  shows "sup_inv ch sw'"
  using assms(3,2) by (rule fold_opt_inv[where I = "sup_inv ch"]) (rule sup_step_inv[OF assms(1)])

lemma sup_step_config:
  "sup_step k hord e sw = Some sw' \<Longrightarrow> sup_config (fst sw') = sup_config (fst sw)"
  by (cases e)
     (auto simp: reap_def initiate_shutdown_config dest: activate_plan_config drain_exits_config
       fire_due_restarts_config stop_unit_config start_named_config)

lemma sup_run_registry:
  assumes "fold_opt (sup_step k hord) es sw = Some sw'"
  shows "registry (fst sw') = registry (fst sw)"
proof -
  have "sup_config (fst sw') = sup_config (fst sw)"
    by (rule fold_opt_keeps[OF assms]) (rule sup_step_config)
  then show ?thesis by (simp add: sup_config_def)
qed

text \<open>
  C1: in every state the supervisor reaches from its units, by any sequence of activations,
  exits, restarts, stops, starts and shutdowns: a unit's process is an unreaped child and the
  process map leads from it back to the unit; every id in the process map and in the queue of
  restarts is a loaded unit's; and no unit has recorded more restart attempts in its window
  than its burst limit, unless that limit is disabled with zero.
\<close>

theorem supervisor_invariant:
  assumes "kernel_ok k ch"
    and "fold_opt (sup_step k hord) es (supervisor_from_loaded us fk, w) = Some (s, w')"
  shows "(\<forall>i < length us. (case um_pid (metas s ! i) of
             None \<Rightarrow> True | Some p \<Rightarrow> by_pid s p = Some i \<and> p \<in> ch w'))
    \<and> ran (by_pid s) \<subseteq> {..<length us} \<and> dom (by_pid s) \<subseteq> ch w'
    \<and> pr_unit ` set (pending_restarts s) \<subseteq> {..<length us}
    \<and> (\<forall>i < length us. (case service_of (lu_file (units (registry s) ! i)) of
          None \<Rightarrow> True
        | Some svc \<Rightarrow> start_limit_burst svc = 0
            \<or> length (restart_history (metas s ! i)) \<le> unat (start_limit_burst svc)))"
proof -
  have "sup_inv ch (supervisor_from_loaded us fk, w)"
    using sup_ok_new[OF reg_ok_from_loaded] by (simp add: sup_inv_def supervisor_from_loaded_def new_supervisor_def)
  from sup_run_inv[OF assms(1) this assms(2)] have inv: "sup_inv ch (s, w')" .
  have reg: "registry s = from_loaded us"
    using sup_run_registry[OF assms(2)] by (simp add: supervisor_from_loaded_def new_supervisor_def)
  have pids: "case um_pid (metas s ! i) of None \<Rightarrow> True | Some p \<Rightarrow> by_pid s p = Some i \<and> p \<in> ch w'"
    if "i < length us" for i
    using inv that reg by (auto simp: sup_inv_def sup_ok_def meta_ok_def split: option.split)
  have burst: "case service_of (lu_file (units (registry s) ! i)) of None \<Rightarrow> True
      | Some svc \<Rightarrow> start_limit_burst svc = 0
          \<or> length (restart_history (metas s ! i)) \<le> unat (start_limit_burst svc)"
    if "i < length us" for i
    using inv that reg by (auto simp: sup_inv_def sup_ok_def meta_ok_def word_gt_0 split: option.split)
  from inv reg pids burst show ?thesis by (simp add: sup_inv_def sup_ok_def)
qed

section \<open>Starting a unit\<close>

lemma find_failed_spec:
  "set ds \<subseteq> {..<length (metas s)} \<Longrightarrow>
     find_failed s ds = Some (find (\<lambda>d. um_state (metas s ! d) = UnitFailed) ds)"
  by (induction ds) (auto simp: unit_meta_of_def)


section \<open>Oneshot services\<close>

lemma poll_oneshot_step:
  assumes "k_waitpid k pid True w = ((rc, status), w1)" "k_now k w1 = (now, w2)"
  shows "poll_oneshot k pid deadline w =
    (if rc = pid then
       Some (if wifexited status \<and> wexitstatus status = 0 then Clean else OneshotFailed, w1)
     else if rc < 0 then Some (OneshotFailed, w1)
     else if deadline \<le> now then Some (TimedOut, snd (k_waitpid k pid False (k_kill k pid SIGKILL w2)))
     else poll_oneshot k pid deadline (k_sleep k (20 * 1000000) w2))"
  using assms by (subst poll_oneshot.simps) simp

lemma poll_oneshot_total:
  assumes "clock_ok k clock"
  shows "\<exists>outcome w'. poll_oneshot k pid deadline w = Some (outcome, w')
    \<and> (outcome = TimedOut \<longrightarrow> deadline \<le> clock w')"
proof (induction "deadline - clock w" arbitrary: w rule: less_induct)
  case less
  obtain rc status w1 where w1: "k_waitpid k pid True w = ((rc, status), w1)" by (metis surj_pair)
  obtain now w2 where w2: "k_now k w1 = (now, w2)" by fastforce
  have c: "clock w \<le> clock w1" using clock_laws(4)[OF assms, of w pid True] w1 by simp
  have now: "clock w1 \<le> now" "now \<le> clock w2" using clock_laws(1,2)[OF assms w2] .
  note step = poll_oneshot_step[OF w1 w2, of deadline]
  consider "rc = pid \<or> rc < 0" | "\<not> (rc = pid \<or> rc < 0)" "deadline \<le> now"
    | "\<not> (rc = pid \<or> rc < 0)" "\<not> deadline \<le> now" by blast
  then show ?case
  proof cases
    case 1
    then show ?thesis using step by auto
  next
    case 2
    have "clock w2 \<le> clock (snd (k_waitpid k pid False (k_kill k pid SIGKILL w2)))"
      using clock_laws(4,5)[OF assms] order_trans by blast
    with 2 step now show ?thesis by auto
  next
    case 3
    let ?w = "k_sleep k (20 * 1000000) w2"
    have "clock w < clock ?w" using clock_laws(3)[OF assms, of w2 "20 * 1000000"] c now by simp
    moreover have "clock w < deadline" using c now 3(2) by simp
    ultimately have "deadline - clock ?w < deadline - clock w" by simp
    from less.hyps[OF this] show ?thesis using step 3 by auto
  qed
qed

text \<open>
  C29: waiting for a oneshot service always ends, whatever the service does, except that the
  program panics when its deadline lies beyond the clock's range; it is only given up as timed
  out once its timeout has really passed.
\<close>

theorem wait_oneshot_returns:
  assumes "clock_ok k clock"
  shows "case wait_oneshot k pid timeout w of
      None \<Rightarrow> instant_add (fst (k_now k w)) timeout = None
    | Some (outcome, w') \<Rightarrow> instant_add (fst (k_now k w)) timeout \<noteq> None
        \<and> (outcome = TimedOut \<longrightarrow> clock w + timeout \<le> clock w')"
proof -
  obtain now w1 where n: "k_now k w = (now, w1)" by fastforce
  show ?thesis
  proof (cases "instant_add now timeout")
    case None
    with n show ?thesis by (simp add: wait_oneshot_def)
  next
    case (Some d)
    then have "d = now + timeout" by (simp add: instant_add_def split: if_splits)
    moreover have "clock w \<le> now" using clock_laws(1)[OF assms n] .
    ultimately show ?thesis
      using n Some poll_oneshot_total[OF assms, of pid d w1] by (auto simp: wait_oneshot_def)
  qed
qed

section \<open>The restart rate limit\<close>

text \<open>The attempts the gate lets through, of those made at the given instants.\<close>

fun gate_run :: "u32 \<Rightarrow> duration \<Rightarrow> nat list \<Rightarrow> nat list \<Rightarrow> nat list" where
  "gate_run burst interval [] history = []"
| "gate_run burst interval (t # ts) history =
     (case restart_gate burst interval t history of
        (history', ok) \<Rightarrow> (if ok then [t] else []) @ gate_run burst interval ts history')"

text \<open>The history is what the interval still covers of the attempts so far.\<close>

lemma gate_run_window:
  assumes "0 < burst" "sorted (acc @ ts)" "\<forall>t \<in> set ts. \<forall>t' \<ge> t.
      filter (\<lambda>x. t' - x \<le> interval) history = filter (\<lambda>x. t' - x \<le> interval) acc"
    and "\<forall>i. i + unat burst < length acc \<longrightarrow> interval < acc ! (i + unat burst) - acc ! i"
  shows "\<forall>i. i + unat burst < length (acc @ gate_run burst interval ts history)
      \<longrightarrow> interval < (acc @ gate_run burst interval ts history) ! (i + unat burst)
                     - (acc @ gate_run burst interval ts history) ! i"
  using assms(2-4)
proof (induction ts arbitrary: acc history)
  case (Cons t ts)
  define recent where "recent = filter (\<lambda>x. t - x \<le> interval) history"
  have rec: "recent = filter (\<lambda>x. t - x \<le> interval) acc" using Cons.prems(2) by (simp add: recent_def)
  have later: "filter (\<lambda>x. t' - x \<le> interval) recent = filter (\<lambda>x. t' - x \<le> interval) acc"
    if "t' \<ge> t" for t'
    unfolding rec filter_filter using that by (intro filter_cong) auto
  show ?case
  proof (cases "unat burst \<le> length recent")
    case True
    have "sorted (acc @ ts)" using Cons.prems(1) by (simp add: sorted_append)
    moreover have "\<forall>u \<in> set ts. \<forall>t' \<ge> u.
        filter (\<lambda>x. t' - x \<le> interval) recent = filter (\<lambda>x. t' - x \<le> interval) acc"
      using later Cons.prems(1) by (auto simp: sorted_append)
    ultimately show ?thesis
      using Cons.IH[of acc recent] Cons.prems(3) True assms(1)
      by (simp add: restart_gate_def recent_def[symmetric])
  next
    case False
    have "sorted ((acc @ [t]) @ ts)" using Cons.prems(1) by simp
    moreover have "\<forall>u \<in> set ts. \<forall>t' \<ge> u. filter (\<lambda>x. t' - x \<le> interval) (recent @ [t])
        = filter (\<lambda>x. t' - x \<le> interval) (acc @ [t])"
      using later Cons.prems(1) by (auto simp: sorted_append)
    moreover have "interval < (acc @ [t]) ! (i + unat burst) - (acc @ [t]) ! i"
      if i: "i + unat burst < length (acc @ [t])" for i
    proof (cases "i + unat burst < length acc")
      case True
      then show ?thesis using Cons.prems(3) by (simp add: nth_append)
    next
      case False
      with i have len: "i + unat burst = length acc" by simp
      have pos: "0 < unat burst" using assms(1) by (simp add: unat_gt_0)
      have "\<not> t - acc ! i \<le> interval"
      proof
        assume near: "t - acc ! i \<le> interval"
        have "t - x \<le> interval" if "x \<in> set (drop i acc)" for x
        proof -
          from that obtain j where j: "j < length acc - i" "x = acc ! (i + j)"
            by (auto simp: in_set_conv_nth)
          have "sorted acc" using Cons.prems(1) by (simp add: sorted_append)
          then have "acc ! i \<le> x" using j by (simp add: sorted_nth_mono)
          with near show ?thesis by simp
        qed
        then have "filter (\<lambda>x. t - x \<le> interval) (drop i acc) = drop i acc" by simp
        moreover have "recent = filter (\<lambda>x. t - x \<le> interval) (take i acc) @ filter (\<lambda>x. t - x \<le> interval) (drop i acc)"
          unfolding rec by (metis append_take_drop_id filter_append)
        ultimately have "unat burst \<le> length recent" using len by simp
        with \<open>\<not> unat burst \<le> length recent\<close> show False by simp
      qed
      then show ?thesis using len pos by (simp add: nth_append)
    qed
    ultimately show ?thesis
      using Cons.IH[of "acc @ [t]" "recent @ [t]"] False assms(1)
      by (simp add: restart_gate_def recent_def[symmetric])
  qed
qed simp

text \<open>
  C16: the limit holds over any run, not only at one instant: however often a service fails, of
  the restarts that are let through any two that are burst many apart are further apart in
  time than the interval, so no window of that length holds more than burst of them.
\<close>

theorem restart_rate_limit:
  assumes "0 < burst" "sorted ts" "i + unat burst < length (gate_run burst interval ts [])"
  shows "interval < gate_run burst interval ts [] ! (i + unat burst) - gate_run burst interval ts [] ! i"
  using gate_run_window[OF assms(1), of "[]" ts interval "[]"] assms(2,3) by simp

theorem restart_rate_limit_witness:
  "gate_run 2 10 [0, 1, 2, 3, 11, 12] [] = [0, 1, 11, 12] \<and> (10::nat) < 11 - 0"
proof -
  have run: "gate_run 2 10 [0, 1, 2, 3, 11, 12] [] = [0, 1, 11, 12]" by code_simp
  from restart_rate_limit[of 2 "[0, 1, 2, 3, 11, 12]" 0 10] run show ?thesis by simp
qed

section \<open>What an exit leads to\<close>

lemma maybe_schedule_restart_eq:
  assumes "i < length (metas s)" "get_unit (registry s) i = Some u" "service_of (lu_file u) = Some svc"
    and "k_now k w = (now, w1)"
    and gate: "gate = restart_gate (start_limit_burst svc)
      (duration_or (start_limit_interval_sec svc) 10) now (restart_history (metas s ! i))"
  shows "maybe_schedule_restart k i clean signaled (s, w) =
    (if \<not> wants_restart (restart svc) clean signaled then Some (s, w)
     else if \<not> snd gate then
       Some (s\<lparr>metas := (metas s)[i := (metas s ! i)\<lparr>restart_history := fst gate, um_state := UnitFailed\<rparr>]\<rparr>, w1)
     else map_option (\<lambda>at.
       (s\<lparr>metas := (metas s)[i := (metas s ! i)\<lparr>restart_history := fst gate\<rparr>],
          pending_restarts := pending_restarts s @ [\<lparr>pr_unit = i, fire_at = at\<rparr>]\<rparr>, w1))
       (instant_add now (duration_or (restart_sec svc) 5)))"
  using assms
  by (auto simp: maybe_schedule_restart_def unit_meta_of_def update_meta_def set_state_def Let_def
      bind_Some_map)


section \<open>Shutdown\<close>

text \<open>A supervisor that is stopping, with no restart queued.\<close>

definition winding_down :: "supervisor \<Rightarrow> supervisor \<Rightarrow> bool" where
  "winding_down s s' \<longleftrightarrow>
     shutting_down s' \<and> pending_restarts s' = [] \<and> length (metas s') = length (metas s)
     \<and> (\<forall>i < length (metas s). um_pid (metas s' ! i) = None \<or> um_pid (metas s' ! i) = um_pid (metas s ! i))"

lemma winding_down_refl: "shutting_down s \<Longrightarrow> pending_restarts s = [] \<Longrightarrow> winding_down s s"
  by (simp add: winding_down_def)

lemma winding_down_exit:
  assumes "winding_down s0 s" "on_child_exit k pid status (s, w) = Some sw'"
  shows "winding_down s0 (fst sw')"
  using assms(2)
proof (cases rule: on_child_exit_cases)
  case untracked
  with assms(1) show ?thesis by simp
next
  case (tracked i s1 s2 s3 w3)
  from assms(1) have down: "shutting_down s" "pending_restarts s = []" by (auto simp: winding_down_def)
  have s2: "i < length (metas s)"
    "s2 = s\<lparr>by_pid := (by_pid s)(pid := None), metas := (metas s)[i := (metas s ! i)\<lparr>um_pid := None, um_state := Inactive\<rparr>]\<rparr>"
    using tracked(2,3) down by (auto simp: meta_updates exit_state_def)
  have "s3 = s2" "sw' = (s3, w3)" using tracked(4,5) down s2 by (auto split: if_splits)
  then show ?thesis
    using assms(1) s2 by (auto simp: winding_down_def nth_list_update)
qed

lemma winding_down_drain:
  assumes "drain_exits k expected sw = Some r" "winding_down s0 (fst sw)"
  shows "winding_down s0 (fst (snd r))"
  using assms
proof (induction rule: drain_exits.raw_induct[rotated, consumes 1, case_names step])
  case (step drain k expected sw r)
  obtain pid status w1 where w1: "k_waitpid k (-1) True (snd sw) = ((pid, status), w1)"
    by (metis surj_pair)
  show ?case
  proof (cases "0 < pid")
    case False
    with step(2,3) w1 show ?thesis by auto
  next
    case True
    with step(2) w1 obtain sw' where sw': "on_child_exit k pid status (fst sw, w1) = Some sw'"
      "drain k (removeAll pid expected) sw' = Some r"
      by (auto split: option.splits)
    from step(1)[OF sw'(2) winding_down_exit[OF step(3) sw'(1)]] show ?thesis .
  qed
qed


section \<open>Sample runs\<close>

definition root_service :: service_section where
  "root_service = sample_service\<lparr>user := ''root'', group := ''root''\<rparr>"

definition mk_service :: "string \<Rightarrow> service_section \<Rightarrow> string list \<Rightarrow> loaded_unit" where
  "mk_service name svc rs =
     \<lparr>lu_name = name,
      lu_file = \<lparr>unit_of = default_unit_section\<lparr>requires := rs\<rparr>, service_of = Some svc,
                install_of = default_install_section\<rparr>\<rparr>"

definition sample_units :: "loaded_unit list" where
  "sample_units =
     [mk_service ''db.service'' root_service [],
      mk_service ''web.service'' (root_service\<lparr>restart := RestartNo\<rparr>) [''db.service'']]"

definition sample_sup :: supervisor where
  "sample_sup = supervisor_from_loaded sample_units True"

text \<open>Children that live one second and exit cleanly, or far longer.\<close>

definition sample_world :: "nat list \<Rightarrow> sim" where
  "sample_world lives = \<lparr>sim_time = 0, sim_children = [], sim_fates = map (\<lambda>l. (l * 1000000000, 0)) lives\<rparr>"

text \<open>The process ids the supervisor and the world hold at the end of a run.\<close>

fun view :: "(supervisor \<times> sim) option \<Rightarrow> ((unit_active_state \<times> int option) list \<times> int list) option" where
  "view None = None"
| "view (Some (s, w)) = Some (map (\<lambda>m. (um_state m, um_pid m)) (metas s), map fst (sim_children w))"

lemma view_SomeE:
  assumes "view r = Some v"
  obtains s w where "r = Some (s, w)"
  using assms by (cases r) auto

text \<open>A run: each operation is preceded by so many seconds of rest; iteration is in list order.\<close>

definition in_order :: hash_order where "in_order = (\<lambda>_ xs. xs)"

fun sample_run :: "(nat \<times> sup_event) list \<Rightarrow> supervisor \<times> sim \<Rightarrow> (supervisor \<times> sim) option" where
  "sample_run [] sw = Some sw"
| "sample_run ((d, e) # es) (s, w) =
     (case sup_step sim_kernel in_order e (s, w\<lparr>sim_time := sim_time w + d * 1000000000\<rparr>) of
        None \<Rightarrow> None
      | Some sw' \<Rightarrow> sample_run es sw')"

lemma sample_run_fold:
  "sample_run (map (Pair 0) es) sw = fold_opt (sup_step sim_kernel in_order) es sw"
proof (induction es arbitrary: sw)
  case (Cons e es)
  then show ?case by (cases sw) (simp split: option.split)
qed simp

lemma permuting_in_order: "permuting in_order"
  by (simp add: permuting_def in_order_def)

text \<open>
  Findings on this machine. A start by name leaves the unit's queued restart in place, and
  firing it does not look at the unit's state: the service runs twice, and stopping it
  then leaves one of the processes alive with the unit inactive.
\<close>

lemma start_leaves_queued_restart:
  "view (sample_run [(0, Ev_Start ''db.service''), (2, Ev_Reap), (0, Ev_Start ''db.service''), (10, Ev_Fire)]
           (sample_sup, sample_world [1, 100, 100]))
     = Some ([(Active, Some 101), (Inactive, None)], [100, 101])"
  "view (sample_run [(0, Ev_Start ''db.service''), (2, Ev_Reap), (0, Ev_Start ''db.service''), (10, Ev_Fire),
                     (0, Ev_Stop ''db.service'')]
           (sample_sup, sample_world [1, 100, 100]))
     = Some ([(Inactive, None), (Inactive, None)], [100])"
  by code_simp+

text \<open>
  While one unit is stopped every exit counts as planned: a service that must always run and
  dies meanwhile is neither failed nor restarted.
\<close>

lemma stop_swallows_restart:
  "map_option (pending_restarts \<circ> fst)
     (sample_run [(0, Ev_Start ''web.service''), (2, Ev_Stop ''web.service'')] (sample_sup, sample_world [1, 100]))
     = Some []"
  "view (sample_run [(0, Ev_Start ''web.service''), (2, Ev_Stop ''web.service'')] (sample_sup, sample_world [1, 100]))
     = Some ([(Inactive, None), (Inactive, None)], [])"
  by code_simp+

text \<open>A start by name is honoured during a shutdown; its process is never asked to stop.\<close>

lemma start_during_shutdown:
  "view (sample_run [(0, Ev_Shutdown), (0, Ev_Start ''db.service''), (1, Ev_Shutdown), (1, Ev_Reap)]
           (sample_sup, sample_world [100]))
     = Some ([(Active, Some 100), (Inactive, None)], [100])"
  by code_simp

text \<open>A timeout that parses but lies beyond the clock makes the supervisor panic.\<close>

lemma huge_timeout_panics:
  "parse_duration ''9223372036854775808s'' \<noteq> None
     \<and> wait_oneshot sim_kernel 100 (duration_or ''9223372036854775808s'' 30) (sample_world []) = None"
  by code_simp

section \<open>Witnesses\<close>

lemma sup_ok_sample: "sup_ok sample_sup"
  unfolding sample_sup_def supervisor_from_loaded_def by (intro sup_ok_new reg_ok_from_loaded)

theorem supervisor_invariant_witness:
  "\<exists>s w'. fold_opt (sup_step sim_kernel in_order) [Ev_Start ''web.service'', Ev_Reap, Ev_Fire]
       (supervisor_from_loaded sample_units True, sample_world [1, 100]) = Some (s, w')
     \<and> dom (by_pid s) \<subseteq> sim_pids w'"
proof -
  let ?run = "fold_opt (sup_step sim_kernel in_order) [Ev_Start ''web.service'', Ev_Reap, Ev_Fire]
       (supervisor_from_loaded sample_units True, sample_world [1, 100])"
  have "view (sample_run [(0, Ev_Start ''web.service''), (0, Ev_Reap), (0, Ev_Fire)]
       (supervisor_from_loaded sample_units True, sample_world [1, 100]))
     = Some ([(Active, Some 100), (Active, Some 101)], [100, 101])"
    by code_simp
  then have "view ?run = Some ([(Active, Some 100), (Active, Some 101)], [100, 101])"
    unfolding sample_run_fold[symmetric] by (simp only: list.map)
  then obtain s w' where r: "?run = Some (s, w')" by (rule view_SomeE)
  have "dom (by_pid s) \<subseteq> sim_pids w'"
    using supervisor_invariant[OF sim_kernel_ok r] by (elim conjE) assumption
  with r show ?thesis by (intro exI conjI)
qed

definition failed_sup :: supervisor where
  "failed_sup = sample_sup\<lparr>metas := (metas sample_sup)[0 := (metas sample_sup ! 0)\<lparr>um_state := UnitFailed\<rparr>]\<rparr>"


theorem wait_oneshot_returns_witness:
  "\<exists>w'. wait_oneshot sim_kernel 100 50000000
      \<lparr>sim_time = 7, sim_children = [(100, 1000000000, 0)], sim_fates = []\<rparr> = Some (TimedOut, w')
    \<and> 50000007 \<le> sim_time w'"
proof -
  let ?w = "\<lparr>sim_time = 7, sim_children = [(100, 1000000000, 0)], sim_fates = []\<rparr> :: sim"
  have "map_option fst (wait_oneshot sim_kernel 100 50000000 ?w) = Some TimedOut" by code_simp
  then obtain w' where "wait_oneshot sim_kernel 100 50000000 ?w = Some (TimedOut, w')" by auto
  with wait_oneshot_returns[where pid = 100 and timeout = 50000000 and w = ?w, OF sim_clock_ok] show ?thesis by auto
qed

theorem spawn_outcome_witness:
  "case spawn sim_kernel sample_request (sample_world [1]) of
      (Inl e, w') \<Rightarrow> sim_pids w' = {} | (Inr pid, w') \<Rightarrow> False"
proof -
  have "case spawn sim_kernel sample_request (sample_world [1]) of (Inl e, w') \<Rightarrow> True | (Inr pid, w') \<Rightarrow> False"
    by code_simp
  moreover have "sim_pids (sample_world [1]) = {}" by (simp add: sim_pids_def sample_world_def)
  ultimately show ?thesis
    using spawn_outcome[where req = sample_request and w = "sample_world [1]", OF sim_kernel_ok]
    by (simp split: prod.splits sum.splits)
qed

text \<open>The sample supervisor with its first unit running as process 100.\<close>

definition running_sup :: supervisor where
  "running_sup = sample_sup\<lparr>
     metas := (metas sample_sup)[0 := (metas sample_sup ! 0)\<lparr>um_pid := Some 100\<rparr>],
     by_pid := [100 \<mapsto> 0]\<rparr>"

definition running_world :: sim where
  "running_world = \<lparr>sim_time = 0, sim_children = [(100, 9000000000, 0)], sim_fates = []\<rparr>"

lemma sup_ok_running: "sup_ok running_sup"
proof -
  have empty: "by_pid sample_sup = Map.empty"
    by (simp add: sample_sup_def supervisor_from_loaded_def new_supervisor_def)
  have len: "length (metas sample_sup) = 2" by code_simp
  have "set_pid 0 (Some 100) sample_sup
      = Some (sample_sup\<lparr>metas := (metas sample_sup)[0 := (metas sample_sup ! 0)\<lparr>um_pid := Some 100\<rparr>]\<rparr>)"
    by (simp add: set_pid_Some len)
  from sup_ok_track[OF sup_ok_sample this, of ] show ?thesis by (simp add: empty running_sup_def)
qed




end
