(* ===== verification/Control.thy ===== *)
theory Control
  imports Lifecycle
begin

text \<open>
  The control plane: the stubs of enabled.d (crates/writeonce-svc/src/enabled.rs), the request
  handlers of control.rs and the client src/bin/wo-ctl.rs. A connection is the lines sent on
  it, with an argument that says which write fails; the text of an I/O error and the derived
  Debug text of a transaction error are arguments too. A handler works on the supervisor, the
  world and the connection.
\<close>

section \<open>Paths\<close>

text \<open>\<open>Path::extension\<close> of a file name: what follows the last dot, if something precedes it.\<close>

definition path_extension :: "string \<Rightarrow> string option" where
  "path_extension name =
     (let r = rev name; stem = dropWhile (\<lambda>c. c \<noteq> CHR ''.'') r in
      if name = ''..'' \<or> stem = [] \<or> tl stem = [] then None
      else Some (rev (takeWhile (\<lambda>c. c \<noteq> CHR ''.'') r)))"

section \<open>Enabled units\<close>

definition de_stub :: "toml \<Rightarrow> string + string" where
  "de_stub v = bind_r (de_table v) (\<lambda>t. req_field de_string t ''unit'')"

text \<open>The units one entry of the directory enables; entries that cannot be listed are skipped.\<close>

definition stub_unit :: "(string \<Rightarrow> string + toml) \<Rightarrow> io_error + dir_entry \<Rightarrow> string option" where
  "stub_unit parse e =
     (case e of
        Inl _ \<Rightarrow> None
      | Inr d \<Rightarrow>
          if de_is_file d \<and> path_extension (de_name d) = Some ''toml''
          then (case de_body d of
                  Inl _ \<Rightarrow> None
                | Inr body \<Rightarrow> (case bind_r (parse body) de_stub of Inl _ \<Rightarrow> None | Inr u \<Rightarrow> Some u))
          else None)"

definition enabled_load ::
  "'w kernel \<Rightarrow> (string \<Rightarrow> string + toml) \<Rightarrow> string \<Rightarrow> 'w \<Rightarrow> (io_error + string list) \<times> 'w" where
  "enabled_load k parse dir w =
     (case k_read_dir k dir w of
        (Inl e, w') \<Rightarrow> if e = Not_Found then (Inr [], w') else (Inl e, w')
      | (Inr entries, w') \<Rightarrow> (Inr (dedup (sort (List.map_filter (stub_unit parse) entries))), w'))"

definition stub_path :: "string \<Rightarrow> string \<Rightarrow> string" where
  "stub_path dir name = path_join dir (name @ ''.toml'')"

definition stub_body :: "string \<Rightarrow> string" where
  "stub_body name =
     ''# Stub written by wo-ctl. Removing this file disables '' @ name @ ''.'' @ [LF]
     @ ''unit = '' @ [CHR 0x22] @ name @ [CHR 0x22, LF]"

definition enabled_enable :: "'w kernel \<Rightarrow> string \<Rightarrow> string \<Rightarrow> 'w \<Rightarrow> (io_error + string) \<times> 'w" where
  "enabled_enable k dir name w =
     then_r (k_create_dir_all k dir w) (\<lambda>_ w.
     then_r (k_write_file k (stub_path dir name) (stub_body name) w) (\<lambda>_ w.
       (Inr (stub_path dir name), w)))"

definition enabled_disable :: "'w kernel \<Rightarrow> string \<Rightarrow> string \<Rightarrow> 'w \<Rightarrow> (io_error + bool) \<times> 'w" where
  "enabled_disable k dir name w =
     (case k_remove_file k (stub_path dir name) w of
        (Inr _, w') \<Rightarrow> (Inr True, w')
      | (Inl e, w') \<Rightarrow> if e = Not_Found then (Inr False, w') else (Inl e, w'))"

section \<open>Connections\<close>

record conn =
  sent :: "string list"
  writes :: nat

text \<open>Arguments of the handlers that are not under the sources.\<close>

record ctl_env =
  io_text :: "io_error \<Rightarrow> string"
  debug_text :: "transaction_error \<Rightarrow> string"
  write_fails :: "nat \<Rightarrow> io_error option"
  parse_toml :: "string \<Rightarrow> string + toml"
  hash_iter :: hash_order

type_synonym 'w ctl = "supervisor \<times> 'w \<times> conn"

text \<open>\<open>writeln!\<close>: the n-th write of the connection may fail.\<close>

definition write_line :: "ctl_env \<Rightarrow> string \<Rightarrow> conn \<Rightarrow> (string + unit) \<times> conn" where
  "write_line env l c =
     (case write_fails env (writes c) of
        None \<Rightarrow> (Inr (), c\<lparr>sent := sent c @ [l], writes := Suc (writes c)\<rparr>)
      | Some e \<Rightarrow> (Inl (io_text env e), c\<lparr>writes := Suc (writes c)\<rparr>))"

fun write_lines :: "ctl_env \<Rightarrow> string list \<Rightarrow> conn \<Rightarrow> (string + unit) \<times> conn" where
  "write_lines env [] c = (Inr (), c)"
| "write_lines env (l # ls) c =
     (case write_line env l c of
        (Inl e, c') \<Rightarrow> (Inl e, c')
      | (Inr _, c') \<Rightarrow> write_lines env ls c')"

text \<open>The question mark between steps that may also panic.\<close>

definition ctl_then ::
  "((string + 'a) \<times> 'w ctl) option \<Rightarrow> ('a \<Rightarrow> 'w ctl \<Rightarrow> ((string + 'b) \<times> 'w ctl) option)
     \<Rightarrow> ((string + 'b) \<times> 'w ctl) option" where
  "ctl_then r f =
     (case r of None \<Rightarrow> None | Some (Inl e, st) \<Rightarrow> Some (Inl e, st) | Some (Inr x, st) \<Rightarrow> f x st)"

definition ctl_write :: "ctl_env \<Rightarrow> string list \<Rightarrow> 'w ctl \<Rightarrow> ((string + unit) \<times> 'w ctl) option" where
  "ctl_write env ls st = (case st of (s, w, c) \<Rightarrow>
     (case write_lines env ls c of (r, c') \<Rightarrow> Some (r, s, w, c')))"

definition ctl_io ::
  "('w \<Rightarrow> (io_error + 'a) \<times> 'w) \<Rightarrow> (io_error \<Rightarrow> string) \<Rightarrow> 'w ctl \<Rightarrow> ((string + 'a) \<times> 'w ctl) option" where
  "ctl_io f msg st = (case st of (s, w, c) \<Rightarrow>
     (case f w of (r, w') \<Rightarrow> Some (map_err msg r, s, w', c)))"

text \<open>An operation of the supervisor, its error printed with Debug.\<close>

definition ctl_sup ::
  "ctl_env \<Rightarrow> (supervisor \<times> 'w \<Rightarrow> ((transaction_error + unit) \<times> supervisor \<times> 'w) option)
     \<Rightarrow> 'w ctl \<Rightarrow> ((string + unit) \<times> 'w ctl) option" where
  "ctl_sup env f st = (case st of (s, w, c) \<Rightarrow>
     map_option (\<lambda>(r, s', w'). (map_err (debug_text env) r, s', w', c)) (f (s, w)))"

section \<open>Handlers\<close>

fun state_text :: "unit_active_state \<Rightarrow> string" where
  "state_text Inactive = ''Inactive''"
| "state_text Activating = ''Activating''"
| "state_text Active = ''Active''"
| "state_text Deactivating = ''Deactivating''"
| "state_text UnitFailed = ''Failed''"

fun type_text :: "service_type \<Rightarrow> string" where
  "type_text Simple = ''Simple''"
| "type_text Forking = ''Forking''"
| "type_text Oneshot = ''Oneshot''"
| "type_text Notify = ''Notify''"

fun restart_text :: "restart_policy \<Rightarrow> string" where
  "restart_text RestartNo = ''No''"
| "restart_text Always = ''Always''"
| "restart_text OnFailure = ''OnFailure''"
| "restart_text OnAbnormal = ''OnAbnormal''"


text \<open>One line of LIST; the derived Debug text is written without its width.\<close>

definition list_line :: "supervisor \<Rightarrow> unit_id \<Rightarrow> string option" where
  "list_line s i = do {
     name \<leftarrow> name_of (registry s) i;
     m \<leftarrow> unit_meta_of s i;
     Some (pad_right 32 name @ ''  '' @ state_text (um_state m) @ ''  pid=''
           @ (case um_pid m of None \<Rightarrow> em_dash | Some p \<Rightarrow> show_int p)) }"

definition ctl_list :: "ctl_env \<Rightarrow> 'w ctl \<Rightarrow> ((string + unit) \<times> 'w ctl) option" where
  "ctl_list env st = do {
     ls \<leftarrow> those (map (list_line (fst st)) [0..<registry_len (registry (fst st))]);
     ctl_write env ls st }"

definition status_lines :: "supervisor \<Rightarrow> unit_id \<Rightarrow> string list option" where
  "status_lines s i = do {
     m \<leftarrow> unit_meta_of s i;
     u \<leftarrow> get_unit (registry s) i;
     Some ([''name:        '' @ lu_name u,
            ''description: '' @ description (unit_of (lu_file u)),
            ''state:       '' @ state_text (um_state m)]
           @ (case um_pid m of None \<Rightarrow> [] | Some p \<Rightarrow> [''pid:         '' @ show_int p])
           @ (case service_of (lu_file u) of
                None \<Rightarrow> []
              | Some svc \<Rightarrow>
                  [''type:        '' @ type_text (kind svc),
                   ''restart:     '' @ restart_text (restart svc),
                   ''exec-start:  '' @ exec_start svc])) }"

text \<open>The unit a command names, or the error of a command without one.\<close>

definition need_name ::
  "string \<Rightarrow> string option \<Rightarrow> (string \<Rightarrow> 'w ctl \<Rightarrow> ((string + unit) \<times> 'w ctl) option)
     \<Rightarrow> 'w ctl \<Rightarrow> ((string + unit) \<times> 'w ctl) option" where
  "need_name cmd name f st =
     (case name of None \<Rightarrow> Some (Inl (cmd @ '' requires a unit name''), st) | Some n \<Rightarrow> f n st)"

definition ctl_status :: "ctl_env \<Rightarrow> string option \<Rightarrow> 'w ctl \<Rightarrow> ((string + unit) \<times> 'w ctl) option" where
  "ctl_status env name = need_name ''STATUS'' name (\<lambda>n st.
     case lookup_unit (registry (fst st)) n of
       None \<Rightarrow> Some (Inl (''unknown unit: '' @ n), st)
     | Some i \<Rightarrow> do { ls \<leftarrow> status_lines (fst st) i; ctl_write env ls st })"

definition ctl_start ::
  "'w kernel \<Rightarrow> ctl_env \<Rightarrow> string option \<Rightarrow> 'w ctl \<Rightarrow> ((string + unit) \<times> 'w ctl) option" where
  "ctl_start k env name = need_name ''START'' name (\<lambda>n st.
     ctl_then (ctl_write env [''writeonce-svc: starting '' @ n] st) (\<lambda>_.
       ctl_sup env (start_named k (hash_iter env) n)))"

definition ctl_stop ::
  "'w kernel \<Rightarrow> ctl_env \<Rightarrow> string option \<Rightarrow> 'w ctl \<Rightarrow> ((string + unit) \<times> 'w ctl) option" where
  "ctl_stop k env name = need_name ''STOP'' name (\<lambda>n st.
     ctl_then (ctl_write env [''writeonce-svc: stopping '' @ n] st) (\<lambda>_.
       ctl_sup env (stop_unit k (hash_iter env) n)))"

text \<open>Errors of a step that are dropped (\<open>let _ = ...\<close>).\<close>

definition ctl_try :: "((string + 'a) \<times> 'w ctl) option \<Rightarrow> ((string + unit) \<times> 'w ctl) option" where
  "ctl_try r = map_option (\<lambda>(_, st). (Inr (), st)) r"

definition ctl_restart ::
  "'w kernel \<Rightarrow> ctl_env \<Rightarrow> string option \<Rightarrow> 'w ctl \<Rightarrow> ((string + unit) \<times> 'w ctl) option" where
  "ctl_restart k env name = need_name ''RESTART'' name (\<lambda>n st.
     ctl_then (ctl_try (ctl_write env [''writeonce-svc: restarting '' @ n] st)) (\<lambda>_ st.
     ctl_then (ctl_sup env (stop_unit k (hash_iter env) n) st) (\<lambda>_.
       ctl_sup env (start_named k (hash_iter env) n))))"

text \<open>The last steps of ENABLE: the virtual wanted-by edge, then the start.\<close>

definition enable_link :: "'w kernel \<Rightarrow> ctl_env \<Rightarrow> string \<Rightarrow> 'w ctl \<Rightarrow> ((string + unit) \<times> 'w ctl) option" where
  "enable_link k env n st =
     (case add_wanted_by (registry (fst st)) ''multi-user.target'' n of
        Inl e \<Rightarrow> Some (Inl e, st)
      | Inr reg \<Rightarrow>
          ctl_then (ctl_write env [''writeonce-svc: starting '' @ n] ((fst st)\<lparr>registry := reg\<rparr>, snd st))
            (\<lambda>_. ctl_sup env (start_named k (hash_iter env) n)))"

definition enable_of :: "'w kernel \<Rightarrow> ctl_env \<Rightarrow> string \<Rightarrow> 'w ctl \<Rightarrow> ((string + unit) \<times> 'w ctl) option" where
  "enable_of k env n st =
     (if lookup_unit (registry (fst st)) n = None then Some (Inl (''unknown unit: '' @ n), st)
      else
        ctl_then (ctl_io (enabled_enable k (enabled_d (fst st)) n)
                    (\<lambda>e. ''write enabled.d stub: '' @ io_text env e) st) (\<lambda>path st.
        ctl_then (ctl_write env [''writeonce-svc: enabled '' @ n @ '' '' @ right_arrow @ '' '' @ path] st)
          (\<lambda>_. enable_link k env n)))"

definition ctl_enable ::
  "'w kernel \<Rightarrow> ctl_env \<Rightarrow> string option \<Rightarrow> 'w ctl \<Rightarrow> ((string + unit) \<times> 'w ctl) option" where
  "ctl_enable k env name = need_name ''ENABLE'' name (enable_of k env)"

definition ctl_disable ::
  "'w kernel \<Rightarrow> ctl_env \<Rightarrow> string option \<Rightarrow> 'w ctl \<Rightarrow> ((string + unit) \<times> 'w ctl) option" where
  "ctl_disable k env name = need_name ''DISABLE'' name (\<lambda>n st.
     ctl_then (ctl_write env [''writeonce-svc: stopping '' @ n] st) (\<lambda>_ st.
     ctl_then (ctl_try (ctl_sup env (stop_unit k (hash_iter env) n) st)) (\<lambda>_ st.
     ctl_then (ctl_io (enabled_disable k (enabled_d (fst st)) n)
                 (\<lambda>e. ''remove enabled.d stub: '' @ io_text env e) st) (\<lambda>removed.
       ctl_write env
         [(if removed then ''writeonce-svc: removed enabled.d stub for ''
           else ''writeonce-svc: no enabled.d stub for '') @ n]))))"

text \<open>The last \<open>n\<close> lines of a log.\<close>

definition tail_lines :: "nat \<Rightarrow> string \<Rightarrow> string list" where
  "tail_lines n body = (let all = lines body in drop (length all - n) all)"

definition journal_of ::
  "'w kernel \<Rightarrow> ctl_env \<Rightarrow> string option \<Rightarrow> string \<Rightarrow> 'w ctl \<Rightarrow> ((string + unit) \<times> 'w ctl) option" where
  "journal_of k env n_lines u st = (case st of (s, w, c) \<Rightarrow>
     if lookup_unit (registry s) u = None then Some (Inl (''unknown unit: '' @ u), st)
     else
       let n = (case Option.bind n_lines (parse_uint (2 ^ 64)) of None \<Rightarrow> 50 | Some n \<Rightarrow> n);
           path = log_dir s @ ''/'' @ u @ ''.log'' in
       case k_read_file k path w of
         (Inr body, w') \<Rightarrow> ctl_write env (tail_lines n body) (s, w', c)
       | (Inl e, w') \<Rightarrow>
           if e = Not_Found then ctl_write env [''(no log at '' @ path @ '')''] (s, w', c)
           else Some (Inl (''read '' @ path @ '': '' @ io_text env e), s, w', c))"

definition ctl_journal ::
  "'w kernel \<Rightarrow> ctl_env \<Rightarrow> string option \<Rightarrow> string option \<Rightarrow> 'w ctl \<Rightarrow> ((string + unit) \<times> 'w ctl) option" where
  "ctl_journal k env name n_lines = need_name ''JOURNAL'' name (journal_of k env n_lines)"

definition cgroup_base :: string where "cgroup_base = ''/sys/fs/cgroup/wo.slice''"

text \<open>The line of one cgroup; a process list that cannot be read counts as empty.\<close>

definition cgroup_line :: "'w kernel \<Rightarrow> string \<Rightarrow> 'w \<Rightarrow> string \<times> 'w" where
  "cgroup_line k d w =
     (case k_read_file k (cgroup_base @ ''/'' @ d @ ''/cgroup.procs'') w of (r, w') \<Rightarrow>
        (cgroup_base @ ''/'' @ d @ ''  pids=[''
           @ join '','' (split_whitespace (case r of Inl _ \<Rightarrow> [] | Inr procs \<Rightarrow> procs)) @ '']'', w'))"

fun cgroup_lines :: "'w kernel \<Rightarrow> ctl_env \<Rightarrow> string list \<Rightarrow> 'w ctl \<Rightarrow> ((string + unit) \<times> 'w ctl) option" where
  "cgroup_lines k env [] st = Some (Inr (), st)"
| "cgroup_lines k env (d # ds) (s, w, c) =
     (case cgroup_line k d w of (l, w') \<Rightarrow>
        ctl_then (ctl_write env [l] (s, w', c)) (\<lambda>_. cgroup_lines k env ds))"

definition ctl_cgroups :: "'w kernel \<Rightarrow> ctl_env \<Rightarrow> 'w ctl \<Rightarrow> ((string + unit) \<times> 'w ctl) option" where
  "ctl_cgroups k env st = (case st of (s, w, c) \<Rightarrow>
     case k_read_dir k cgroup_base w of
       (Inl e, w') \<Rightarrow>
         if e = Not_Found then ctl_write env [''(no cgroup hierarchy at '' @ cgroup_base @ '')''] (s, w', c)
         else Some (Inl (''read '' @ cgroup_base @ '': '' @ io_text env e), s, w', c)
     | (Inr entries, w') \<Rightarrow>
         let dirs = sort (List.map_filter (\<lambda>e. case e of Inl _ \<Rightarrow> None
               | Inr d \<Rightarrow> if de_is_dir d \<and> de_utf8 d then Some (de_name d) else None) entries) in
         ctl_then (if dirs = [] then ctl_write env [''(no service cgroups under '' @ cgroup_base @ '')''] (s, w', c)
                   else Some (Inr (), s, w', c)) (\<lambda>_. cgroup_lines k env dirs))"

definition ctl_enabled :: "'w kernel \<Rightarrow> ctl_env \<Rightarrow> 'w ctl \<Rightarrow> ((string + unit) \<times> 'w ctl) option" where
  "ctl_enabled k env st =
     ctl_then (ctl_io (enabled_load k (parse_toml env) (enabled_d (fst st)))
                 (\<lambda>e. ''read enabled.d: '' @ io_text env e) st) (\<lambda>us.
       ctl_write env (if us = [] then [''(no units enabled)''] else us))"

section \<open>Requests\<close>

text \<open>The commands, by the upper-cased first word; the flag is the request to shut down.\<close>

definition run_command ::
  "'w kernel \<Rightarrow> ctl_env \<Rightarrow> string list \<Rightarrow> 'w ctl \<Rightarrow> (bool \<times> (string + unit) \<times> 'w ctl) option" where
  "run_command k env parts st =
     (let cmd = to_ascii_uppercase (hd parts); arg = nth_opt parts 1;
          plain = map_option (\<lambda>r. (False, r)) in
      if cmd = ''LIST'' then plain (ctl_list env st)
      else if cmd = ''STATUS'' then plain (ctl_status env arg st)
      else if cmd = ''START'' then plain (ctl_start k env arg st)
      else if cmd = ''STOP'' then plain (ctl_stop k env arg st)
      else if cmd = ''RESTART'' then plain (ctl_restart k env arg st)
      else if cmd = ''ENABLE'' then plain (ctl_enable k env arg st)
      else if cmd = ''DISABLE'' then plain (ctl_disable k env arg st)
      else if cmd = ''ENABLED'' then plain (ctl_enabled k env st)
      else if cmd = ''JOURNAL'' then plain (ctl_journal k env arg (nth_opt parts 2) st)
      else if cmd = ''CGROUPS'' then plain (ctl_cgroups k env st)
      else if cmd = ''SHUTDOWN''
      then map_option (\<lambda>r. (True, r)) (ctl_try (ctl_write env [''writeonce-svc: shutdown initiated''] st))
      else Some (False, Inl (''unknown command: '' @ cmd), st))"

text \<open>One connection: the request line as it was read, then the reply and its final line.\<close>

definition last_write :: "ctl_env \<Rightarrow> string \<Rightarrow> 'w ctl \<Rightarrow> 'w ctl" where
  "last_write env l st = (case st of (s, w, c) \<Rightarrow> (s, w, snd (write_line env l c)))"

definition handle_one ::
  "'w kernel \<Rightarrow> ctl_env \<Rightarrow> io_error + string \<Rightarrow> 'w ctl \<Rightarrow> (bool \<times> 'w ctl) option" where
  "handle_one k env read st =
     (case read of
        Inl _ \<Rightarrow> Some (False, last_write env ''err: read failed'' st)
      | Inr line \<Rightarrow>
          let parts = split_whitespace (trim_end_matches (\<lambda>c. c = CR \<or> c = LF) line) in
          if parts = [] then Some (False, last_write env ''err: empty request'' st)
          else map_option (\<lambda>(down, r, st').
                 (down, last_write env (case r of Inr _ \<Rightarrow> ''ok'' | Inl e \<Rightarrow> ''err: '' @ e) st'))
                 (run_command k env parts st))"

text \<open>
  Everything that waits to be accepted, until the listener has no more: each connection with
  what its request line reads as and how its writes fail. The connections as they end are
  returned beside the request to shut down.
\<close>

fun handle_ready ::
  "'w kernel \<Rightarrow> (io_error + ctl_env \<times> (io_error + string)) list \<Rightarrow> supervisor \<times> 'w
     \<Rightarrow> (bool \<times> conn list \<times> supervisor \<times> 'w) option" where
  "handle_ready k [] sw = Some (False, [], sw)"
| "handle_ready k (Inl e # as) sw = Some (False, [], sw)"
| "handle_ready k (Inr (env, read) # as) (s, w) = do {
     (down, s', w', c) \<leftarrow> handle_one k env read (s, w, \<lparr>sent = [], writes = 0\<rparr>);
     (down', cs, sw') \<leftarrow> handle_ready k as (s', w');
     Some (down \<or> down', c # cs, sw') }"

section \<open>The client\<close>

datatype client_args = Usage | Request string "string list"

text \<open>The arguments after the program name: the socket and the words of the command.\<close>

fun client_parse :: "string list \<Rightarrow> string \<Rightarrow> string list \<Rightarrow> client_args" where
  "client_parse [] sock cmd = (if cmd = [] then Usage else Request sock cmd)"
| "client_parse (a # as) sock cmd =
     (if a = ''--socket'' then (case as of [] \<Rightarrow> Usage | v # rest \<Rightarrow> client_parse rest v cmd)
      else if a = ''-h'' \<or> a = ''--help'' then Usage
      else client_parse as sock (cmd @ [a]))"

definition request_line :: "string list \<Rightarrow> string" where
  "request_line cmd = join '' '' cmd"

text \<open>The exit status, from the lines of the reply.\<close>

definition client_exit :: "string list \<Rightarrow> nat" where
  "client_exit reply =
     (let l = (if reply = [] then [] else last reply) in
      if l = ''ok'' then 0 else if starts_with ''err:'' l then 1 else 0)"

section \<open>The wire\<close>

lemma split_whitespace_join: "split_whitespace (join '' '' xs) = concat (map split_whitespace xs)"
  by (induction xs rule: induct_list012) (simp_all add: split_whitespace_word_append)

lemma request_words:
  "split_whitespace (trim_end_matches (\<lambda>c. c = CR \<or> c = LF) (request_line cmd @ [LF]))
     = concat (map split_whitespace cmd)"
proof -
  have "split_whitespace (trim_end_matches (\<lambda>c. c = CR \<or> c = LF) (request_line cmd @ [LF]))
      = split_whitespace (request_line cmd @ [LF])"
    by (rule split_whitespace_trim_end) auto
  then show ?thesis
    using split_whitespace_word_append[of LF "request_line cmd" "[]"]
    by (simp add: request_line_def split_whitespace_join)
qed

lemma client_parse_words:
  "client_parse args sock cmd = Request sock' cmd' \<Longrightarrow>
     cmd' \<noteq> [] \<and> (\<exists>rest. cmd' = cmd @ rest \<and> set rest \<subseteq> set args)"
proof (induction args sock cmd rule: client_parse.induct)
  case (2 a as sock cmd)
  show ?case
  proof (cases "a = ''--socket''")
    case True
    with 2 show ?thesis by (cases as) fastforce+
  next
    case False
    with 2 show ?thesis by (fastforce split: if_splits)
  qed
qed (auto split: if_splits)



text \<open>
  On a connection that accepts the reply, every request is answered by a last line that
  is \<open>ok\<close> or starts with \<open>err: \<close>, the client leaves with status 0 exactly for \<open>ok\<close>, and only
  the command SHUTDOWN, in any case, asks the supervisor to shut down.
\<close>

lemma reply_status:
  assumes "\<forall>n. write_fails env n = None"
    and "handle_one k env read (s, w, c) = Some (down, s', w', c')"
  shows "((\<exists>e. last (sent c') = ''err: '' @ e \<and> client_exit (sent c') = 1)
       \<or> last (sent c') = ''ok'' \<and> client_exit (sent c') = 0)
    \<and> (down \<longleftrightarrow> (\<exists>line. read = Inr line \<and> split_whitespace line \<noteq> []
           \<and> to_ascii_uppercase (hd (split_whitespace line)) = ''SHUTDOWN''))"
proof -
  have last: "sent (snd (write_line env l d)) = sent d @ [l]" for l d
    using assms(1) by (simp add: write_line_def)
  have exit: "client_exit (xs @ [''err: '' @ e]) = 1" "client_exit (xs @ [''ok'']) = 0" for xs e
    by (simp_all add: client_exit_def starts_with_iff)
  have reply: "(\<exists>e. last (sent d) = ''err: '' @ e \<and> client_exit (sent d) = 1)
       \<or> last (sent d) = ''ok'' \<and> client_exit (sent d) = 0"
    if "last_write env l st = (s1, w1, d)" "l = ''ok'' \<or> (\<exists>e. l = ''err: '' @ e)" for l st s1 w1 d
    using that by (cases st) (auto simp: last_write_def last exit[simplified])
  show ?thesis
  proof (cases read)
    case (Inl e)
    with assms(2) have "last_write env (''err: '' @ ''read failed'') (s, w, c) = (s', w', c')" "\<not> down"
      by (simp_all add: handle_one_def)
    with reply[OF this(1)] Inl show ?thesis by blast
  next
    case (Inr line)
    let ?parts = "split_whitespace line"
    have parts: "split_whitespace (trim_end_matches (\<lambda>c. c = CR \<or> c = LF) line) = ?parts"
      by (rule split_whitespace_trim_end) auto
    show ?thesis
    proof (cases "?parts = []")
      case True
      with assms(2) Inr parts have "last_write env (''err: '' @ ''empty request'') (s, w, c) = (s', w', c')" "\<not> down"
        by (simp_all add: handle_one_def)
      with reply[OF this(1)] Inr True show ?thesis by blast
    next
      case False
      with assms(2) Inr parts obtain r st' where r: "run_command k env ?parts (s, w, c) = Some (down, r, st')"
        "last_write env (case r of Inr _ \<Rightarrow> ''ok'' | Inl e \<Rightarrow> ''err: '' @ e) st' = (s', w', c')"
        by (auto simp: handle_one_def)
      have "down \<longleftrightarrow> to_ascii_uppercase (hd ?parts) = ''SHUTDOWN''"
        using r(1) by (auto simp: run_command_def Let_def split: if_splits)
      with reply[OF r(2)] Inr False show ?thesis by (cases r) auto
    qed
  qed
qed

section \<open>Requests keep the supervisor's invariant\<close>

definition ctl_ok :: "('w \<Rightarrow> int set) \<Rightarrow> 'w ctl \<Rightarrow> bool" where
  "ctl_ok ch st \<longleftrightarrow> sup_inv ch (fst st, fst (snd st))"

definition keeps :: "('w \<Rightarrow> int set) \<Rightarrow> ('w ctl \<Rightarrow> ((string + 'a) \<times> 'w ctl) option) \<Rightarrow> bool" where
  "keeps ch f \<longleftrightarrow> (\<forall>st r st'. ctl_ok ch st \<longrightarrow> f st = Some (r, st') \<longrightarrow> ctl_ok ch st')"

named_theorems keeps_intros \<open>handlers that keep the supervisor's invariant\<close>

lemma keepsI [intro?]:
  "(\<And>st r st'. ctl_ok ch st \<Longrightarrow> f st = Some (r, st') \<Longrightarrow> ctl_ok ch st') \<Longrightarrow> keeps ch f"
  by (simp add: keeps_def)

lemma keepsD: "keeps ch f \<Longrightarrow> ctl_ok ch st \<Longrightarrow> f st = Some (r, st') \<Longrightarrow> ctl_ok ch st'"
  unfolding keeps_def by blast

lemma keeps_const [keeps_intros]: "keeps ch (\<lambda>st. Some (r, st))" by (simp add: keeps_def)

lemma keeps_write [keeps_intros]: "keeps ch (ctl_write env ls)"
  by rule (auto simp: ctl_write_def ctl_ok_def split: prod.splits)

lemma keeps_io [keeps_intros]: "(\<And>w. ch (snd (f w)) = ch w) \<Longrightarrow> keeps ch (ctl_io f msg)"
  by rule (auto simp: ctl_io_def ctl_ok_def sup_inv_def case_prod_beta)

lemma keeps_sup [keeps_intros]:
  assumes "\<And>sw r sw'. sup_inv ch sw \<Longrightarrow> f sw = Some (r, sw') \<Longrightarrow> sup_inv ch sw'"
  shows "keeps ch (ctl_sup env f)"
proof
  fix st r st' assume "ctl_ok ch st" "ctl_sup env f st = Some (r, st')"
  then show "ctl_ok ch st'"
    using assms by (cases st) (auto simp: ctl_sup_def ctl_ok_def)
qed

lemma keeps_then [keeps_intros]:
  assumes "keeps ch f" "\<And>x. keeps ch (g x)"
  shows "keeps ch (\<lambda>st. ctl_then (f st) g)"
proof
  fix st r st' assume "ctl_ok ch st" "ctl_then (f st) g = Some (r, st')"
  then obtain a st1 where f: "f st = Some (a, st1)" by (cases "f st") (auto simp: ctl_then_def)
  from keepsD[OF assms(1) \<open>ctl_ok ch st\<close> f] have 1: "ctl_ok ch st1" .
  show "ctl_ok ch st'"
  proof (cases a)
    case (Inr x)
    with \<open>ctl_then (f st) g = Some (r, st')\<close> f have "g x st1 = Some (r, st')" by (simp add: ctl_then_def)
    with keepsD[OF assms(2) 1] show ?thesis by blast
  qed (use \<open>ctl_then (f st) g = Some (r, st')\<close> f 1 in \<open>simp add: ctl_then_def\<close>)
qed

lemma keeps_try [keeps_intros]: "keeps ch f \<Longrightarrow> keeps ch (\<lambda>st. ctl_try (f st))"
  by rule (auto simp: ctl_try_def dest: keepsD)

lemma keeps_need_name [keeps_intros]: "(\<And>n. keeps ch (f n)) \<Longrightarrow> keeps ch (need_name cmd name f)"
  by rule (auto simp: need_name_def split: option.splits dest: keepsD)

lemma keeps_cases [keeps_intros]:
  "(\<And>st. keeps ch (f st)) \<Longrightarrow> keeps ch (\<lambda>st. f st st)"
  unfolding keeps_def by blast

lemma enabled_children:
  assumes "kernel_ok k ch"
  shows "ch (snd (enabled_load k parse dir w)) = ch w" "ch (snd (enabled_enable k dir name w)) = ch w"
    "ch (snd (enabled_disable k dir name w)) = ch w"
proof -
  show "ch (snd (enabled_load k parse dir w)) = ch w"
    using kernel_children(13)[OF assms, of dir w]
    by (cases "k_read_dir k dir w"; cases "fst (k_read_dir k dir w)") (simp_all add: enabled_load_def)
  show "ch (snd (enabled_disable k dir name w)) = ch w"
    using kernel_children(12)[OF assms, of "stub_path dir name" w]
    by (cases "k_remove_file k (stub_path dir name) w"; cases "fst (k_remove_file k (stub_path dir name) w)")
       (simp_all add: enabled_disable_def)
  show "ch (snd (enabled_enable k dir name w)) = ch w"
    unfolding enabled_enable_def
    by (intro then_r_children[where ch = ch]) (simp_all add: frame_simps[OF assms])
qed

lemma sup_inv_add_wanted_by:
  assumes "sup_inv ch (s, w)" "add_wanted_by (registry s) t u = Inr reg"
  shows "sup_inv ch (s\<lparr>registry := reg\<rparr>, w)"
proof -
  have "reg_ok reg" using assms reg_ok_add_wanted_by by (auto simp: sup_inv_def sup_ok_def)
  moreover have "units reg = units (registry s)"
    using assms(2) by (auto simp: add_wanted_by_cases split: option.splits)
  ultimately show ?thesis using assms(1) by (simp add: sup_inv_def sup_ok_def meta_ok_def)
qed

lemma keeps_list: "keeps ch (ctl_list env)"
  by rule (auto simp: ctl_list_def bind_eq_Some_conv dest: keepsD[OF keeps_write])

lemma keeps_status: "keeps ch (ctl_status env name)"
  unfolding ctl_status_def
  by (rule keeps_need_name, rule)
     (auto simp: bind_eq_Some_conv split: option.splits dest: keepsD[OF keeps_write])

lemma keeps_sup_ops:
  assumes "kernel_ok k ch"
  shows "keeps ch (ctl_sup env (start_named k hord n))" "keeps ch (ctl_sup env (stop_unit k hord n))"
  using start_named_inv[OF assms] stop_unit_inv[OF assms] by (blast intro: keeps_sup)+

lemma keeps_start_stop:
  assumes "kernel_ok k ch"
  shows "keeps ch (ctl_start k env name)" "keeps ch (ctl_stop k env name)" "keeps ch (ctl_restart k env name)"
  unfolding ctl_start_def ctl_stop_def ctl_restart_def
  by (intro keeps_need_name keeps_then keeps_try keeps_write keeps_sup_ops[OF assms])+

lemma keeps_disable:
  assumes "kernel_ok k ch"
  shows "keeps ch (ctl_disable k env name)"
  unfolding ctl_disable_def
proof (intro keeps_need_name keeps_then keeps_try keeps_write keeps_sup_ops[OF assms])
  fix n
  have "keeps ch (\<lambda>st'. ctl_io (enabled_disable k (enabled_d (fst st)) n) msg st')" for st :: "'a ctl" and msg
    by (rule keeps_io) (rule enabled_children(3)[OF assms])
  then show "keeps ch (\<lambda>st. ctl_io (enabled_disable k (enabled_d (fst st)) n)
      (\<lambda>e. ''remove enabled.d stub: '' @ io_text env e) st)"
    by (rule keeps_cases)
qed

lemma keeps_enable_link:
  assumes k: "kernel_ok k ch"
  shows "keeps ch (enable_link k env n)"
proof
  fix st r st' assume ok: "ctl_ok ch st" and run: "enable_link k env n st = Some (r, st')"
  show "ctl_ok ch st'"
  proof (cases "add_wanted_by (registry (fst st)) ''multi-user.target'' n")
    case (Inl e)
    with ok run show ?thesis by (simp add: enable_link_def)
  next
    case (Inr reg)
    have ok': "ctl_ok ch ((fst st)\<lparr>registry := reg\<rparr>, snd st)"
      using sup_inv_add_wanted_by[OF _ Inr, of ch "fst (snd st)"] ok by (simp add: ctl_ok_def)
    have "ctl_then (ctl_write env [''writeonce-svc: starting '' @ n] ((fst st)\<lparr>registry := reg\<rparr>, snd st))
            (\<lambda>_. ctl_sup env (start_named k (hash_iter env) n)) = Some (r, st')"
      using run by (simp only: enable_link_def Inr sum.case)
    from keepsD[OF keeps_then[OF keeps_write keeps_sup_ops(1)[OF k]] ok' this] show ?thesis .
  qed
qed

lemma keeps_enable:
  assumes k: "kernel_ok k ch"
  shows "keeps ch (ctl_enable k env name)"
  unfolding ctl_enable_def
proof (rule keeps_need_name, rule keepsI)
  fix n st r st' assume ok: "ctl_ok ch st" and run: "enable_of k env n st = Some (r, st')"
  show "ctl_ok ch st'"
  proof (cases "lookup_unit (registry (fst st)) n = None")
    case True
    with ok run show ?thesis by (simp add: enable_of_def)
  next
    case False
    have io: "keeps ch (ctl_io (enabled_enable k (enabled_d (fst st)) n) (\<lambda>e. ''write enabled.d stub: '' @ io_text env e))"
      by (rule keeps_io) (rule enabled_children(2)[OF k])
    have "ctl_then (ctl_io (enabled_enable k (enabled_d (fst st)) n)
                    (\<lambda>e. ''write enabled.d stub: '' @ io_text env e) st) (\<lambda>path st.
        ctl_then (ctl_write env [''writeonce-svc: enabled '' @ n @ '' '' @ right_arrow @ '' '' @ path] st)
          (\<lambda>_. enable_link k env n)) = Some (r, st')"
      using run False by (simp only: enable_of_def if_False)
    from keepsD[OF keeps_then[OF io keeps_then[OF keeps_write keeps_enable_link[OF k]]] ok this]
    show ?thesis .
  qed
qed

lemma keeps_world:
  assumes "\<And>s w c r st'. ctl_ok ch (s, w, c) \<Longrightarrow> f (s, w, c) = Some (r, st') \<Longrightarrow> ctl_ok ch st'"
  shows "keeps ch f"
proof (rule keepsI)
  fix st r st' assume "ctl_ok ch st" "f st = Some (r, st')"
  then show "ctl_ok ch st'" using assms by (cases st) blast
qed

lemma ctl_ok_world: "ctl_ok ch (s, w, c) \<Longrightarrow> ch w' = ch w \<Longrightarrow> ctl_ok ch (s, w', c)"
  by (simp add: ctl_ok_def sup_inv_def)

lemma keeps_journal:
  assumes k: "kernel_ok k ch"
  shows "keeps ch (ctl_journal k env name n_lines)"
  unfolding ctl_journal_def
proof (rule keeps_need_name, rule keeps_world)
  fix u s w c r st'
  assume ok: "ctl_ok ch (s, w, c)" and run: "journal_of k env n_lines u (s, w, c) = Some (r, st')"
  obtain x w' where x: "k_read_file k (log_dir s @ ''/'' @ u @ ''.log'') w = (x, w')" by fastforce
  have "ch w' = ch w" using kernel_children(11)[OF k, of "log_dir s @ ''/'' @ u @ ''.log''" w] x by simp
  from ctl_ok_world[OF ok this] have ok': "ctl_ok ch (s, w', c)" .
  note wr = keepsD[OF keeps_write ok']
  show "ctl_ok ch st'"
  proof (cases "lookup_unit (registry s) u = None")
    case True
    with run ok show ?thesis by (simp add: journal_of_def)
  next
    case False
    show ?thesis
    proof (cases x)
      case (Inl e)
      with run x False ok' wr show ?thesis by (cases "e = Not_Found") (auto simp: journal_of_def)
    next
      case (Inr body)
      with run x False have "ctl_write env (tail_lines (case Option.bind n_lines (parse_uint (2 ^ 64))
          of None \<Rightarrow> 50 | Some n \<Rightarrow> n) body) (s, w', c) = Some (r, st')"
        by (simp add: journal_of_def Let_def)
      with wr show ?thesis by blast
    qed
  qed
qed

lemma keeps_cgroup_lines:
  assumes k: "kernel_ok k ch"
  shows "keeps ch (cgroup_lines k env ds)"
proof (induction ds)
  case Nil
  show ?case by rule simp
next
  case (Cons d ds)
  show ?case
  proof (rule keeps_world)
    fix s w c r st' assume ok: "ctl_ok ch (s, w, c)" and run: "cgroup_lines k env (d # ds) (s, w, c) = Some (r, st')"
    obtain l w' where l: "cgroup_line k d w = (l, w')" by fastforce
    have "ch w' = ch w"
      using l kernel_children(11)[OF k, of "cgroup_base @ ''/'' @ d @ ''/cgroup.procs''" w]
      by (auto simp: cgroup_line_def case_prod_beta)
    from ctl_ok_world[OF ok this] have "ctl_ok ch (s, w', c)" .
    moreover have "ctl_then (ctl_write env [l] (s, w', c)) (\<lambda>_. cgroup_lines k env ds) = Some (r, st')"
      using run by (simp only: cgroup_lines.simps l prod.case)
    ultimately show "ctl_ok ch st'" using keepsD[OF keeps_then[OF keeps_write Cons.IH]] by blast
  qed
qed

lemma keeps_cgroups:
  assumes k: "kernel_ok k ch"
  shows "keeps ch (ctl_cgroups k env)"
proof (rule keeps_world)
  fix s w c r st' assume ok: "ctl_ok ch (s, w, c)" and run: "ctl_cgroups k env (s, w, c) = Some (r, st')"
  obtain x w' where x: "k_read_dir k cgroup_base w = (x, w')" by fastforce
  have "ch w' = ch w" using kernel_children(13)[OF k, of cgroup_base w] x by simp
  from ctl_ok_world[OF ok this] have ok': "ctl_ok ch (s, w', c)" .
  show "ctl_ok ch st'"
  proof (cases x)
    case (Inl e)
    with run x ok' keepsD[OF keeps_write ok'] show ?thesis by (auto simp: ctl_cgroups_def split: if_splits)
  next
    case (Inr entries)
    have first: "keeps ch (\<lambda>st. if ds = [] then ctl_write env m st else Some (Inr (), st))" for ds :: "string list" and m
      by (cases "ds = []") (simp_all add: keeps_write keeps_const)
    let ?dirs = "sort (List.map_filter (\<lambda>e. case e of Inl _ \<Rightarrow> None
      | Inr d \<Rightarrow> if de_is_dir d \<and> de_utf8 d then Some (de_name d) else None) entries)"
    have "ctl_then (if ?dirs = [] then ctl_write env [''(no service cgroups under '' @ cgroup_base @ '')''] (s, w', c)
        else Some (Inr (), s, w', c)) (\<lambda>_. cgroup_lines k env ?dirs) = Some (r, st')"
      using run by (simp only: ctl_cgroups_def prod.case x Inr sum.case Let_def)
    from keepsD[OF keeps_then[OF first keeps_cgroup_lines[OF k]] ok' this] show ?thesis .
  qed
qed

lemma keeps_enabled:
  assumes k: "kernel_ok k ch"
  shows "keeps ch (ctl_enabled k env)"
proof (rule keepsI)
  fix st r st' assume ok: "ctl_ok ch st" and run: "ctl_enabled k env st = Some (r, st')"
  have io: "keeps ch (ctl_io (enabled_load k (parse_toml env) (enabled_d (fst st))) (\<lambda>e. ''read enabled.d: '' @ io_text env e))"
    by (rule keeps_io) (rule enabled_children(1)[OF k])
  from keepsD[OF keeps_then[OF io keeps_write] ok run[unfolded ctl_enabled_def]] show "ctl_ok ch st'" .
qed

definition all_ok :: "('w \<Rightarrow> int set) \<Rightarrow> (bool \<times> (string + unit) \<times> 'w ctl) option \<Rightarrow> bool" where
  "all_ok ch X \<longleftrightarrow> (\<forall>d r st. X = Some (d, r, st) \<longrightarrow> ctl_ok ch st)"

lemma all_ok_if: "all_ok ch A \<Longrightarrow> all_ok ch B \<Longrightarrow> all_ok ch (if c then A else B)"
  by simp

lemma all_ok_plain: "keeps ch f \<Longrightarrow> ctl_ok ch st \<Longrightarrow> all_ok ch (map_option (Pair b) (f st))"
  by (auto simp: all_ok_def dest: keepsD)

lemma run_command_ok:
  assumes k: "kernel_ok k ch" and ok: "ctl_ok ch st"
  shows "all_ok ch (run_command k env parts st)"
proof -
  have err: "all_ok ch (Some (False, r, st))" for r using ok by (auto simp: all_ok_def)
  show ?thesis
    unfolding run_command_def Let_def
    by (intro all_ok_if all_ok_plain[OF _ ok] keeps_list keeps_status keeps_start_stop[OF k]
        keeps_enable[OF k] keeps_disable[OF k] keeps_enabled[OF k] keeps_journal[OF k]
        keeps_cgroups[OF k] all_ok_plain[OF keeps_try[OF keeps_write] ok] err)
qed

lemma handle_one_ok:
  assumes k: "kernel_ok k ch" and ok: "ctl_ok ch st" and run: "handle_one k env read st = Some (down, st')"
  shows "ctl_ok ch st'"
proof -
  have last: "ctl_ok ch (last_write env l st0) = ctl_ok ch st0" for l st0
    by (cases st0) (simp add: last_write_def ctl_ok_def)
  show ?thesis
    using run ok run_command_ok[OF k ok]
    by (cases read) (auto simp: handle_one_def last Let_def all_ok_def split: if_splits)
qed

lemma handle_ready_inv [inv_intros]:
  assumes "kernel_ok k ch" "sup_inv ch sw" "handle_ready k as sw = Some (down, cs, sw')"
  shows "sup_inv ch sw'"
  using assms
proof (induction k as sw arbitrary: down cs rule: handle_ready.induct)
  case (3 k env read as s w)
  let ?one = "handle_one k env read (s, w, \<lparr>sent = [], writes = 0\<rparr>)"
  from "3.prems"(3) obtain d s1 w1 c1 where one: "?one = Some (d, s1, w1, c1)"
    by (cases ?one) auto
  with "3.prems"(3) obtain d' cs' sw2 where two: "handle_ready k as (s1, w1) = Some (d', cs', sw2)"
    by (cases "handle_ready k as (s1, w1)") auto
  with one "3.prems"(3) have h: "?one = Some (d, s1, w1, c1)" "handle_ready k as (s1, w1) = Some (d', cs', sw')"
    by auto
  have "ctl_ok ch (s1, w1, c1)"
    by (rule handle_one_ok[OF "3.prems"(1) _ h(1)]) (use "3.prems"(2) in \<open>simp add: ctl_ok_def\<close>)
  then have "sup_inv ch (s1, w1)" by (simp add: ctl_ok_def)
  from "3.IH"[OF h(1) refl refl refl "3.prems"(1) this h(2)] show ?case .
qed auto


section \<open>Witnesses\<close>

definition plain_env :: ctl_env where
  "plain_env = \<lparr>io_text = (\<lambda>_. ''io''), debug_text = (\<lambda>_. ''Unknown''), write_fails = (\<lambda>_. None),
     parse_toml = Inl, hash_iter = in_order\<rparr>"

lemma reply_status_witness:
  "\<exists>s' w' c'. handle_one sim_kernel plain_env (Inr ''shutdown'') (sample_sup, sample_world [], \<lparr>sent = [], writes = 0\<rparr>)
      = Some (True, s', w', c') \<and> client_exit (sent c') = 0"
proof -
  let ?h = "handle_one sim_kernel plain_env (Inr ''shutdown'') (sample_sup, sample_world [], \<lparr>sent = [], writes = 0\<rparr>)"
  have "map_option (\<lambda>(d, s, w, c). (d, last (sent c))) ?h = Some (True, ''ok'')" by code_simp
  then obtain s' w' c' where h: "?h = Some (True, s', w', c')" "last (sent c') = ''ok''" by auto
  have "\<forall>n. write_fails plain_env n = None" by (simp add: plain_env_def)
  from reply_status[OF this h(1)] h show ?thesis by auto
qed


text \<open>DISABLE does not look the name up: an absolute one leaves the directory of stubs.\<close>

lemma disable_leaves_enabled_d:
  "stub_path ''/etc/writeonce/enabled.d'' ''/etc/passwd'' = ''/etc/passwd.toml''"
  by code_simp

end
