(* ===== verification/Daemon.thy ===== *)
theory Daemon
  imports Control
begin

text \<open>
  The supervisor as a daemon: the event loop of crates/writeonce-svc/src/signal.rs and the boot
  sequence of src/main.rs. The epoll call is an argument; what is ready when it returns is a
  list of readiness events, each with what reading the descriptor yields. One turn of the loop
  is a function, and the loop runs it at most \<open>n\<close> times: a daemon need not end, so \<open>Again\<close>
  after \<open>n\<close> turns means that it is still running.
\<close>

section \<open>The timeout\<close>

text \<open>In milliseconds; minus one waits for ever.\<close>

definition compute_timeout :: "'w kernel \<Rightarrow> supervisor \<Rightarrow> 'w \<Rightarrow> int \<times> 'w" where
  "compute_timeout k s w =
     (case next_restart_deadline s of
        None \<Rightarrow> (if shutting_down s then 100 else -1, w)
      | Some when \<Rightarrow>
          (case k_now k w of (now, w1) \<Rightarrow>
             if when \<le> now then (0, w1)
             else (int (min (when - now) (60000 * 1000000) div 1000000), w1)))"

section \<open>Signals\<close>

definition on_signal :: "'w kernel \<Rightarrow> nat \<Rightarrow> supervisor \<times> 'w \<Rightarrow> (supervisor \<times> 'w) option" where
  "on_signal k sig sw =
     (if sig = SIGCHLD then reap k sw
      else if sig = SIGHUP then Some sw
      else if sig = SIGTERM \<or> sig = SIGINT
      then Some (if shutting_down (fst sw) then sw else initiate_shutdown k sw)
      else Some sw)"

text \<open>The reads of the signal descriptor: an error, end of file, or the next signal.\<close>

fun drain_signalfd ::
  "'w kernel \<Rightarrow> (io_error + nat option) list \<Rightarrow> supervisor \<times> 'w \<Rightarrow> ((io_error + unit) \<times> supervisor \<times> 'w) option" where
  "drain_signalfd k [] sw = Some (Inr (), sw)"
| "drain_signalfd k (Inl e # rs) sw = Some (if e = Would_Block then Inr () else Inl e, sw)"
| "drain_signalfd k (Inr None # rs) sw = Some (Inr (), sw)"
| "drain_signalfd k (Inr (Some sig) # rs) sw =
     (case on_signal k sig sw of None \<Rightarrow> None | Some sw' \<Rightarrow> drain_signalfd k rs sw')"

section \<open>The loop\<close>

datatype ready =
    Signal_Fd "(io_error + nat option) list"
  | Listener_Fd "(io_error + ctl_env \<times> (io_error + string)) list"
  | Other_Fd

fun on_ready ::
  "'w kernel \<Rightarrow> bool \<Rightarrow> ready \<Rightarrow> supervisor \<times> 'w \<Rightarrow> ((io_error + unit) \<times> supervisor \<times> 'w) option" where
  "on_ready k listening (Signal_Fd rs) sw = drain_signalfd k rs sw"
| "on_ready k listening (Listener_Fd as) sw =
     (if listening
      then map_option (\<lambda>(down, cs, sw'). (Inr (), if down then initiate_shutdown k sw' else sw'))
             (handle_ready k as sw)
      else Some (Inr (), sw))"
| "on_ready k listening Other_Fd sw = Some (Inr (), sw)"

fun serve_ready ::
  "'w kernel \<Rightarrow> bool \<Rightarrow> ready list \<Rightarrow> supervisor \<times> 'w \<Rightarrow> ((io_error + unit) \<times> supervisor \<times> 'w) option" where
  "serve_ready k listening [] sw = Some (Inr (), sw)"
| "serve_ready k listening (ev # evs) sw =
     (case on_ready k listening ev sw of
        None \<Rightarrow> None
      | Some (Inl e, sw') \<Rightarrow> Some (Inl e, sw')
      | Some (Inr _, sw') \<Rightarrow> serve_ready k listening evs sw')"

datatype turn = Again | Quiet | Loop_Failed io_error

type_synonym 'w epoll = "int \<Rightarrow> 'w \<Rightarrow> (io_error + ready list) \<times> 'w"

definition loop_turn ::
  "'w kernel \<Rightarrow> 'w epoll \<Rightarrow> bool \<Rightarrow> supervisor \<times> 'w \<Rightarrow> (turn \<times> supervisor \<times> 'w) option" where
  "loop_turn k epoll listening sw = (case sw of (s, w) \<Rightarrow>
     (case compute_timeout k s w of (t, w1) \<Rightarrow>
     (case epoll t w1 of
        (Inl e, w2) \<Rightarrow> Some (if e = Interrupted then Again else Loop_Failed e, s, w2)
      | (Inr evs, w2) \<Rightarrow>
          (case serve_ready k listening evs (s, w2) of
             None \<Rightarrow> None
           | Some (Inl e, sw3) \<Rightarrow> Some (Loop_Failed e, sw3)
           | Some (Inr _, sw3) \<Rightarrow>
               map_option (\<lambda>sw4.
                   (if shutting_down (fst sw4) \<and> all_units_quiet (fst sw4) then Quiet else Again, sw4))
                 (fire_due_restarts k sw3)))))"

fun event_loop ::
  "nat \<Rightarrow> 'w kernel \<Rightarrow> 'w epoll \<Rightarrow> bool \<Rightarrow> supervisor \<times> 'w \<Rightarrow> (turn \<times> supervisor \<times> 'w) option" where
  "event_loop 0 k epoll listening sw = Some (Again, sw)"
| "event_loop (Suc n) k epoll listening sw =
     (case loop_turn k epoll listening sw of
        None \<Rightarrow> None
      | Some (Again, sw') \<Rightarrow> event_loop n k epoll listening sw'
      | Some (res, sw') \<Rightarrow> Some (res, sw'))"

section \<open>Boot\<close>

record svc_args =
  units_dir :: string
  arg_enabled_d :: string
  default_target :: string
  arg_socket :: string
  arg_log_dir :: string
  arg_fake :: bool

datatype svc_start = Exit_With nat | Run_With svc_args

definition DEFAULT_SOCKET :: string where "DEFAULT_SOCKET = ''/run/writeonce/control.sock''"

definition default_args :: svc_args where
  "default_args = \<lparr>units_dir = ''/etc/writeonce/services'', arg_enabled_d = DEFAULT_ENABLED_D,
     default_target = ''default.target'', arg_socket = DEFAULT_SOCKET, arg_log_dir = DEFAULT_LOG_DIR,
     arg_fake = False\<rparr>"

text \<open>The option that takes a value, if it is one; what the value does to the arguments.\<close>

definition value_option :: "string \<Rightarrow> (string \<Rightarrow> svc_args \<Rightarrow> svc_args) option" where
  "value_option a =
     (if a = ''--units'' then Some (\<lambda>v r. r\<lparr>units_dir := v\<rparr>)
      else if a = ''--enabled-d'' then Some (\<lambda>v r. r\<lparr>arg_enabled_d := v\<rparr>)
      else if a = ''--default-target'' then Some (\<lambda>v r. r\<lparr>default_target := v\<rparr>)
      else if a = ''--socket'' then Some (\<lambda>v r. r\<lparr>arg_socket := v\<rparr>)
      else if a = ''--log-dir'' then Some (\<lambda>v r. r\<lparr>arg_log_dir := v\<rparr>)
      else None)"

fun parse_args :: "string list \<Rightarrow> svc_args \<Rightarrow> svc_start" where
  "parse_args [] r = Run_With r"
| "parse_args (a # as) r =
     (case value_option a of
        Some put \<Rightarrow> (case as of [] \<Rightarrow> Exit_With 2 | v # rest \<Rightarrow> parse_args rest (put v r))
      | None \<Rightarrow>
          if a = ''--fake'' then parse_args as (r\<lparr>arg_fake := True\<rparr>)
          else if a = ''-h'' \<or> a = ''--help'' then Exit_With 0
          else Exit_With 2)"

text \<open>The enabled units as wanted-by links; a name that does not resolve is skipped.\<close>

definition inject_one :: "string \<Rightarrow> registry \<Rightarrow> registry" where
  "inject_one n reg = (case add_wanted_by reg ''multi-user.target'' n of Inl _ \<Rightarrow> reg | Inr reg' \<Rightarrow> reg')"

definition inject_enabled :: "string list \<Rightarrow> registry \<Rightarrow> registry" where
  "inject_enabled names reg = fold inject_one names reg"

datatype boot_error = Boot_Io io_error | Boot_Plan transaction_error

text \<open>
  The boot up to the event loop, the supervisor at its end; \<open>install\<close> is the outcome of
  setting up the signal descriptor.
\<close>

definition boot ::
  "'w kernel \<Rightarrow> hash_order \<Rightarrow> (string \<Rightarrow> string + toml) \<Rightarrow> (io_error + unit) \<Rightarrow> svc_args \<Rightarrow> 'w
     \<Rightarrow> ((boot_error + supervisor) \<times> 'w) option" where
  "boot k hord parse install a w =
     (case k_read_dir k (units_dir a) w of (listing, w1) \<Rightarrow>
     (case load_directory parse listing of
        Inl e \<Rightarrow> Some (Inl (Boot_Io e), w1)
      | Inr loaded \<Rightarrow>
          let s = (supervisor_from_loaded loaded (arg_fake a))
                    \<lparr>enabled_d := arg_enabled_d a, log_dir := arg_log_dir a\<rparr>;
              w2 = snd (k_create_dir_all k (arg_log_dir a) w1)
          in case enabled_load k parse (arg_enabled_d a) w2 of
               (Inl e, w3) \<Rightarrow> Some (Inl (Boot_Io e), w3)
             | (Inr names, w3) \<Rightarrow>
                 let s' = s\<lparr>registry := inject_enabled names (registry s)\<rparr>
                 in case build_transaction hord (registry s') (default_target a) of
                      None \<Rightarrow> None
                    | Some (Inl e) \<Rightarrow> Some (Inl (Boot_Plan e), w3)
                    | Some (Inr plan) \<Rightarrow>
                        (case install of
                           Inl e \<Rightarrow> Some (Inl (Boot_Io e), w3)
                         | Inr _ \<Rightarrow> map_option (\<lambda>(s1, w4). (Inr s1, w4)) (activate_plan k plan (s', w3)))))"

text \<open>The program: the exit status, or \<open>None\<close> while the loop is still running.\<close>

definition svc_run ::
  "nat \<Rightarrow> 'w kernel \<Rightarrow> hash_order \<Rightarrow> (string \<Rightarrow> string + toml) \<Rightarrow> (io_error + unit) \<Rightarrow> bool \<Rightarrow> 'w epoll
     \<Rightarrow> string list \<Rightarrow> 'w \<Rightarrow> nat option option" where
  "svc_run n k hord parse install listening epoll argv w =
     (case parse_args argv default_args of
        Exit_With c \<Rightarrow> Some (Some c)
      | Run_With a \<Rightarrow>
          (case boot k hord parse install a w of
             None \<Rightarrow> None
           | Some (Inl e, _) \<Rightarrow> Some (Some 1)
           | Some (Inr s, w1) \<Rightarrow>
               map_option (\<lambda>(r, _). case r of Again \<Rightarrow> None | Quiet \<Rightarrow> Some 0 | Loop_Failed e \<Rightarrow> Some 1)
                 (event_loop n k epoll listening (s, w1))))"

section \<open>The timeout is in range and never late\<close>

text \<open>
  C39: the loop waits at most a minute and wakes in time: it waits for ever exactly when no
  restart is queued and no shutdown is under way, for at most 100 milliseconds during a shutdown
  without queued restarts, and otherwise never past the earliest queued restart; it only wakes
  more than a millisecond before that restart when the wait was cut to the minute.
\<close>

theorem compute_timeout_bounds:
  assumes "compute_timeout k s w = (t, w')"
  shows "-1 \<le> t \<and> t \<le> 60000
    \<and> (t = -1 \<longleftrightarrow> pending_restarts s = [] \<and> \<not> shutting_down s)
    \<and> (case next_restart_deadline s of
         None \<Rightarrow> w' = w \<and> (shutting_down s \<longrightarrow> t = 100)
       | Some due \<Rightarrow>
           let now = fst (k_now k w) in
           (if due \<le> now then t = 0
            else int now + t * 1000000 \<le> int due
              \<and> (t < 60000 \<longrightarrow> int due < int now + (t + 1) * 1000000)))"
proof (cases "next_restart_deadline s")
  case None
  then have "pending_restarts s = []" by (simp add: next_restart_deadline_def split: if_splits)
  with None assms show ?thesis by (auto simp: compute_timeout_def)
next
  case (Some due)
  then have p: "pending_restarts s \<noteq> []" by (auto simp: next_restart_deadline_def)
  obtain now w1 where n: "k_now k w = (now, w1)" by fastforce
  show ?thesis
  proof (cases "due \<le> now")
    case True
    with Some p n assms show ?thesis by (auto simp: compute_timeout_def)
  next
    case False
    define d where "d = min (due - now) (60000 * 1000000)"
    have t: "t = int (d div 1000000)" using assms Some n False by (auto simp: compute_timeout_def d_def)
    have "d div 1000000 \<le> (60000 * 1000000) div 1000000" unfolding d_def by (rule div_le_mono) simp
    then have hi: "d div 1000000 \<le> 60000" by simp
    have lo: "d div 1000000 * 1000000 \<le> due - now"
      by (rule le_trans[OF div_times_less_eq_dividend]) (simp add: d_def)
    have "due - now < (d div 1000000 + 1) * 1000000" if "d div 1000000 < 60000"
    proof -
      have "d < (d div 1000000 + 1) * 1000000" by (simp add: dividend_less_div_times)
      moreover have "d < 60000 * 1000000" using that div_le_mono[of "60000 * 1000000" d 1000000] by force
      ultimately show ?thesis by (simp add: d_def min_def split: if_splits)
    qed
    with hi lo False show ?thesis using Some p n
      by (simp add: t) (auto simp: zdiv_int[symmetric] of_nat_diff)
  qed
qed

section \<open>What ends the loop\<close>

lemma on_signal_inv [inv_intros]:
  "kernel_ok k ch \<Longrightarrow> sup_inv ch sw \<Longrightarrow> on_signal k sig sw = Some sw' \<Longrightarrow> sup_inv ch sw'"
  by (auto simp: on_signal_def split: if_splits intro: inv_intros)

lemma drain_signalfd_inv [inv_intros]:
  assumes k: "kernel_ok k ch"
  shows "sup_inv ch sw \<Longrightarrow> drain_signalfd k rs sw = Some (r, sw') \<Longrightarrow> sup_inv ch sw'"
proof (induction rs arbitrary: sw)
  case (Cons e rs)
  show ?case
  proof (cases "\<exists>sig. e = Inr (Some sig)")
    case True
    then obtain sig sw1 where "e = Inr (Some sig)" "on_signal k sig sw = Some sw1" "drain_signalfd k rs sw1 = Some (r, sw')"
      using Cons.prems(2) by (auto split: option.splits)
    with Cons.IH on_signal_inv[OF k Cons.prems(1)] show ?thesis by blast
  next
    case False
    with Cons.prems show ?thesis by (cases e; cases "projr e") auto
  qed
qed simp

lemma on_ready_inv [inv_intros]:
  assumes "kernel_ok k ch" "sup_inv ch sw" "on_ready k listening ev sw = Some (r, sw')"
  shows "sup_inv ch sw'"
proof (cases ev)
  case (Signal_Fd rs)
  with assms(3) drain_signalfd_inv[OF assms(1,2)] show ?thesis by simp
next
  case (Listener_Fd as)
  show ?thesis
  proof (cases listening)
    case True
    with assms(3) Listener_Fd obtain down cs sw1 where h: "handle_ready k as sw = Some (down, cs, sw1)"
      "sw' = (if down then initiate_shutdown k sw1 else sw1)"
      by (auto simp: map_option_case split: option.splits)
    from handle_ready_inv[OF assms(1,2) h(1)] initiate_shutdown_inv[OF assms(1)] h(2) show ?thesis by simp
  qed (use assms Listener_Fd in auto)
qed (use assms in auto)

lemma serve_ready_inv [inv_intros]:
  assumes k: "kernel_ok k ch"
  shows "sup_inv ch sw \<Longrightarrow> serve_ready k listening evs sw = Some (r, sw') \<Longrightarrow> sup_inv ch sw'"
proof (induction evs arbitrary: sw)
  case (Cons ev evs)
  then obtain r1 sw1 where one: "on_ready k listening ev sw = Some (r1, sw1)"
    by (auto split: option.splits)
  from on_ready_inv[OF k Cons.prems(1) one] have "sup_inv ch sw1" .
  with Cons one show ?case by (cases r1) auto
qed simp

definition epoll_ok :: "'w epoll \<Rightarrow> ('w \<Rightarrow> int set) \<Rightarrow> bool" where
  "epoll_ok epoll ch \<longleftrightarrow> (\<forall>t w. ch (snd (epoll t w)) = ch w)"

lemma loop_turn_cases:
  assumes "loop_turn k epoll listening (s, w) = Some (r, sw')"
  obtains e w2 where "(\<exists>t w1. compute_timeout k s w = (t, w1) \<and> epoll t w1 = (Inl e, w2))"
      "sw' = (s, w2)" "r = (if e = Interrupted then Again else Loop_Failed e)"
    | evs w2 e where "(\<exists>t w1. compute_timeout k s w = (t, w1) \<and> epoll t w1 = (Inr evs, w2))"
      "serve_ready k listening evs (s, w2) = Some (Inl e, sw')" "r = Loop_Failed e"
    | evs w2 sw3 where "(\<exists>t w1. compute_timeout k s w = (t, w1) \<and> epoll t w1 = (Inr evs, w2))"
      "serve_ready k listening evs (s, w2) = Some (Inr (), sw3)" "fire_due_restarts k sw3 = Some sw'"
      "r = (if shutting_down (fst sw') \<and> all_units_quiet (fst sw') then Quiet else Again)"
proof -
  obtain t w1 where t: "compute_timeout k s w = (t, w1)" by fastforce
  obtain ev w2 where ev: "epoll t w1 = (ev, w2)" by fastforce
  note run = assms[unfolded loop_turn_def prod.case t ev]
  show thesis
  proof (cases ev)
    case (Inl e)
    with run t ev that(1) show thesis by simp
  next
    case (Inr evs)
    with run obtain x sw3 where x: "serve_ready k listening evs (s, w2) = Some (x, sw3)"
      by (auto split: option.splits)
    show thesis
    proof (cases x)
      case (Inl e)
      with run x Inr t ev that(2) show thesis by simp
    next
      case (Inr u)
      from run x Inr \<open>ev = Inr evs\<close> obtain sw4 where "fire_due_restarts k sw3 = Some sw4" "sw' = sw4"
        "r = (if shutting_down (fst sw4) \<and> all_units_quiet (fst sw4) then Quiet else Again)"
        by auto
      with x Inr \<open>ev = Inr evs\<close> t ev that(3) show thesis by simp
    qed
  qed
qed

lemma compute_timeout_children:
  "kernel_ok k ch \<Longrightarrow> compute_timeout k s w = (t, w') \<Longrightarrow> ch w' = ch w"
  using kernel_children(1)[of k ch w]
  by (auto simp: compute_timeout_def split: option.splits prod.splits if_splits)

lemma loop_turn_inv [inv_intros]:
  assumes k: "kernel_ok k ch" and e: "epoll_ok epoll ch" and inv: "sup_inv ch sw"
    and run: "loop_turn k epoll listening sw = Some (r, sw')"
  shows "sup_inv ch sw' \<and> (r = Quiet \<longrightarrow> shutting_down (fst sw') \<and> all_units_quiet (fst sw'))"
proof -
  obtain s w where sw: "sw = (s, w)" by fastforce
  have frame: "sup_inv ch (s, w2)" if "compute_timeout k s w = (t, w1)" "epoll t w1 = (x, w2)" for t w1 x w2
  proof -
    from compute_timeout_children[OF k that(1)] e that(2) have "ch w2 = ch w"
      by (metis epoll_ok_def snd_conv)
    with inv sw show ?thesis by (simp add: sup_inv_def)
  qed
  from run[unfolded sw] show ?thesis
  proof (cases rule: loop_turn_cases)
    case (1 e w2)
    then show ?thesis using frame by auto
  next
    case (2 evs w2 e)
    then show ?thesis using frame serve_ready_inv[OF k] by blast
  next
    case (3 evs w2 sw3)
    then have "sup_inv ch sw3" using frame serve_ready_inv[OF k] by blast
    from fire_due_restarts_inv[OF k this 3(3)] 3(4) show ?thesis by simp
  qed
qed

lemma event_loop_inv:
  assumes k: "kernel_ok k ch" and e: "epoll_ok epoll ch"
  shows "sup_inv ch sw \<Longrightarrow> event_loop n k epoll listening sw = Some (r, sw') \<Longrightarrow>
    sup_inv ch sw' \<and> (r = Quiet \<longrightarrow> shutting_down (fst sw') \<and> all_units_quiet (fst sw'))"
proof (induction n arbitrary: sw)
  case (Suc n)
  then obtain r1 sw1 where one: "loop_turn k epoll listening sw = Some (r1, sw1)"
    by (auto split: option.splits)
  from loop_turn_inv[OF k e Suc.prems(1) one] Suc.IH[of sw1] Suc.prems(2) one show ?case
    by (cases r1) auto
qed simp

section \<open>What boot starts\<close>

lemma add_wanted_by_succ_rel:
  assumes "add_wanted_by reg t u = Inr reg'" "reg_ok reg"
  obtains ti ui where "lookup_unit reg t = Some ti" "lookup_unit reg u = Some ui"
    "succ_rel (requirement_targets reg') = insert (ti, ui) (succ_rel (requirement_targets reg))"
proof -
  from add_wanted_by_targets[of reg t u] assms(1) obtain ti ui where l: "lookup_unit reg t = Some ti"
    "lookup_unit reg u = Some ui" and tg: "\<And>i. requirement_targets reg' i =
          map_option (\<lambda>vs. if i = ti then sorted_list_of_set (insert ui (set vs)) else vs)
            (requirement_targets reg i)"
    by (auto split: option.splits)
  have "ti < length (units reg)" using l(1) assms(2) by (simp add: lookup_unit_def reg_ok_by_name)
  then obtain vs where "requirement_targets reg ti = Some vs"
    using requirement_targets_total(1)[OF assms(2), of ti] by auto
  then have "(x, y) \<in> succ_rel (requirement_targets reg') \<longleftrightarrow> (x, y) = (ti, ui) \<or> (x, y) \<in> succ_rel (requirement_targets reg)" for x y
    by (cases "x = ti"; cases "requirement_targets reg x")
       (simp_all add: succ_rel_def tg del: sorted_list_of_set_insert_remove)
  then have "succ_rel (requirement_targets reg') = insert (ti, ui) (succ_rel (requirement_targets reg))"
    by auto
  with l that show thesis by blast
qed

lemma rtrancl_add_source:
  "(R \<union> {m} \<times> U)\<^sup>* `` {a}
     = R\<^sup>* `` {a} \<union> (if m \<in> R\<^sup>* `` {a} then R\<^sup>* `` U else {})"
  (is "?S\<^sup>* `` _ = ?B")
proof
  have "(a, x) \<in> ?S\<^sup>* \<Longrightarrow> x \<in> ?B" for x
  proof (induction rule: rtrancl_induct)
    case (step x y)
    consider "(x, y) \<in> R" | "x = m" "y \<in> U" using step.hyps(2) by blast
    then show ?case
    proof cases
      case 1
      with step.IH show ?thesis by (auto split: if_splits intro: rtrancl_into_rtrancl)
    next
      case 2
      have "m \<in> R\<^sup>* `` {a}" using step.IH 2(1) by (cases "m \<in> R\<^sup>* `` {a}") simp_all
      with 2 show ?thesis by auto
    qed
  qed simp
  then show "?S\<^sup>* `` {a} \<subseteq> ?B" by blast
  have mono: "R\<^sup>* \<subseteq> ?S\<^sup>*" by (rule rtrancl_mono) blast
  have "(a, y) \<in> ?S\<^sup>*" if "(a, m) \<in> R\<^sup>*" "u \<in> U" "(u, y) \<in> R\<^sup>*" for u y
  proof -
    have "(a, m) \<in> ?S\<^sup>*" "(m, u) \<in> ?S" "(u, y) \<in> ?S\<^sup>*" using that mono by auto
    then show ?thesis by (meson rtrancl.rtrancl_into_rtrancl rtrancl_trans)
  qed
  with mono show "?B \<subseteq> ?S\<^sup>* `` {a}" by auto
qed

text \<open>The units that the enabled names stand for.\<close>

definition enabled_ids :: "registry \<Rightarrow> string list \<Rightarrow> unit_id set" where
  "enabled_ids reg names = {u. \<exists>n \<in> set names. lookup_unit reg n = Some u}"

lemma inject_one_spec:
  assumes "reg_ok reg"
  shows "reg_ok (inject_one n reg) \<and> units (inject_one n reg) = units reg
    \<and> by_name (inject_one n reg) = by_name reg
    \<and> succ_rel (requirement_targets (inject_one n reg)) = succ_rel (requirement_targets reg) \<union>
        (case lookup_unit reg ''multi-user.target'' of None \<Rightarrow> {} | Some m \<Rightarrow> {m} \<times> enabled_ids reg [n])"
proof (cases "add_wanted_by reg ''multi-user.target'' n")
  case (Inl e)
  with add_wanted_by_targets[of reg "''multi-user.target''" n] show ?thesis
    using assms by (auto simp: inject_one_def enabled_ids_def split: option.splits)
next
  case (Inr reg')
  from add_wanted_by_succ_rel[OF Inr assms] obtain ti ui where
    "lookup_unit reg ''multi-user.target'' = Some ti" "lookup_unit reg n = Some ui"
    "succ_rel (requirement_targets reg') = insert (ti, ui) (succ_rel (requirement_targets reg))" .
  moreover have "units reg' = units reg" "by_name reg' = by_name reg"
    using Inr by (auto simp: add_wanted_by_cases split: option.splits)
  ultimately show ?thesis
    using Inr reg_ok_add_wanted_by[OF assms Inr] by (auto simp: inject_one_def enabled_ids_def)
qed

lemma inject_enabled_spec:
  assumes "reg_ok reg"
  shows "reg_ok (inject_enabled names reg) \<and> units (inject_enabled names reg) = units reg
    \<and> by_name (inject_enabled names reg) = by_name reg
    \<and> succ_rel (requirement_targets (inject_enabled names reg)) = succ_rel (requirement_targets reg) \<union>
        (case lookup_unit reg ''multi-user.target'' of None \<Rightarrow> {} | Some m \<Rightarrow> {m} \<times> enabled_ids reg names)"
  using assms
proof (induction names arbitrary: reg)
  case Nil
  then show ?case by (simp add: inject_enabled_def enabled_ids_def split: option.split)
next
  case (Cons n names)
  note one = inject_one_spec[OF Cons.prems, of n]
  have look: "lookup_unit (inject_one n reg) = lookup_unit reg"
    using one by (simp add: lookup_unit_def fun_eq_iff)
  have ids: "enabled_ids (inject_one n reg) names = enabled_ids reg names"
    "enabled_ids reg (n # names) = enabled_ids reg [n] \<union> enabled_ids reg names"
    by (auto simp: enabled_ids_def look)
  have "inject_enabled (n # names) reg = inject_enabled names (inject_one n reg)"
    by (simp add: inject_enabled_def)
  with Cons.IH[of "inject_one n reg"] one show ?case
    by (auto simp: look ids split: option.split)
qed

text \<open>
  C38: enabled units join the boot through multi-user.target and in no other way: the units an
  anchor pulls in are those it pulled in before and, if multi-user.target is among them, all
  that the enabled names that resolve pull in.
\<close>

theorem enabled_units_pulled_in:
  assumes "reg_ok reg"
  shows "pulled_in (inject_enabled names reg) a = pulled_in reg a \<union>
     (case lookup_unit reg ''multi-user.target'' of
        None \<Rightarrow> {}
      | Some m \<Rightarrow> if m \<in> pulled_in reg a then (\<Union>u \<in> enabled_ids reg names. pulled_in reg u) else {})"
proof (cases "lookup_unit reg ''multi-user.target''")
  case None
  with inject_enabled_spec[OF assms, of names] show ?thesis by (simp add: pulled_in_def)
next
  case (Some m)
  let ?R = "succ_rel (requirement_targets reg)"
  have "?R\<^sup>* `` enabled_ids reg names = (\<Union>u \<in> enabled_ids reg names. ?R\<^sup>* `` {u})" by blast
  with Some inject_enabled_spec[OF assms, of names] show ?thesis
    by (simp add: pulled_in_def rtrancl_add_source)
qed

section \<open>The daemon from boot to the end of its loop\<close>

lemma boot_cases:
  assumes "boot k hord parse install a w = Some (Inr s, w')"
  obtains loaded names plan w3 where
    "load_directory parse (fst (k_read_dir k (units_dir a) w)) = Inr loaded"
    "enabled_load k parse (arg_enabled_d a)
       (snd (k_create_dir_all k (arg_log_dir a) (snd (k_read_dir k (units_dir a) w)))) = (Inr names, w3)"
    "build_transaction hord (inject_enabled names (from_loaded loaded)) (default_target a) = Some (Inr plan)"
    "activate_plan k plan ((supervisor_from_loaded loaded (arg_fake a))
        \<lparr>enabled_d := arg_enabled_d a, log_dir := arg_log_dir a,
         registry := inject_enabled names (from_loaded loaded)\<rparr>, w3) = Some (s, w')"
proof -
  obtain listing w1 where r: "k_read_dir k (units_dir a) w = (listing, w1)" by fastforce
  note run = assms[unfolded boot_def r prod.case]
  from run obtain loaded where l: "load_directory parse listing = Inr loaded"
    by (auto split: sum.splits)
  obtain x w3 where e: "enabled_load k parse (arg_enabled_d a) (snd (k_create_dir_all k (arg_log_dir a) w1)) = (x, w3)"
    by fastforce
  note run = run[unfolded l sum.case Let_def e prod.case]
  from run obtain names where x: "x = Inr names" by (cases x) auto
  have reg: "registry ((supervisor_from_loaded loaded (arg_fake a))\<lparr>enabled_d := arg_enabled_d a, log_dir := arg_log_dir a\<rparr>)
      = from_loaded loaded"
    by (simp add: supervisor_from_loaded_def new_supervisor_def)
  note run = run[unfolded x sum.case reg]
  from run obtain plan where p: "build_transaction hord (inject_enabled names (from_loaded loaded)) (default_target a) = Some (Inr plan)"
    by (auto split: option.splits sum.splits)
  with run have "activate_plan k plan ((supervisor_from_loaded loaded (arg_fake a))
        \<lparr>enabled_d := arg_enabled_d a, log_dir := arg_log_dir a,
         registry := inject_enabled names (from_loaded loaded)\<rparr>, w3) = Some (s, w')"
    by (cases install) (auto split: option.splits sum.splits)
  with l e x p r that show thesis by simp
qed

lemma boot_inv:
  assumes k: "kernel_ok k ch" and run: "boot k hord parse install a w = Some (Inr s, w')"
  shows "sup_inv ch (s, w')"
  using run
proof (cases rule: boot_cases)
  case (1 loaded names plan w3)
  let ?s = "supervisor_from_loaded loaded (arg_fake a)" and ?reg = "inject_enabled names (from_loaded loaded)"
  have reg: "reg_ok ?reg" "units ?reg = units (from_loaded loaded)"
    using inject_enabled_spec[OF reg_ok_from_loaded] by blast+
  have "sup_inv ch (?s\<lparr>enabled_d := arg_enabled_d a, log_dir := arg_log_dir a, registry := ?reg\<rparr>, w3)"
    using sup_ok_new[OF reg_ok_from_loaded, of loaded "arg_fake a"] reg
    by (simp add: sup_inv_def sup_ok_def supervisor_from_loaded_def new_supervisor_def meta_ok_def registry_len_def)
  from activate_plan_inv[OF k this 1(4)] show ?thesis .
qed


section \<open>Witnesses\<close>

theorem compute_timeout_bounds_witness:
  "case next_restart_deadline (sample_sup\<lparr>pending_restarts := [\<lparr>pr_unit = 0, fire_at = 5000000000\<rparr>]\<rparr>) of
     None \<Rightarrow> False
   | Some due \<Rightarrow> due = 5000000000 \<and> 5000 * 1000000 \<le> int due \<and> int due < (5000 + 1) * 1000000"
proof -
  let ?s = "sample_sup\<lparr>pending_restarts := [\<lparr>pr_unit = 0, fire_at = 5000000000\<rparr>]\<rparr>"
  have c: "compute_timeout sim_kernel ?s (sample_world []) = (5000, sample_world [])" by code_simp
  have d: "next_restart_deadline ?s = Some 5000000000" by (simp add: next_restart_deadline_def)
  have n: "fst (k_now sim_kernel (sample_world [])) = 0" by (simp add: sim_kernel_def sample_world_def)
  from compute_timeout_bounds[OF c] show ?thesis by (simp add: d n)
qed

definition enable_registry :: registry where
  "enable_registry = from_loaded
     [mk_unit ''multi-user.target'' [] [] [], mk_unit ''ssh.service'' [''net.service''] [] [],
      mk_unit ''net.service'' [] [] []]"

theorem enabled_units_pulled_in_witness:
  "{1, 2} \<subseteq> pulled_in (inject_enabled [''gone.service'', ''ssh.service''] enable_registry) 0"
proof -
  have ok: "reg_ok enable_registry" unfolding enable_registry_def by (rule reg_ok_from_loaded)
  have l: "lookup_unit enable_registry ''multi-user.target'' = Some 0" by code_simp
  have "lookup_unit enable_registry ''ssh.service'' = Some 1" by code_simp
  then have "1 \<in> enabled_ids enable_registry [''gone.service'', ''ssh.service'']"
    by (simp add: enabled_ids_def)
  moreover have "requirement_targets enable_registry 1 = Some [2]" by code_simp
  then have "(1, 2) \<in> succ_rel (requirement_targets enable_registry)" by (simp add: succ_rel_def)
  then have "{1, 2} \<subseteq> pulled_in enable_registry 1" by (auto simp: pulled_in_def)
  moreover have "0 \<in> pulled_in enable_registry 0" by (simp add: pulled_in_def)
  ultimately show ?thesis
    using enabled_units_pulled_in[OF ok, of "[''gone.service'', ''ssh.service'']" 0] l by auto
qed

text \<open>A machine with one service behind its default target, and a signal to end.\<close>

definition boot_parse :: "string \<Rightarrow> string + toml" where
  "boot_parse body =
     Inr (TTable
       (if body = ''target'' then [(''unit'', TTable [(''wants'', TArray [TString ''db.service''])])]
        else [(''service'', TTable [(''exec-start'', TString ''/bin/db''), (''user'', TString ''root''),
                                   (''group'', TString ''root'')])]))"

definition boot_entry :: "string \<Rightarrow> string \<Rightarrow> io_error + dir_entry" where
  "boot_entry name body =
     Inr \<lparr>de_name = name, de_utf8 = True, de_is_file = True, de_is_dir = False, de_body = Inr body\<rparr>"

definition boot_kernel :: "sim kernel" where
  "boot_kernel = sim_kernel\<lparr>k_read_dir := (\<lambda>d w.
     (if d = ''/etc/writeonce/services''
      then Inr [boot_entry ''default.target.toml'' ''target'', boot_entry ''db.service.toml'' ''service'']
      else Inl Not_Found, w))\<rparr>"

definition boot_epoll :: "sim epoll" where
  "boot_epoll t w =
     (if sim_time w < 2000000000 then (Inr [], w\<lparr>sim_time := 2000000000\<rparr>)
      else (Inr [Signal_Fd [Inr (Some SIGTERM), Inr (Some SIGCHLD), Inl Would_Block]], w))"

lemma boot_kernel_ok: "kernel_ok boot_kernel sim_pids"
  using sim_kernel_ok by (simp add: kernel_ok_def same_children_def boot_kernel_def)


end
