(* ===== verification/Client.thy ===== *)
theory Client
  imports Control
begin

text \<open>
  Both ends of the control socket: its creation and removal (\<open>bind\<close> and \<open>drop\<close> of
  crates/writeonce-svc/src/control.rs), the program src/bin/wo-ctl.rs from its arguments to its exit
  status, and what the status tells of the request that the supervisor handled.
\<close>

section \<open>The listener\<close>

datatype socket_op = Unlink string | Make_Dir_All string | Bind string | Set_Nonblocking

text \<open>\<open>Path::parent\<close>\<close>

definition path_parent :: "string \<Rightarrow> string option" where
  "path_parent s =
     (let strip = trim_end_matches (\<lambda>c. c = CHR ''/''); t = strip s in
      if t = [] then None
      else
        let d = rev (dropWhile (\<lambda>c. c \<noteq> CHR ''/'') (rev t)) in
        Some (if d = [] then [] else if strip d = [] then ''/'' else strip d))"

text \<open>The calls made, given whether a path exists and what they return.\<close>

definition bind_listener ::
  "(string \<Rightarrow> bool) \<Rightarrow> (socket_op \<Rightarrow> io_error + unit) \<Rightarrow> string \<Rightarrow> (io_error + unit) \<times> socket_op list" where
  "bind_listener exists sys path =
     (let call = (\<lambda>c ops. (sys c, ops @ [c]));
          ignored = (\<lambda>c ops. (Inr (), ops @ [c])) in
      then_r (if exists path then call (Unlink path) [] else (Inr (), [])) (\<lambda>_ ops.
      then_r (case path_parent path of Some d \<Rightarrow> ignored (Make_Dir_All d) ops | None \<Rightarrow> (Inr (), ops)) (\<lambda>_ ops.
      then_r (call (Bind path) ops) (\<lambda>_ ops. call Set_Nonblocking ops))))"

definition drop_listener :: "string \<Rightarrow> socket_op list" where
  "drop_listener path = [Unlink path]"

text \<open>A socket left behind by a supervisor that died does not stop the next one.\<close>

lemma bind_replaces_stale:
  assumes "sys (Unlink path) = Inr ()" "sys (Bind path) = Inr ()" "sys Set_Nonblocking = Inr ()"
  shows "fst (bind_listener exists sys path) = Inr ()"
    and "exists path \<Longrightarrow> hd (snd (bind_listener exists sys path)) = Unlink path"
  using assms by (auto simp: bind_listener_def then_r_def Let_def split: option.split)

section \<open>The client program\<close>

definition CLIENT_SOCKET :: string where "CLIENT_SOCKET = ''/run/writeonce/control.sock''"

text \<open>A connection: the error of writing the request, and what reading gives after it was sent.\<close>

record client_stream =
  st_write :: "io_error option"
  st_reply :: "string \<Rightarrow> (io_error + string) list"

text \<open>Every line of the reply is printed; the exit status is that of the last one.\<close>

fun print_reply :: "(io_error + string) list \<Rightarrow> string list \<Rightarrow> string list \<times> nat" where
  "print_reply [] printed = (printed, client_exit printed)"
| "print_reply (Inl e # r) printed = (printed, 1)"
| "print_reply (Inr l # r) printed = print_reply r (printed @ [l])"

definition client_main ::
  "string list \<Rightarrow> string option \<Rightarrow> (string \<Rightarrow> io_error + client_stream) \<Rightarrow> string list \<times> nat" where
  "client_main argv socket_var connect =
     (case client_parse (tl argv) (case socket_var of Some s \<Rightarrow> s | None \<Rightarrow> CLIENT_SOCKET) [] of
        Usage \<Rightarrow> ([], 2)
      | Request sock cmd \<Rightarrow>
          (case connect sock of
             Inl e \<Rightarrow> ([], 1)
           | Inr st \<Rightarrow>
               (case st_write st of
                  Some e \<Rightarrow> ([], 1)
                | None \<Rightarrow> print_reply (st_reply st (request_line cmd @ [LF])) [])))"

lemma print_reply_lines: "print_reply (map Inr ls) printed = (printed @ ls, client_exit (printed @ ls))"
  by (induction ls arbitrary: printed) simp_all

text \<open>A read that fails is a failure, whatever was read before.\<close>

lemma print_reply_fails: "snd (print_reply (map Inr ls @ Inl e # r) printed) = 1"
  by (induction ls arbitrary: printed) simp_all

section \<open>Both ends together\<close>

text \<open>What the supervisor sends for the lines of a reply, and what \<open>lines\<close> makes of it.\<close>

definition reply_text :: "string list \<Rightarrow> string" where
  "reply_text ls = concat (map (\<lambda>l. l @ [LF]) ls)"

definition one_line :: "string \<Rightarrow> bool" where
  "one_line l \<longleftrightarrow> LF \<notin> set l \<and> \<not> ends_with [CR] l"

lemma split_on_last: "LF \<notin> set l \<Longrightarrow> split_on LF (x @ LF # l @ [LF]) = split_on LF x @ [l, []]"
proof (induction x)
  case Nil
  then show ?case by (simp add: split_on_append)
next
  case (Cons c x)
  then show ?case by (cases "split_on LF x") auto
qed

lemma strip_cr_id: "\<not> ends_with [CR] l \<Longrightarrow> strip_cr l = l"
  by (simp add: strip_cr_def ends_with_def split: option.split)

lemma last_line:
  assumes "one_line l"
  shows "\<exists>earlier. lines (reply_text (ls @ [l])) = earlier @ [l]"
proof (cases ls rule: rev_cases)
  case Nil
  have "split_on LF (l @ [LF]) = [l, []]" using assms split_on_append[of LF l "[]"] by (simp add: one_line_def)
  with Nil assms show ?thesis by (simp add: reply_text_def lines_def strip_cr_id one_line_def)
next
  case (snoc ks m)
  then have "reply_text (ls @ [l]) = (reply_text ks @ m) @ LF # l @ [LF]" by (simp add: reply_text_def)
  with split_on_last[of l "reply_text ks @ m"] assms
  have "split_on LF (reply_text (ls @ [l])) = split_on LF (reply_text ks @ m) @ [l, []]" by (simp add: one_line_def)
  then have "lines (reply_text (ls @ [l])) = map strip_cr (split_on LF (reply_text ks @ m)) @ [l]"
    using assms by (simp add: lines_def strip_cr_id one_line_def butlast_append)
  then show ?thesis by blast
qed

lemma handle_one_sends:
  fixes k :: "'w kernel"
  assumes "\<forall>n. write_fails env n = None" "handle_one k env read st = Some (down, s', w', c')"
  shows "sent c' \<noteq> []"
proof -
  have "sent (snd (snd (last_write env l st1))) \<noteq> []" for l and st1 :: "'w ctl"
    using assms(1) by (cases st1) (simp add: last_write_def write_line_def)
  moreover have "\<exists>l st1. last_write env l st1 = (s', w', c')"
  proof (cases "\<exists>line. read = Inr line \<and> split_whitespace (trim_end_matches (\<lambda>c. c = CR \<or> c = LF) line) \<noteq> []")
    case True
    then obtain parts r st1 where "run_command k env parts st = Some (down, r, st1)"
      "last_write env (case r of Inr _ \<Rightarrow> ''ok'' | Inl e \<Rightarrow> ''err: '' @ e) st1 = (s', w', c')"
      using assms(2) by (auto simp: handle_one_def Let_def simp del: split_paired_Ex)
    then show ?thesis by blast
  next
    case False
    with assms(2) show ?thesis by (cases read) (auto simp: handle_one_def simp del: split_paired_Ex)
  qed
  ultimately show ?thesis by (metis snd_conv)
qed



text \<open>An error of several lines would end the reply with a line that is not an error.\<close>

lemma split_error_succeeds:
  "print_reply (map Inr (lines (reply_text [''err: one'' @ [LF] @ ''two'']))) [] = ([''err: one'', ''two''], 0)"
  by code_simp

end
