(* ===== verification/Logind_State.thy ===== *)
theory Logind_State
  imports Rust_Text "HOL-Library.AList"
begin

text \<open>
  The login daemon's registry, crates/writeonce-logind/src/state.rs: sessions, inhibitors and
  their counters, the walk from a process to the session it belongs to, and user names. The
  hash map of sessions is an association list; the order it is iterated in, the files under
  /proc, /etc/passwd and the clock are an argument.
\<close>

section \<open>State\<close>

record session_info =
  si_id :: string
  si_uid :: u32
  si_user_name :: string
  si_seat :: string
  si_vtnr :: u32
  si_display :: string
  si_remote :: bool
  si_service :: string
  si_class :: string
  si_type :: string
  si_state :: string
  si_idle_hint :: bool
  si_idle_since :: u64
  si_leader_pid :: u32
  si_timestamp_usec :: u64

record inhibitor =
  ih_id :: u32
  ih_what :: string
  ih_who :: string
  ih_why :: string
  ih_mode :: string
  ih_uid :: u32
  ih_pid :: u32

record app_state =
  sessions :: "(string \<times> session_info) list"
  next_session_id :: u64
  next_inhibitor_id :: u32
  inhibitors :: "inhibitor list"
  preparing_for_shutdown :: bool
  preparing_for_sleep :: bool

definition new_app_state :: app_state where
  "new_app_state =
     \<lparr>sessions = [], next_session_id = 1, next_inhibitor_id = 1, inhibitors = [],
      preparing_for_shutdown = False, preparing_for_sleep = False\<rparr>"

definition allocate_session_id :: "app_state \<Rightarrow> string \<times> app_state" where
  "allocate_session_id st =
     (CHR ''c'' # show_nat (unat (next_session_id st)), st\<lparr>next_session_id := next_session_id st + 1\<rparr>)"

definition allocate_inhibitor_id :: "app_state \<Rightarrow> u32 \<times> app_state" where
  "allocate_inhibitor_id st =
     (next_inhibitor_id st, st\<lparr>next_inhibitor_id := next_inhibitor_id st + 1\<rparr>)"

text \<open>What the daemon reads from the machine during one call.\<close>

record logind_env =
  hash_iter :: "(string \<times> session_info) list \<Rightarrow> (string \<times> session_info) list"
  proc_status :: "u32 \<Rightarrow> io_error + string"
  passwd :: "io_error + string"
  clock_usec :: u64
  path_ok :: "string \<Rightarrow> bool"
  serve_error :: "string option"
  pipe_result :: "string + (int \<times> int)"
  emit_error :: "string option"
  sender_result :: "string + (u32 \<times> u32)"
  vt_error :: "u32 \<Rightarrow> string option"

definition session_values :: "logind_env \<Rightarrow> app_state \<Rightarrow> session_info list" where
  "session_values env st = map snd (hash_iter env (sessions st))"

lemma set_update_subset: "set (AList.update k v al) \<subseteq> insert (k, v) (set al)"
  by (induction al) auto

section \<open>From a process to its session\<close>

fun ppid_line :: "string list \<Rightarrow> u32 option" where
  "ppid_line [] = None"
| "ppid_line (l # ls) =
     (case strip_prefix ''PPid:'' l of Some rest \<Rightarrow> parse_u32 (trim rest) | None \<Rightarrow> ppid_line ls)"

definition read_ppid :: "logind_env \<Rightarrow> u32 \<Rightarrow> u32 option" where
  "read_ppid env pid = (case proc_status env pid of Inl _ \<Rightarrow> None | Inr body \<Rightarrow> ppid_line (lines body))"

fun find_leader :: "nat \<Rightarrow> (u32 \<Rightarrow> u32 option) \<Rightarrow> session_info list \<Rightarrow> u32 \<Rightarrow> session_info option" where
  "find_leader 0 ppid ss pid = None"
| "find_leader (Suc n) ppid ss pid =
     (if pid = 0 \<or> pid = 1 then None
      else case find (\<lambda>s. si_leader_pid s = pid) ss of
             Some s \<Rightarrow> Some s
           | None \<Rightarrow> (case ppid pid of None \<Rightarrow> None | Some p \<Rightarrow> find_leader n ppid ss p))"

definition find_session_by_pid :: "logind_env \<Rightarrow> app_state \<Rightarrow> u32 \<Rightarrow> session_info option" where
  "find_session_by_pid env st pid = find_leader 32 (read_ppid env) (session_values env st) pid"

section \<open>Paths and names\<close>

definition session_object_path :: "string \<Rightarrow> string" where
  "session_object_path i = ''/org/freedesktop/login1/session/'' @ i"

definition seat_object_path :: "string \<Rightarrow> string" where
  "seat_object_path i = ''/org/freedesktop/login1/seat/'' @ i"

definition user_object_path :: "u32 \<Rightarrow> string" where
  "user_object_path u = ''/org/freedesktop/login1/user/_'' @ show_nat (unat u)"

definition field_or_empty :: "string list \<Rightarrow> nat \<Rightarrow> string" where
  "field_or_empty fs i = (case nth_opt fs i of None \<Rightarrow> [] | Some f \<Rightarrow> f)"

fun passwd_name :: "string list \<Rightarrow> u32 \<Rightarrow> string option" where
  "passwd_name [] uid = None"
| "passwd_name (l # ls) uid =
     (let fs = split_on (CHR '':'') l in
      if parse_u32 (field_or_empty fs 2) = Some uid then Some (field_or_empty fs 0)
      else passwd_name ls uid)"

definition lookup_username :: "logind_env \<Rightarrow> u32 \<Rightarrow> string" where
  "lookup_username env uid =
     (case passwd env of
        Inl _ \<Rightarrow> show_nat (unat uid)
      | Inr body \<Rightarrow> (case passwd_name (lines body) uid of Some n \<Rightarrow> n | None \<Rightarrow> show_nat (unat uid)))"

section \<open>Identifiers are fresh\<close>

definition session_name :: "nat \<Rightarrow> string" where
  "session_name n = CHR ''c'' # show_nat n"

lemma session_name_inject: "session_name m = session_name n \<longleftrightarrow> m = n"
  by (simp add: session_name_def show_nat_inject)

interpretation sid: id_source allocate_session_id session_name "\<lambda>st. unat (next_session_id st)" "2 ^ 64"
  by unfold_locales
     (auto simp: allocate_session_id_def session_name_def inj_on_def show_nat_inject unat_word_ariths)

interpretation iid: id_source allocate_inhibitor_id of_nat "\<lambda>st. unat (next_inhibitor_id st)" "2 ^ 32"
proof unfold_locales
  fix s :: app_state
  show "fst (allocate_inhibitor_id s) = of_nat (unat (next_inhibitor_id s))"
    by (simp add: allocate_inhibitor_id_def)
  show "Suc (unat (next_inhibitor_id s)) < 2 ^ 32 \<Longrightarrow>
      unat (next_inhibitor_id (snd (allocate_inhibitor_id s))) = Suc (unat (next_inhibitor_id s))"
    by (simp add: allocate_inhibitor_id_def unat_word_ariths)
  have "unat (of_nat n :: u32) = n" if "n < 2 ^ 32" for n using that by (simp add: unat_of_nat)
  then show "inj_on (of_nat :: nat \<Rightarrow> u32) {..<2 ^ 32}" by (intro inj_on_inverseI[of _ unat]) simp
qed

section \<open>The nearest ancestor that leads a session\<close>

fun nth_parent :: "(u32 \<Rightarrow> u32 option) \<Rightarrow> nat \<Rightarrow> u32 \<Rightarrow> u32 option" where
  "nth_parent ppid 0 pid = Some pid"
| "nth_parent ppid (Suc i) pid = Option.bind (ppid pid) (nth_parent ppid i)"

text \<open>The i-th ancestor, if the chain up to it stays clear of processes 0 and 1.\<close>

definition user_parent :: "(u32 \<Rightarrow> u32 option) \<Rightarrow> nat \<Rightarrow> u32 \<Rightarrow> u32 option" where
  "user_parent ppid i pid =
     (if \<exists>j \<le> i. nth_parent ppid j pid \<in> {Some 0, Some 1} then None else nth_parent ppid i pid)"

lemma user_parent_0: "user_parent ppid 0 pid = (if pid = 0 \<or> pid = 1 then None else Some pid)"
  by (auto simp: user_parent_def)

lemma user_parent_Suc:
  "user_parent ppid (Suc i) pid =
     (if pid = 0 \<or> pid = 1 then None else Option.bind (ppid pid) (user_parent ppid i))"
proof -
  have "(\<exists>j \<le> Suc i. nth_parent ppid j pid \<in> {Some 0, Some 1}) \<longleftrightarrow>
      pid = 0 \<or> pid = 1 \<or> (\<exists>j \<le> i. nth_parent ppid (Suc j) pid \<in> {Some 0, Some 1})"
    by (metis (no_types, lifting) Suc_le_mono gr0_implies_Suc insert_iff le_zero_eq nth_parent.simps(1)
        option.inject singletonD not_gr_zero le0)
  then show ?thesis by (cases "ppid pid") (auto simp: user_parent_def)
qed

lemma find_leader_Some:
  assumes "find_leader n ppid ss pid = Some s"
  shows "s \<in> set ss \<and> (\<exists>i < n. user_parent ppid i pid = Some (si_leader_pid s)
    \<and> (\<forall>j < i. \<forall>p. user_parent ppid j pid = Some p \<longrightarrow> p \<notin> si_leader_pid ` set ss))"
  using assms
proof (induction n ppid ss pid rule: find_leader.induct)
  case (2 n ppid ss pid)
  then have pid: "\<not> (pid = 0 \<or> pid = 1)" by auto
  show ?case
  proof (cases "find (\<lambda>s. si_leader_pid s = pid) ss")
    case None
    with "2.prems" pid obtain p where p: "ppid pid = Some p" "find_leader n ppid ss p = Some s"
      by (auto split: option.splits)
    from "2.IH"[OF pid None p] obtain i where i: "s \<in> set ss" "i < n"
      "user_parent ppid i p = Some (si_leader_pid s)"
      "\<forall>j < i. \<forall>q. user_parent ppid j p = Some q \<longrightarrow> q \<notin> si_leader_pid ` set ss" by blast
    have "\<forall>j < Suc i. \<forall>q. user_parent ppid j pid = Some q \<longrightarrow> q \<notin> si_leader_pid ` set ss"
    proof (intro allI impI)
      fix j q assume j: "j < Suc i" "user_parent ppid j pid = Some q"
      show "q \<notin> si_leader_pid ` set ss"
      proof (cases j)
        case 0
        with j None pid show ?thesis by (auto simp: user_parent_0 find_None_iff)
      next
        case (Suc j')
        with j i(4) pid p show ?thesis by (simp add: user_parent_Suc)
      qed
    qed
    moreover have "user_parent ppid (Suc i) pid = Some (si_leader_pid s)"
      using i(3) pid p by (simp add: user_parent_Suc)
    ultimately show ?thesis using i(1,2) by (meson Suc_less_eq)
  next
    case (Some t)
    with "2.prems" pid have "t = s" by simp
    with Some have s: "s \<in> set ss" "si_leader_pid s = pid" by (auto simp: find_Some_iff)
    have "user_parent ppid 0 pid = Some (si_leader_pid s)" using pid s(2) by (simp add: user_parent_0)
    with s(1) show ?thesis by (intro conjI exI[of _ 0]) simp_all
  qed
qed simp

lemma find_leader_None:
  assumes "find_leader n ppid ss pid = None" "i < n" "user_parent ppid i pid = Some p"
  shows "p \<notin> si_leader_pid ` set ss"
  using assms
proof (induction n ppid ss pid arbitrary: i rule: find_leader.induct)
  case (2 n ppid ss pid)
  then have pid: "\<not> (pid = 0 \<or> pid = 1)"
    by (cases i) (auto simp: user_parent_0 user_parent_Suc split: if_splits)
  then have none: "find (\<lambda>s. si_leader_pid s = pid) ss = None"
    using "2.prems"(1) by (auto split: option.splits)
  show ?case
  proof (cases i)
    case 0
    with "2.prems"(3) none pid show ?thesis by (auto simp: user_parent_0 find_None_iff)
  next
    case (Suc i')
    with "2.prems"(3) pid obtain q where q: "ppid pid = Some q" "user_parent ppid i' q = Some p"
      by (auto simp: user_parent_Suc bind_eq_Some_conv)
    have "find_leader n ppid ss q = None" using "2.prems"(1) pid none q(1) by simp
    from "2.IH"[OF pid none q(1) this _ q(2)] Suc "2.prems"(2) show ?thesis by simp
  qed
qed simp

text \<open>
  A process belongs to the session led by its nearest ancestor that leads one, itself
  included, as far as 31 generations up and short of processes 0 and 1; if there is no such
  ancestor the lookup finds nothing.
\<close>

lemma find_session_by_pid_nearest:
  "case find_session_by_pid env st pid of
     None \<Rightarrow> \<not> (\<exists>i p. i < 32 \<and> user_parent (read_ppid env) i pid = Some p
                \<and> p \<in> si_leader_pid ` set (session_values env st))
   | Some s \<Rightarrow> s \<in> set (session_values env st)
       \<and> (\<exists>i < 32. user_parent (read_ppid env) i pid = Some (si_leader_pid s)
            \<and> \<not> (\<exists>j p. j < i \<and> user_parent (read_ppid env) j pid = Some p
                    \<and> p \<in> si_leader_pid ` set (session_values env st)))"
  using find_leader_Some[of 32 "read_ppid env" "session_values env st" pid]
    find_leader_None[of 32 "read_ppid env" "session_values env st" pid]
  by (auto simp: find_session_by_pid_def split: option.split)

end
