(* ===== verification/Logind.thy ===== *)
theory Logind
  imports Logind_State
begin

text \<open>
  The bus interfaces of the login daemon: crates/writeonce-logind/src/manager.rs, session.rs
  and seat.rs. The state sits behind a mutex: a call that panics while it holds the lock
  poisons it, and every later call panics on \<open>lock().unwrap()\<close>. An answer is therefore
  \<open>None\<close> for a panic, or the result of the call, with the daemon afterwards. What the bus
  library, the kernel and the clock return during a call is the argument \<open>env\<close>; the objects
  served, the signals emitted, the processes signalled and the terminals switched to are
  recorded in the daemon.
\<close>

section \<open>The daemon and its lock\<close>

datatype bus_signal =
    Session_New string string | Session_Removed string string
  | Lock_Signal string | Unlock_Signal string

record logind =
  app :: app_state
  poisoned :: bool
  served :: "string list"
  bus :: "bus_signal list"
  kills :: "(u32 \<times> nat) list"
  vts :: "u32 list"

datatype fdo_error = Failed string | Invalid_Args string

type_synonym 'a answer = "(fdo_error + 'a) option \<times> logind"

definition new_logind :: logind where
  "new_logind = \<lparr>app = new_app_state, poisoned = False, served = [], bus = [], kills = [], vts = []\<rparr>"

definition locked :: "logind \<Rightarrow> (app_state \<Rightarrow> 'a answer) \<Rightarrow> 'a answer" where
  "locked l f = (if poisoned l then (None, l) else f (app l))"

text \<open>A lock that is only read and released again.\<close>

definition reading :: "logind \<Rightarrow> (app_state \<Rightarrow> fdo_error + 'a) \<Rightarrow> 'a answer" where
  "reading l f = locked l (\<lambda>st. (Some (f st), l))"

text \<open>Steps of a call: the rest only runs if this one neither panics nor fails.\<close>

definition ans_then :: "'a answer \<Rightarrow> ('a \<Rightarrow> logind \<Rightarrow> 'b answer) \<Rightarrow> 'b answer" where
  "ans_then r f =
     (case r of (None, l) \<Rightarrow> (None, l) | (Some (Inl e), l) \<Rightarrow> (Some (Inl e), l) | (Some (Inr x), l) \<Rightarrow> f x l)"

text \<open>A path that is not an object path: \<open>unwrap\<close> panics, with the lock held or not.\<close>

definition object_path :: "logind_env \<Rightarrow> bool \<Rightarrow> string \<Rightarrow> logind \<Rightarrow> string answer" where
  "object_path env holding p l =
     (if path_ok env p then (Some (Inr p), l)
      else (None, if holding then l\<lparr>poisoned := True\<rparr> else l))"

definition failing :: "string \<Rightarrow> string option \<Rightarrow> logind \<Rightarrow> (logind \<Rightarrow> logind) \<Rightarrow> unit answer" where
  "failing what err l f =
     (case err of Some e \<Rightarrow> (Some (Inl (Failed (what @ '': '' @ e))), l) | None \<Rightarrow> (Some (Inr ()), f l))"

definition emit :: "logind_env \<Rightarrow> string \<Rightarrow> bus_signal \<Rightarrow> logind \<Rightarrow> unit answer" where
  "emit env what sg l = failing (''emit '' @ what) (emit_error env) l (\<lambda>l. l\<lparr>bus := bus l @ [sg]\<rparr>)"

definition make_pipe :: "logind_env \<Rightarrow> logind \<Rightarrow> (int \<times> int) answer" where
  "make_pipe env l =
     (Some (case pipe_result env of Inl e \<Rightarrow> Inl (Failed (''pipe: '' @ e)) | Inr fds \<Rightarrow> Inr fds), l)"

section \<open>Manager: sessions\<close>

record create_args =
  ca_uid :: u32
  ca_pid :: u32
  ca_service :: string
  ca_type :: string
  ca_class :: string
  ca_seat :: string
  ca_vtnr :: u32
  ca_display :: string
  ca_remote :: bool

definition or_default :: "string \<Rightarrow> string \<Rightarrow> string" where
  "or_default d s = (if s = [] then d else s)"

definition new_session :: "logind_env \<Rightarrow> create_args \<Rightarrow> string \<Rightarrow> session_info" where
  "new_session env a i =
     \<lparr>si_id = i, si_uid = ca_uid a, si_user_name = lookup_username env (ca_uid a),
      si_seat = or_default ''seat0'' (ca_seat a), si_vtnr = ca_vtnr a, si_display = ca_display a,
      si_remote = ca_remote a, si_service = or_default ''writeonce-login'' (ca_service a),
      si_class = or_default ''user'' (ca_class a), si_type = or_default ''tty'' (ca_type a),
      si_state = ''active'', si_idle_hint = False, si_idle_since = 0, si_leader_pid = ca_pid a,
      si_timestamp_usec = clock_usec env\<rparr>"

definition register_session :: "logind_env \<Rightarrow> create_args \<Rightarrow> logind \<Rightarrow> (string \<times> session_info) answer" where
  "register_session env a l = locked l (\<lambda>st.
     (case allocate_session_id st of (i, st') \<Rightarrow>
        let info = new_session env a i in
        (Some (Inr (i, info)), l\<lparr>app := st'\<lparr>sessions := AList.update i info (sessions st')\<rparr>\<rparr>)))"

text \<open>The reply: id, path, runtime directory, the write end of the FIFO, uid, seat, terminal, existing.\<close>

type_synonym create_reply = "string \<times> string \<times> string \<times> int \<times> u32 \<times> string \<times> u32 \<times> bool"

definition create_session :: "logind_env \<Rightarrow> create_args \<Rightarrow> logind \<Rightarrow> create_reply answer" where
  "create_session env a l =
     ans_then (register_session env a l) (\<lambda>(i, info) l.
     ans_then (object_path env False (session_object_path i) l) (\<lambda>path l.
     ans_then (failing ''at(session)'' (serve_error env) l (\<lambda>l. l\<lparr>served := served l @ [path]\<rparr>)) (\<lambda>_ l.
     ans_then (make_pipe env l) (\<lambda>(_, w) l.
     ans_then (emit env ''SessionNew'' (Session_New i path) l) (\<lambda>_ l.
       (Some (Inr (i, path, ''/run/user/'' @ show_nat (unat (ca_uid a)), w, ca_uid a,
                   si_seat info, ca_vtnr a, False)), l))))))"

definition no_such_session :: "string \<Rightarrow> fdo_error" where
  "no_such_session i = Failed (''no such session: '' @ i)"

definition release_session :: "logind_env \<Rightarrow> string \<Rightarrow> logind \<Rightarrow> unit answer" where
  "release_session env i l =
     ans_then (locked l (\<lambda>st.
         if map_of (sessions st) i = None then (Some (Inl (no_such_session i)), l)
         else (Some (Inr ()), l\<lparr>app := st\<lparr>sessions := AList.delete i (sessions st)\<rparr>\<rparr>))) (\<lambda>_ l.
     ans_then (object_path env False (session_object_path i) l) (\<lambda>path l.
       emit env ''SessionRemoved'' (Session_Removed i path)
         (l\<lparr>served := filter (\<lambda>p. p \<noteq> path) (served l)\<rparr>)))"

section \<open>Manager: lookup\<close>

definition get_session :: "logind_env \<Rightarrow> string \<Rightarrow> logind \<Rightarrow> string answer" where
  "get_session env i l = locked l (\<lambda>st.
     if map_of (sessions st) i \<noteq> None then object_path env True (session_object_path i) l
     else (Some (Inl (no_such_session i)), l))"

definition get_session_by_pid :: "logind_env \<Rightarrow> u32 \<Rightarrow> logind \<Rightarrow> string answer" where
  "get_session_by_pid env pid l = locked l (\<lambda>st.
     case find_session_by_pid env st pid of
       Some s \<Rightarrow> object_path env True (session_object_path (si_id s)) l
     | None \<Rightarrow> (Some (Inl (Failed (''pid '' @ show_nat (unat pid) @ '' not in any session''))), l))"

definition get_current_session :: "logind_env \<Rightarrow> logind \<Rightarrow> string answer" where
  "get_current_session env l =
     (case sender_result env of
        Inl e \<Rightarrow> (Some (Inl (Failed (''sender resolution: '' @ e))), l)
      | Inr (_, pid) \<Rightarrow> locked l (\<lambda>st.
          case find_session_by_pid env st pid of
            Some s \<Rightarrow> object_path env True (session_object_path (si_id s)) l
          | None \<Rightarrow> (Some (Inl (Failed (''pid '' @ show_nat (unat pid) @ '' not associated with any session''))), l)))"

text \<open>A list of answers, stopping at the first panic.\<close>

fun ans_map :: "('a \<Rightarrow> logind \<Rightarrow> 'b answer) \<Rightarrow> 'a list \<Rightarrow> logind \<Rightarrow> 'b list answer" where
  "ans_map f [] l = (Some (Inr []), l)"
| "ans_map f (x # xs) l =
     ans_then (f x l) (\<lambda>y l. ans_then (ans_map f xs l) (\<lambda>ys l. (Some (Inr (y # ys)), l)))"

definition list_entry :: "logind_env \<Rightarrow> session_info \<Rightarrow> logind \<Rightarrow> (string \<times> u32 \<times> string \<times> string \<times> string) answer" where
  "list_entry env s l = ans_then (object_path env True (session_object_path (si_id s)) l)
     (\<lambda>path l. (Some (Inr (si_id s, si_uid s, si_user_name s, si_seat s, path)), l))"

definition list_sessions :: "logind_env \<Rightarrow> logind \<Rightarrow> (string \<times> u32 \<times> string \<times> string \<times> string) list answer" where
  "list_sessions env l = locked l (\<lambda>st. ans_map (list_entry env) (session_values env st) l)"

definition list_seats :: "logind_env \<Rightarrow> logind \<Rightarrow> (string \<times> string) list answer" where
  "list_seats env l = ans_then (object_path env False (seat_object_path ''seat0'') l)
     (\<lambda>path l. (Some (Inr [(''seat0'', path)]), l))"

text \<open>The first session of each user, in iteration order.\<close>

fun first_of_users :: "u32 set \<Rightarrow> session_info list \<Rightarrow> session_info list" where
  "first_of_users seen [] = []"
| "first_of_users seen (s # ss) =
     (if si_uid s \<in> seen then first_of_users seen ss
      else s # first_of_users (insert (si_uid s) seen) ss)"

definition user_entry :: "logind_env \<Rightarrow> session_info \<Rightarrow> logind \<Rightarrow> (u32 \<times> string \<times> string) answer" where
  "user_entry env s l = ans_then (object_path env True (user_object_path (si_uid s)) l)
     (\<lambda>path l. (Some (Inr (si_uid s, si_user_name s, path)), l))"

definition list_users :: "logind_env \<Rightarrow> logind \<Rightarrow> (u32 \<times> string \<times> string) list answer" where
  "list_users env l = locked l (\<lambda>st. ans_map (user_entry env) (first_of_users {} (session_values env st)) l)"

section \<open>Manager: locking and inhibitors\<close>

text \<open>\<open>SignalEmitter::new(..., path).unwrap()\<close> takes a valid path and cannot fail.\<close>

definition signal_session :: "string \<Rightarrow> (string \<Rightarrow> bus_signal) \<Rightarrow> logind_env \<Rightarrow> string \<Rightarrow> logind \<Rightarrow> unit answer" where
  "signal_session what sg env i l =
     ans_then (locked l (\<lambda>st. (Some (if map_of (sessions st) i = None then Inl (no_such_session i) else Inr ()), l))) (\<lambda>_ l.
     ans_then (object_path env False (session_object_path i) l) (\<lambda>path l. emit env what (sg path) l))"

definition lock_session :: "logind_env \<Rightarrow> string \<Rightarrow> logind \<Rightarrow> unit answer" where
  "lock_session = signal_session ''Lock'' Lock_Signal"

definition unlock_session :: "logind_env \<Rightarrow> string \<Rightarrow> logind \<Rightarrow> unit answer" where
  "unlock_session = signal_session ''Unlock'' Unlock_Signal"

record inhibit_args =
  ia_what :: string
  ia_who :: string
  ia_why :: string
  ia_mode :: string

definition quoted :: "string \<Rightarrow> string" where
  "quoted s = CHR 0x27 # s @ [CHR 0x27]"

definition add_inhibitor :: "inhibit_args \<Rightarrow> u32 \<times> u32 \<Rightarrow> app_state \<Rightarrow> u32 \<times> app_state" where
  "add_inhibitor a sender st =
     (case allocate_inhibitor_id st of (i, st') \<Rightarrow>
        (i, st'\<lparr>inhibitors := inhibitors st' @
           [\<lparr>ih_id = i, ih_what = ia_what a, ih_who = ia_who a, ih_why = ia_why a, ih_mode = ia_mode a,
             ih_uid = fst sender, ih_pid = snd sender\<rparr>]\<rparr>))"

text \<open>The reply carries the id and both ends: the watcher keeps the read end, the caller the other.\<close>

definition inhibit :: "logind_env \<Rightarrow> inhibit_args \<Rightarrow> logind \<Rightarrow> (u32 \<times> int \<times> int) answer" where
  "inhibit env a l =
     (if ia_mode a \<noteq> ''block'' \<and> ia_mode a \<noteq> ''delay''
      then (Some (Inl (Invalid_Args
             (''mode must be '' @ quoted ''block'' @ '' or '' @ quoted ''delay'' @ '', got '' @ quoted (ia_mode a)))), l)
      else
        let sender = (case sender_result env of Inl _ \<Rightarrow> (0, 0) | Inr v \<Rightarrow> v) in
        ans_then (locked l (\<lambda>st. case add_inhibitor a sender st of (i, st') \<Rightarrow> (Some (Inr i), l\<lparr>app := st'\<rparr>))) (\<lambda>i l.
        ans_then (make_pipe env l) (\<lambda>(r, w) l. (Some (Inr (i, r, w)), l))))"

definition list_inhibitors :: "logind \<Rightarrow> (string \<times> string \<times> string \<times> string \<times> u32 \<times> u32) list answer" where
  "list_inhibitors l = reading l (\<lambda>st. Inr
     (map (\<lambda>i. (ih_what i, ih_who i, ih_why i, ih_mode i, ih_uid i, ih_pid i)) (inhibitors st)))"

definition join_mode :: "inhibitor list \<Rightarrow> string \<Rightarrow> string" where
  "join_mode ihs mode =
     join '':'' (dedup (sort (concat (map (\<lambda>i. split_on (CHR '':'') (ih_what i))
       (filter (\<lambda>i. ih_mode i = mode) ihs)))))"

section \<open>Manager: properties and power\<close>

definition n_current_sessions :: "logind \<Rightarrow> u32 answer" where
  "n_current_sessions l = reading l (\<lambda>st. Inr (of_nat (length (sessions st))))"

definition get_preparing_for_shutdown :: "logind \<Rightarrow> bool answer" where
  "get_preparing_for_shutdown l = reading l (\<lambda>st. Inr (preparing_for_shutdown st))"

definition get_preparing_for_sleep :: "logind \<Rightarrow> bool answer" where
  "get_preparing_for_sleep l = reading l (\<lambda>st. Inr (preparing_for_sleep st))"

definition block_inhibited :: "logind \<Rightarrow> string answer" where
  "block_inhibited l = reading l (\<lambda>st. Inr (join_mode (inhibitors st) ''block''))"

definition delay_inhibited :: "logind \<Rightarrow> string answer" where
  "delay_inhibited l = reading l (\<lambda>st. Inr (join_mode (inhibitors st) ''delay''))"

definition manager_idle_hint :: "logind_env \<Rightarrow> logind \<Rightarrow> bool answer" where
  "manager_idle_hint env l = reading l (\<lambda>st. Inr (list_all si_idle_hint (session_values env st)))"

definition can_reboot :: string where "can_reboot = ''yes''"
definition can_power_off :: string where "can_power_off = ''yes''"
definition can_suspend :: string where "can_suspend = ''no''"
definition can_hibernate :: string where "can_hibernate = ''no''"

definition sig_term :: nat where "sig_term = 15"
definition sig_usr1 :: nat where "sig_usr1 = 10"

definition reboot :: "logind \<Rightarrow> unit answer" where
  "reboot l = (Some (Inr ()), l\<lparr>kills := kills l @ [(1, sig_term)]\<rparr>)"

definition power_off :: "logind \<Rightarrow> unit answer" where
  "power_off l = (Some (Inr ()), l\<lparr>kills := kills l @ [(1, sig_usr1)]\<rparr>)"

section \<open>Session objects\<close>

definition session_lock :: "logind_env \<Rightarrow> string \<Rightarrow> logind \<Rightarrow> unit answer" where
  "session_lock env i l = emit env ''Lock'' (Lock_Signal (session_object_path i)) l"

definition session_unlock :: "logind_env \<Rightarrow> string \<Rightarrow> logind \<Rightarrow> unit answer" where
  "session_unlock env i l = emit env ''Unlock'' (Unlock_Signal (session_object_path i)) l"

definition session_activate :: "logind_env \<Rightarrow> string \<Rightarrow> logind \<Rightarrow> unit answer" where
  "session_activate env i l =
     ans_then (reading l (\<lambda>st. ok_or (no_such_session i) (map_option si_vtnr (map_of (sessions st) i)))) (\<lambda>vt l.
       if vt = 0 then (Some (Inl (Failed (''session '' @ i @ '' has no VT (probably remote)''))), l)
       else case vt_error env vt of
              Some e \<Rightarrow> (Some (Inl (Failed (''VT_ACTIVATE('' @ show_nat (unat vt) @ '') failed: '' @ e))), l)
            | None \<Rightarrow> (Some (Inr ()), l\<lparr>vts := vts l @ [vt]\<rparr>))"

definition session_terminate :: "string \<Rightarrow> logind \<Rightarrow> unit answer" where
  "session_terminate i l = locked l (\<lambda>st.
     case map_of (sessions st) i of
       Some s \<Rightarrow> (Some (Inr ()), l\<lparr>kills := kills l @ [(si_leader_pid s, sig_term)]\<rparr>)
     | None \<Rightarrow> (Some (Inl (no_such_session i)), l))"

definition session_set_idle_hint :: "logind_env \<Rightarrow> string \<Rightarrow> bool \<Rightarrow> logind \<Rightarrow> unit answer" where
  "session_set_idle_hint env i idle l = locked l (\<lambda>st.
     case map_of (sessions st) i of
       Some s \<Rightarrow> (Some (Inr ()),
         l\<lparr>app := st\<lparr>sessions := AList.update i
             (s\<lparr>si_idle_hint := idle, si_idle_since := (if idle then clock_usec env else 0)\<rparr>) (sessions st)\<rparr>\<rparr>)
     | None \<Rightarrow> (Some (Inl (no_such_session i)), l))"

text \<open>A property read from the session, with the value it has when the session is gone.\<close>

definition session_property :: "(session_info \<Rightarrow> 'a) \<Rightarrow> 'a \<Rightarrow> string \<Rightarrow> logind \<Rightarrow> 'a answer" where
  "session_property f d i l = reading l (\<lambda>st. Inr (case map_of (sessions st) i of None \<Rightarrow> d | Some s \<Rightarrow> f s))"

definition session_user :: "logind_env \<Rightarrow> string \<Rightarrow> logind \<Rightarrow> (u32 \<times> string) answer" where
  "session_user env i l = locked l (\<lambda>st.
     let uid = (case map_of (sessions st) i of None \<Rightarrow> 0 | Some s \<Rightarrow> si_uid s) in
     ans_then (object_path env True (user_object_path uid) l) (\<lambda>path l. (Some (Inr (uid, path)), l)))"

definition session_name_of :: "string \<Rightarrow> logind \<Rightarrow> string answer" where
  "session_name_of = session_property si_user_name []"
definition session_timestamp :: "string \<Rightarrow> logind \<Rightarrow> u64 answer" where
  "session_timestamp = session_property (\<lambda>s. si_timestamp_usec s div 1000000) 0"
definition session_timestamp_monotonic :: "string \<Rightarrow> logind \<Rightarrow> u64 answer" where
  "session_timestamp_monotonic = session_property si_timestamp_usec 0"
definition session_vtnr :: "string \<Rightarrow> logind \<Rightarrow> u32 answer" where
  "session_vtnr = session_property si_vtnr 0"

definition session_seat :: "logind_env \<Rightarrow> string \<Rightarrow> logind \<Rightarrow> (string \<times> string) answer" where
  "session_seat env i l = locked l (\<lambda>st.
     let seat = (case map_of (sessions st) i of None \<Rightarrow> ''seat0'' | Some s \<Rightarrow> si_seat s) in
     ans_then (object_path env True (seat_object_path seat) l) (\<lambda>path l. (Some (Inr (seat, path)), l)))"

definition session_display :: "string \<Rightarrow> logind \<Rightarrow> string answer" where
  "session_display = session_property si_display []"
definition session_remote :: "string \<Rightarrow> logind \<Rightarrow> bool answer" where
  "session_remote = session_property si_remote False"
definition session_service :: "string \<Rightarrow> logind \<Rightarrow> string answer" where
  "session_service = session_property si_service []"
definition session_type_of :: "string \<Rightarrow> logind \<Rightarrow> string answer" where
  "session_type_of = session_property si_type []"
definition session_class :: "string \<Rightarrow> logind \<Rightarrow> string answer" where
  "session_class = session_property si_class []"
definition session_state :: "string \<Rightarrow> logind \<Rightarrow> string answer" where
  "session_state = session_property si_state []"
definition session_active :: "string \<Rightarrow> logind \<Rightarrow> bool answer" where
  "session_active = session_property (\<lambda>s. si_state s = ''active'') False"
definition session_idle_hint :: "string \<Rightarrow> logind \<Rightarrow> bool answer" where
  "session_idle_hint = session_property si_idle_hint False"
definition session_idle_since_hint :: "string \<Rightarrow> logind \<Rightarrow> u64 answer" where
  "session_idle_since_hint = session_property si_idle_since 0"
definition session_leader :: "string \<Rightarrow> logind \<Rightarrow> u32 answer" where
  "session_leader = session_property si_leader_pid 0"

section \<open>Seat objects\<close>

definition seat_active_session :: "logind_env \<Rightarrow> string \<Rightarrow> logind \<Rightarrow> (string \<times> string) answer" where
  "seat_active_session env seat l = locked l (\<lambda>st.
     case find (\<lambda>s. si_seat s = seat \<and> si_state s = ''active'') (session_values env st) of
       Some s \<Rightarrow> ans_then (object_path env True (session_object_path (si_id s)) l)
                  (\<lambda>path l. (Some (Inr (si_id s, path)), l))
     | None \<Rightarrow> (Some (Inr ([], ''/'')), l))"

definition seat_entry :: "logind_env \<Rightarrow> session_info \<Rightarrow> logind \<Rightarrow> (string \<times> string) answer" where
  "seat_entry env s l = ans_then (object_path env True (session_object_path (si_id s)) l)
     (\<lambda>path l. (Some (Inr (si_id s, path)), l))"

definition seat_sessions :: "logind_env \<Rightarrow> string \<Rightarrow> logind \<Rightarrow> (string \<times> string) list answer" where
  "seat_sessions env seat l = locked l (\<lambda>st.
     ans_map (seat_entry env) (filter (\<lambda>s. si_seat s = seat) (session_values env st)) l)"

definition seat_idle_hint :: "logind_env \<Rightarrow> string \<Rightarrow> logind \<Rightarrow> bool answer" where
  "seat_idle_hint env seat l = reading l (\<lambda>st.
     Inr (list_all si_idle_hint (filter (\<lambda>s. si_seat s = seat) (session_values env st))))"

definition seat_can_graphical :: bool where "seat_can_graphical = True"
definition seat_can_tty :: bool where "seat_can_tty = True"
definition seat_can_multi_session :: bool where "seat_can_multi_session = True"

end
