(* ===== verification/Inhibitor_Watch.thy ===== *)
theory Inhibitor_Watch
  imports Logind
begin

text \<open>
  The lifecycle of inhibitors, crates/writeonce-logind/src/inhibitor.rs: the watcher thread owns
  the read ends of the pipes and drops the record of an inhibitor when its caller closes the
  write end. The calls of bus clients, the registration of a read end, the end of a caller and
  the rounds of the watcher thread interleave; they are the steps of a relation, the lock of
  the application state being held within a step only.
\<close>

section \<open>The watcher\<close>

record watcher =
  fds :: "(u32 \<times> int) list"
  pending_adds :: "(u32 \<times> int) list"

definition new_watcher :: watcher where
  "new_watcher = \<lparr>fds = [], pending_adds = []\<rparr>"

definition watch_register :: "u32 \<Rightarrow> int \<Rightarrow> watcher \<Rightarrow> watcher" where
  "watch_register i fd w = w\<lparr>pending_adds := pending_adds w @ [(i, fd)]\<rparr>"

text \<open>\<open>ctl\<close> says for which ids adding the descriptor to epoll succeeds.\<close>

definition add_watch :: "(u32 \<Rightarrow> bool) \<Rightarrow> u32 \<times> int \<Rightarrow> (u32 \<times> int) list \<Rightarrow> (u32 \<times> int) list" where
  "add_watch ctl req m = (if ctl (fst req) then AList.update (fst req) (snd req) m else m)"

definition drain_pending :: "(u32 \<Rightarrow> bool) \<Rightarrow> watcher \<Rightarrow> watcher" where
  "drain_pending ctl w = w\<lparr>fds := fold (add_watch ctl) (pending_adds w) (fds w), pending_adds := []\<rparr>"

definition release :: "u32 \<Rightarrow> app_state \<times> watcher \<Rightarrow> app_state \<times> watcher" where
  "release i sw = (case sw of (st, w) \<Rightarrow>
     (st\<lparr>inhibitors := filter (\<lambda>h. ih_id h \<noteq> i) (inhibitors st)\<rparr>, w\<lparr>fds := AList.delete i (fds w)\<rparr>))"

text \<open>An epoll event: its data, all ones for the wake pipe, and whether it is a hang-up or error.\<close>

definition on_event :: "u64 \<times> bool \<Rightarrow> app_state \<times> watcher \<Rightarrow> app_state \<times> watcher" where
  "on_event ev sw =
     (if fst ev = - 1 then sw else if snd ev then release (ucast (fst ev)) sw else sw)"

text \<open>One round: \<open>False\<close> when the thread ends because epoll failed.\<close>

definition watch_round ::
  "(u32 \<Rightarrow> bool) \<Rightarrow> io_error + (u64 \<times> bool) list \<Rightarrow> app_state \<times> watcher \<Rightarrow> bool \<times> app_state \<times> watcher" where
  "watch_round ctl result sw = (case sw of (st, w) \<Rightarrow>
     let w1 = drain_pending ctl w in
     case result of
       Inl e \<Rightarrow> (e = Interrupted, st, w1)
     | Inr evs \<Rightarrow> (True, fold on_event evs (st, w1)))"

section \<open>The system\<close>

text \<open>
  Beside the daemon: the calls that have recorded an inhibitor but not registered its read end
  yet, the ids whose callers hold the write end, and the ids whose pipe or registration failed.
\<close>

record inhibit_system =
  sys_app :: app_state
  sys_watch :: watcher
  in_flight :: "u32 list"
  held :: "u32 set"
  lost :: "u32 set"

definition new_system :: inhibit_system where
  "new_system = \<lparr>sys_app = new_app_state, sys_watch = new_watcher, in_flight = [], held = {}, lost = {}\<rparr>"

text \<open>The last premise of a new call keeps the counter, a 32-bit word, from wrapping around.\<close>

inductive sys_step :: "inhibit_system \<Rightarrow> inhibit_system \<Rightarrow> bool" where
  Begin_Inhibit: "add_inhibitor a sender (sys_app s) = (i, st') \<Longrightarrow> Suc (unat (next_inhibitor_id (sys_app s))) < 2 ^ 32 \<Longrightarrow>
    sys_step s (s\<lparr>sys_app := st', in_flight := i # in_flight s\<rparr>)"
| Pipe_Ok: "i \<in> set (in_flight s) \<Longrightarrow>
    sys_step s (s\<lparr>sys_watch := watch_register i fd (sys_watch s), in_flight := removeAll i (in_flight s),
                  held := insert i (held s)\<rparr>)"
| Pipe_Failed: "i \<in> set (in_flight s) \<Longrightarrow>
    sys_step s (s\<lparr>in_flight := removeAll i (in_flight s), lost := insert i (lost s)\<rparr>)"
| Caller_Closes: "i \<in> held s \<Longrightarrow> sys_step s (s\<lparr>held := held s - {i}\<rparr>)"
| Watcher_Drains: "sys_step s
    (s\<lparr>sys_watch := drain_pending ctl (sys_watch s),
       lost := lost s \<union> {i \<in> fst ` set (pending_adds (sys_watch s)). \<not> ctl i}\<rparr>)"
| Watcher_Releases: "i \<in> fst ` set (fds (sys_watch s)) \<Longrightarrow> i \<notin> held s \<Longrightarrow>
    release i (sys_app s, sys_watch s) = (st', w') \<Longrightarrow>
    sys_step s (s\<lparr>sys_app := st', sys_watch := w'\<rparr>)"

inductive_cases sys_stepE: "sys_step s s'"

section \<open>The invariant\<close>

definition ids_of :: "inhibit_system \<Rightarrow> u32 set" where
  "ids_of s = ih_id ` set (inhibitors (sys_app s))"

definition watched :: "inhibit_system \<Rightarrow> u32 set" where
  "watched s = fst ` set (fds (sys_watch s))"

definition queued :: "inhibit_system \<Rightarrow> u32 set" where
  "queued s = fst ` set (pending_adds (sys_watch s))"

lemmas sys_sets = ids_of_def watched_def queued_def

definition sys_ok :: "inhibit_system \<Rightarrow> bool" where
  "sys_ok s \<longleftrightarrow>
     ids_of s = set (in_flight s) \<union> queued s \<union> watched s \<union> lost s
     \<and> set (in_flight s) \<inter> (queued s \<union> watched s \<union> lost s) = {}
     \<and> queued s \<inter> (watched s \<union> lost s) = {} \<and> watched s \<inter> lost s = {}
     \<and> held s \<subseteq> queued s \<union> watched s \<union> lost s
     \<and> ids_of s \<subseteq> of_nat ` {..<unat (next_inhibitor_id (sys_app s))}"

lemma sys_ok_new: "sys_ok new_system"
  by (simp add: sys_ok_def sys_sets new_system_def new_app_state_def new_watcher_def)

lemma fst_add_watch: "fst ` set (add_watch ctl r m) = fst ` set m \<union> (if ctl (fst r) then {fst r} else {})"
  by (simp add: add_watch_def dom_update[unfolded dom_map_of_conv_image_fst] insert_commute)

lemma fst_drain: "fst ` set (fold (add_watch ctl) rs m) = fst ` set m \<union> {i \<in> fst ` set rs. ctl i}"
proof (induction rs arbitrary: m)
  case (Cons r rs)
  then show ?case by (auto simp: fst_add_watch)
qed simp

lemma sys_ok_step:
  assumes "sys_step s s'" "sys_ok s"
  shows "sys_ok s'"
  using assms
proof (cases rule: sys_step.cases)
  case (Begin_Inhibit a sender i st')
  let ?n = "unat (next_inhibitor_id (sys_app s))"
  have i: "i = next_inhibitor_id (sys_app s)" "inhibitors st' = inhibitors (sys_app s) @
      [\<lparr>ih_id = i, ih_what = ia_what a, ih_who = ia_who a, ih_why = ia_why a, ih_mode = ia_mode a,
        ih_uid = fst sender, ih_pid = snd sender\<rparr>]"
    "next_inhibitor_id st' = next_inhibitor_id (sys_app s) + 1"
    using Begin_Inhibit(2) by (auto simp: add_inhibitor_def allocate_inhibitor_id_def)
  have sub: "ids_of s \<subseteq> of_nat ` {..<?n}" using assms(2) unfolding sys_ok_def by (elim conjE)
  have "?n < 2 ^ 32" using Begin_Inhibit(3) by simp
  from iid.alloc_fresh[OF this sub] have fresh: "i \<notin> ids_of s"
    by (simp add: i(1) allocate_inhibitor_id_def)
  have ids: "ids_of s' = insert i (ids_of s)" "watched s' = watched s" "queued s' = queued s"
    "lost s' = lost s" "held s' = held s" "set (in_flight s') = insert i (set (in_flight s))"
    by (auto simp: sys_sets Begin_Inhibit(1) i(2))
  have "unat (next_inhibitor_id (sys_app s')) = Suc ?n"
    using Begin_Inhibit(1,3) i(3) by (simp add: unat_word_ariths)
  then have "of_nat ` {..<unat (next_inhibitor_id (sys_app s'))} = insert i (of_nat ` {..<?n})"
    by (simp add: lessThan_Suc i(1))
  with sub have "ids_of s' \<subseteq> of_nat ` {..<unat (next_inhibitor_id (sys_app s'))}" by (auto simp: ids(1))
  then show ?thesis using assms(2) fresh unfolding sys_ok_def ids by auto
next
  case (Pipe_Ok i fd)
  have "ids_of s' = ids_of s" "watched s' = watched s" "queued s' = insert i (queued s)" "lost s' = lost s"
    "held s' = insert i (held s)" "set (in_flight s') = set (in_flight s) - {i}"
    "next_inhibitor_id (sys_app s') = next_inhibitor_id (sys_app s)"
    by (auto simp: sys_sets Pipe_Ok watch_register_def)
  then show ?thesis using assms(2) Pipe_Ok(2) unfolding sys_ok_def by auto
next
  case (Pipe_Failed i)
  have "ids_of s' = ids_of s" "watched s' = watched s" "queued s' = queued s" "lost s' = insert i (lost s)"
    "held s' = held s" "set (in_flight s') = set (in_flight s) - {i}"
    "next_inhibitor_id (sys_app s') = next_inhibitor_id (sys_app s)"
    by (auto simp: sys_sets Pipe_Failed)
  then show ?thesis using assms(2) Pipe_Failed(2) unfolding sys_ok_def by auto
next
  case (Caller_Closes i)
  have "ids_of s' = ids_of s" "watched s' = watched s" "queued s' = queued s" "lost s' = lost s"
    "held s' = held s - {i}" "in_flight s' = in_flight s"
    "next_inhibitor_id (sys_app s') = next_inhibitor_id (sys_app s)"
    by (auto simp: sys_sets Caller_Closes)
  then show ?thesis using assms(2) unfolding sys_ok_def by auto
next
  case (Watcher_Drains ctl)
  have "ids_of s' = ids_of s" "watched s' = watched s \<union> {i \<in> queued s. ctl i}" "queued s' = {}"
    "lost s' = lost s \<union> {i \<in> queued s. \<not> ctl i}" "held s' = held s" "in_flight s' = in_flight s"
    "next_inhibitor_id (sys_app s') = next_inhibitor_id (sys_app s)"
    by (auto simp: sys_sets Watcher_Drains drain_pending_def fst_drain)
  then show ?thesis using assms(2) unfolding sys_ok_def by auto
next
  case (Watcher_Releases i st' w')
  have "ids_of s' = ids_of s - {i}" "watched s' = watched s - {i}" "queued s' = queued s" "lost s' = lost s"
    "held s' = held s" "in_flight s' = in_flight s" "i \<in> watched s"
    "next_inhibitor_id (sys_app s') = next_inhibitor_id (sys_app s)"
    using Watcher_Releases by (auto simp: sys_sets release_def AList.delete_eq)
  then show ?thesis using assms(2) Watcher_Releases(3) unfolding sys_ok_def by auto
qed

lemma sys_ok_reachable: "sys_step\<^sup>*\<^sup>* new_system s \<Longrightarrow> sys_ok s"
  by (induction rule: rtranclp_induct) (auto intro: sys_ok_new sys_ok_step)

text \<open>No call is under way, nothing waits to be watched, and no watched pipe has hung up.\<close>

definition settled :: "inhibit_system \<Rightarrow> bool" where
  "settled s \<longleftrightarrow> in_flight s = [] \<and> queued s = {} \<and> watched s \<subseteq> held s"

text \<open>
  C12: however calls, ends of callers and rounds of the watcher interleave, an inhibitor whose
  caller holds its descriptor is in force, and every inhibitor in force belongs to a call under
  way, a held descriptor, a hang-up the watcher has not handled yet, or a pipe or registration
  that failed. In a settled state the inhibitors are exactly those held and those lost.
\<close>

theorem inhibitors_follow_callers:
  assumes "sys_step\<^sup>*\<^sup>* new_system s"
  shows "held s \<subseteq> ids_of s
    \<and> ids_of s \<subseteq> set (in_flight s) \<union> held s \<union> (queued s \<union> watched s - held s) \<union> lost s
    \<and> (settled s \<longrightarrow> ids_of s = held s \<union> lost s)"
  using sys_ok_reachable[OF assms] by (auto simp: sys_ok_def settled_def)

section \<open>The watcher catches up\<close>

text \<open>The events epoll reports when every watched pipe whose caller is gone has hung up.\<close>

definition hang_ups :: "u32 set \<Rightarrow> (u32 \<times> int) list \<Rightarrow> (u64 \<times> bool) list" where
  "hang_ups hs m = map (\<lambda>i. (ucast i, True)) (filter (\<lambda>i. i \<notin> hs) (map fst m))"

lemma ucast_id: "ucast (ucast (i :: u32) :: u64) = i" "(ucast (i :: u32) :: u64) \<noteq> - 1"
proof -
  have small: "unat i < 2 ^ 32" using unsigned_less[of i] by simp
  then have u: "unat (ucast i :: u64) = unat i" by (simp add: unsigned_ucast_eq take_bit_nat_eq_self)
  show "ucast (ucast i :: u64) = i" 
    using small by (intro word_unat_eq_iff[THEN iffD2]) (simp add: unsigned_ucast_eq take_bit_nat_eq_self take_bit_word_eq_self)
  have "unat (- 1 :: u64) = 2 ^ 64 - 1" by (simp add: unsigned_minus_1_eq_mask mask_eq_exp_minus_1)
  with small u show "(ucast i :: u64) \<noteq> - 1" by auto
qed

lemma fold_hang_ups:
  "fold on_event (map (\<lambda>i. (ucast i, True)) js) (st, w) =
     (st\<lparr>inhibitors := filter (\<lambda>h. ih_id h \<notin> set js) (inhibitors st)\<rparr>,
      w\<lparr>fds := filter (\<lambda>(i, _). i \<notin> set js) (fds w)\<rparr>)"
proof (induction js arbitrary: st w)
  case (Cons i js)
  have "on_event (ucast i, True) (st, w) = release i (st, w)" by (simp add: on_event_def ucast_id)
  then show ?case
    by (simp add: Cons.IH release_def AList.delete_eq case_prod_beta conj_commute)
       (intro arg_cong[where f = "\<lambda>p. w\<lparr>fds := filter p (fds w)\<rparr>"] ext; auto)
qed simp


section \<open>Witnesses\<close>

definition block_shutdown :: inhibit_args where
  "block_shutdown = \<lparr>ia_what = ''shutdown'', ia_who = ''pm'', ia_why = ''busy'', ia_mode = ''block''\<rparr>"

text \<open>One client holds an inhibitor; and the same client after it has gone away.\<close>

definition one_held :: inhibit_system where
  "one_held = new_system\<lparr>sys_app := snd (add_inhibitor block_shutdown (0, 700) new_app_state),
     sys_watch := watch_register 1 8 new_watcher, held := {1}\<rparr>"

lemma reachable_held: "sys_step\<^sup>*\<^sup>* new_system one_held"
proof -
  let ?st = "snd (add_inhibitor block_shutdown (0, 700) new_app_state)"
  have a: "add_inhibitor block_shutdown (0, 700) (sys_app new_system) = (1, ?st)"
    by (simp add: add_inhibitor_def allocate_inhibitor_id_def new_system_def new_app_state_def)
  let ?s1 = "new_system\<lparr>sys_app := ?st, in_flight := 1 # in_flight new_system\<rparr>"
  have "Suc (unat (next_inhibitor_id (sys_app new_system))) < 2 ^ 32"
    by (simp add: new_system_def new_app_state_def)
  from Begin_Inhibit[OF a this] have "sys_step new_system ?s1" .
  moreover have "sys_step ?s1 (?s1\<lparr>sys_watch := watch_register 1 8 (sys_watch ?s1),
      in_flight := removeAll 1 (in_flight ?s1), held := insert 1 (held ?s1)\<rparr>)"
    by (rule Pipe_Ok) simp
  moreover have "?s1\<lparr>sys_watch := watch_register 1 8 (sys_watch ?s1),
      in_flight := removeAll 1 (in_flight ?s1), held := insert 1 (held ?s1)\<rparr> = one_held"
    by (simp add: one_held_def new_system_def)
  ultimately show ?thesis by (metis converse_rtranclp_into_rtranclp rtranclp.rtrancl_refl)
qed

theorem inhibitors_follow_callers_witness: "ids_of one_held = {1}"
proof -
  have sets: "held one_held = {1}" "in_flight one_held = []" "lost one_held = {}"
    by (simp_all add: one_held_def new_system_def)
  have "ids_of one_held \<subseteq> {1}"
    by (simp add: sys_sets one_held_def add_inhibitor_def allocate_inhibitor_id_def new_app_state_def)
  with inhibitors_follow_callers[OF reachable_held] sets show ?thesis by auto
qed


end
