(* ===== verification/Logind_Safety.thy ===== *)
theory Logind_Safety
  imports Logind
begin

text \<open>
  What the login daemon promises over sequences of calls: no admissible call panics, the lock is
  never poisoned, session ids are not given twice, and the session table refines a plain map
  from ids to sessions. Calls to every interface are collected in one datatype, with the answer
  reduced to whether there was one.
\<close>

section \<open>Calls\<close>

datatype request =
    R_Create create_args | R_Release string
  | R_Get string | R_Get_By_Pid u32 | R_Get_Current | R_List_Sessions | R_List_Seats | R_List_Users
  | R_Lock string | R_Unlock string
  | R_Inhibit inhibit_args | R_List_Inhibitors
  | R_Count | R_Preparing_Shutdown | R_Preparing_Sleep | R_Block_Inhibited | R_Delay_Inhibited | R_Idle_Hint
  | R_Reboot | R_Power_Off
  | R_Session_Lock string | R_Session_Unlock string | R_Session_Activate string | R_Session_Terminate string
  | R_Session_Set_Idle string bool | R_Session_User string | R_Session_Seat string
  | R_Session_Leader string | R_Session_Active string
  | R_Seat_Active string | R_Seat_Sessions string | R_Seat_Idle string

definition answered :: "'a answer \<Rightarrow> bool \<times> logind" where
  "answered r = (fst r \<noteq> None, snd r)"

fun serve :: "logind_env \<Rightarrow> request \<Rightarrow> logind \<Rightarrow> bool \<times> logind" where
  "serve env (R_Create a) l = answered (create_session env a l)"
| "serve env (R_Release i) l = answered (release_session env i l)"
| "serve env (R_Get i) l = answered (get_session env i l)"
| "serve env (R_Get_By_Pid p) l = answered (get_session_by_pid env p l)"
| "serve env R_Get_Current l = answered (get_current_session env l)"
| "serve env R_List_Sessions l = answered (list_sessions env l)"
| "serve env R_List_Seats l = answered (list_seats env l)"
| "serve env R_List_Users l = answered (list_users env l)"
| "serve env (R_Lock i) l = answered (lock_session env i l)"
| "serve env (R_Unlock i) l = answered (unlock_session env i l)"
| "serve env (R_Inhibit a) l = answered (inhibit env a l)"
| "serve env R_List_Inhibitors l = answered (list_inhibitors l)"
| "serve env R_Count l = answered (n_current_sessions l)"
| "serve env R_Preparing_Shutdown l = answered (get_preparing_for_shutdown l)"
| "serve env R_Preparing_Sleep l = answered (get_preparing_for_sleep l)"
| "serve env R_Block_Inhibited l = answered (block_inhibited l)"
| "serve env R_Delay_Inhibited l = answered (delay_inhibited l)"
| "serve env R_Idle_Hint l = answered (manager_idle_hint env l)"
| "serve env R_Reboot l = answered (reboot l)"
| "serve env R_Power_Off l = answered (power_off l)"
| "serve env (R_Session_Lock i) l = answered (session_lock env i l)"
| "serve env (R_Session_Unlock i) l = answered (session_unlock env i l)"
| "serve env (R_Session_Activate i) l = answered (session_activate env i l)"
| "serve env (R_Session_Terminate i) l = answered (session_terminate i l)"
| "serve env (R_Session_Set_Idle i b) l = answered (session_set_idle_hint env i b l)"
| "serve env (R_Session_User i) l = answered (session_user env i l)"
| "serve env (R_Session_Seat i) l = answered (session_seat env i l)"
| "serve env (R_Session_Leader i) l = answered (session_leader i l)"
| "serve env (R_Session_Active i) l = answered (session_active i l)"
| "serve env (R_Seat_Active s) l = answered (seat_active_session env s l)"
| "serve env (R_Seat_Sessions s) l = answered (seat_sessions env s l)"
| "serve env (R_Seat_Idle s) l = answered (seat_idle_hint env s l)"

definition logind_step :: "logind \<Rightarrow> logind_env \<times> request \<Rightarrow> logind" where
  "logind_step l e = snd (serve (fst e) (snd e) l)"

section \<open>What the bus library is relied on\<close>

text \<open>
  The paths of well-formed names are object paths: letters, digits and underscores after the
  fixed prefix. Which seat names a client may choose is a condition on its call.
\<close>

definition paths_ok :: "(string \<Rightarrow> bool) \<Rightarrow> bool" where
  "paths_ok good \<longleftrightarrow> (\<forall>n. good (session_object_path (session_name n))) \<and> (\<forall>u. good (user_object_path u))
     \<and> good (seat_object_path ''seat0'')"

definition env_ok :: "(string \<Rightarrow> bool) \<Rightarrow> logind_env \<Rightarrow> bool" where
  "env_ok good env \<longleftrightarrow> paths_ok good \<and> path_ok env = good \<and> (\<forall>xs. set (hash_iter env xs) = set xs)"

fun admissible :: "(string \<Rightarrow> bool) \<Rightarrow> logind_env \<times> request \<Rightarrow> bool" where
  "admissible good (env, req) \<longleftrightarrow> env_ok good env \<and>
     (case req of R_Create a \<Rightarrow> good (seat_object_path (or_default ''seat0'' (ca_seat a))) | _ \<Rightarrow> True)"

section \<open>The invariant\<close>

definition session_ok :: "(string \<Rightarrow> bool) \<Rightarrow> string \<times> session_info \<Rightarrow> bool" where
  "session_ok good e \<longleftrightarrow> si_id (snd e) = fst e \<and> fst e \<in> range session_name
     \<and> good (seat_object_path (si_seat (snd e)))"

definition logind_ok :: "(string \<Rightarrow> bool) \<Rightarrow> logind \<Rightarrow> bool" where
  "logind_ok good l \<longleftrightarrow> \<not> poisoned l \<and> (\<forall>e \<in> set (sessions (app l)). session_ok good e)"

text \<open>An answer that is no panic and leaves the invariant.\<close>

definition fine :: "(string \<Rightarrow> bool) \<Rightarrow> 'a answer \<Rightarrow> bool" where
  "fine good r \<longleftrightarrow> fst r \<noteq> None \<and> logind_ok good (snd r)"

named_theorems fine_intros \<open>calls that answer and keep the invariant\<close>

lemma fine_answered: "fst (answered r) \<and> logind_ok good (snd (answered r)) \<longleftrightarrow> fine good r"
  by (simp add: fine_def answered_def)

lemma fine_pure [fine_intros]: "logind_ok good l \<Longrightarrow> fine good (Some x, l)"
  by (simp add: fine_def)

lemma fine_if: "(c \<Longrightarrow> fine good r) \<Longrightarrow> (\<not> c \<Longrightarrow> fine good r') \<Longrightarrow> fine good (if c then r else r')"
  by simp

lemma fine_prod: "(\<And>x y. p = (x, y) \<Longrightarrow> fine good (f x y l)) \<Longrightarrow> fine good ((case p of (x, y) \<Rightarrow> f x y) l)"
  by (cases p) simp

lemma fine_then [fine_intros]:
  assumes "fine good r" "\<And>x l. r = (Some (Inr x), l) \<Longrightarrow> logind_ok good l \<Longrightarrow> fine good (f x l)"
  shows "fine good (ans_then r f)"
  using assms by (cases r) (auto simp: fine_def ans_then_def split: option.splits sum.splits)

lemma fine_locked [fine_intros]:
  "logind_ok good l \<Longrightarrow> fine good (f (app l)) \<Longrightarrow> fine good (locked l f)"
  by (simp add: locked_def logind_ok_def)

lemma fine_reading [fine_intros]: "logind_ok good l \<Longrightarrow> fine good (reading l f)"
  unfolding reading_def by (intro fine_locked fine_pure)

lemma fine_path:
  "env_ok good env \<Longrightarrow> good p \<Longrightarrow> logind_ok good l \<Longrightarrow> fine good (object_path env h p l)"
  by (simp add: object_path_def env_ok_def fine_def)

lemma fine_failing [fine_intros]:
  "logind_ok good l \<Longrightarrow> logind_ok good (f l) \<Longrightarrow> fine good (failing what err l f)"
  by (simp add: failing_def fine_def split: option.split)

lemma logind_ok_effects [simp]:
  "logind_ok good (l\<lparr>bus := b\<rparr>) = logind_ok good l" "logind_ok good (l\<lparr>served := s\<rparr>) = logind_ok good l"
  "logind_ok good (l\<lparr>kills := ks\<rparr>) = logind_ok good l" "logind_ok good (l\<lparr>vts := v\<rparr>) = logind_ok good l"
  by (simp_all add: logind_ok_def)

lemma fine_emit [fine_intros]: "logind_ok good l \<Longrightarrow> fine good (emit env what sg l)"
  unfolding emit_def by (rule fine_failing) simp_all

lemma fine_pipe [fine_intros]: "logind_ok good l \<Longrightarrow> fine good (make_pipe env l)"
  by (simp add: make_pipe_def fine_def)

lemma logind_ok_app:
  "logind_ok good l \<Longrightarrow> (\<And>e. e \<in> set (sessions st) \<Longrightarrow> session_ok good e) \<Longrightarrow> logind_ok good (l\<lparr>app := st\<rparr>)"
  by (simp add: logind_ok_def)

lemma session_of_map:
  "logind_ok good l \<Longrightarrow> map_of (sessions (app l)) i = Some s \<Longrightarrow> session_ok good (i, s)"
  by (auto simp: logind_ok_def dest: map_of_SomeD)

lemma session_of_values:
  assumes "logind_ok good l" "env_ok good env" "s \<in> set (session_values env (app l))"
  shows "session_ok good (si_id s, s)"
proof -
  from assms(2,3) obtain k where "(k, s) \<in> set (sessions (app l))"
    by (auto simp: session_values_def env_ok_def)
  with assms(1) show ?thesis by (auto simp: logind_ok_def session_ok_def)
qed

lemma good_session_path:
  "paths_ok good \<Longrightarrow> session_ok good (i, s) \<Longrightarrow> good (session_object_path i)"
  by (auto simp: paths_ok_def session_ok_def)

lemma fine_session_path:
  assumes "paths_ok good" "env_ok good env" "logind_ok good l" "session_ok good (i, s)"
  shows "fine good (object_path env h (session_object_path i) l)"
  using good_session_path[OF assms(1,4)] by (rule fine_path[OF assms(2) _ assms(3)])

lemma fine_map:
  assumes "\<And>x l. x \<in> set xs \<Longrightarrow> logind_ok good l \<Longrightarrow> fine good (f x l)" "logind_ok good l"
  shows "fine good (ans_map f xs l)"
  using assms
proof (induction xs arbitrary: l)
  case (Cons x xs)
  show ?case unfolding ans_map.simps
    by (intro fine_then fine_pure Cons.prems(1)[OF _ Cons.prems(2)] Cons.IH) (simp_all add: Cons.prems(1))
qed (simp add: fine_def)

section \<open>Every call\<close>

lemma fine_create:
  assumes g: "paths_ok good" and e: "env_ok good env" and l: "logind_ok good l"
    and s: "good (seat_object_path (or_default ''seat0'' (ca_seat a)))"
  shows "fine good (create_session env a l)"
proof -
  have reg: "fine good (register_session env a l)"
    unfolding register_session_def
  proof (rule fine_locked[OF l])
    let ?n = "unat (next_session_id (app l))"
    have "session_ok good (session_name ?n, new_session env a (session_name ?n))"
      using s by (simp add: session_ok_def new_session_def)
    then have "\<forall>e \<in> set (AList.update (session_name ?n) (new_session env a (session_name ?n)) (sessions (app l))). session_ok good e"
      using l set_update_subset[of "session_name ?n" "new_session env a (session_name ?n)" "sessions (app l)"]
      by (auto simp: logind_ok_def)
    with l show "fine good (case allocate_session_id (app l) of (i, st') \<Rightarrow>
        let info = new_session env a i in
        (Some (Inr (i, info)), l\<lparr>app := st'\<lparr>sessions := AList.update i info (sessions st')\<rparr>\<rparr>))"
      by (simp add: allocate_session_id_def session_name_def[symmetric] fine_def logind_ok_def Let_def)
  qed
  have path: "good (session_object_path i)" if "register_session env a l = (Some (Inr (i, info)), l')" for i info l'
    using that g l
    by (auto simp: register_session_def locked_def allocate_session_id_def session_name_def[symmetric]
        paths_ok_def logind_ok_def Let_def)
  show ?thesis
    unfolding create_session_def
    by (intro fine_then[OF reg]) (auto intro!: fine_intros fine_path[OF e] path split: prod.splits)
qed

lemma fine_release:
  assumes g: "paths_ok good" and e: "env_ok good env" and l: "logind_ok good l"
  shows "fine good (release_session env i l)"
  unfolding release_session_def
proof (rule fine_then)
  let ?rm = "\<lambda>st. if map_of (sessions st) i = None then (Some (Inl (no_such_session i)), l)
         else (Some (Inr ()), l\<lparr>app := st\<lparr>sessions := AList.delete i (sessions st)\<rparr>\<rparr>)"
  have "logind_ok good (l\<lparr>app := (app l)\<lparr>sessions := AList.delete i (sessions (app l))\<rparr>\<rparr>)"
    using l by (simp add: logind_ok_def AList.delete_eq)
  with l show "fine good (locked l ?rm)" by (intro fine_locked) (simp_all add: fine_def)
  fix x l' assume r: "locked l ?rm = (Some (Inr x), l')" and l': "logind_ok good l'"
  then obtain s where "map_of (sessions (app l)) i = Some s"
    by (auto simp: locked_def split: if_splits)
  from session_of_map[OF l this] g have "good (session_object_path i)" by (rule good_session_path[rotated])
  then show "fine good (ans_then (object_path env False (session_object_path i) l') (\<lambda>path l.
       emit env ''SessionRemoved'' (Session_Removed i path)
         (l\<lparr>served := filter (\<lambda>p. p \<noteq> path) (served l)\<rparr>)))"
    by (intro fine_then fine_path[OF e _ l'] fine_emit) simp_all
qed

lemma fine_signal:
  assumes g: "paths_ok good" and e: "env_ok good env" and l: "logind_ok good l"
  shows "fine good (signal_session what sg env i l)"
  unfolding signal_session_def
proof (rule fine_then)
  let ?q = "\<lambda>st. (Some (if map_of (sessions st) i = None then Inl (no_such_session i) else Inr ()), l)"
  show "fine good (locked l ?q)" by (intro fine_locked l fine_pure)
  fix x l' assume r: "locked l ?q = (Some (Inr x), l')" and l': "logind_ok good l'"
  then obtain s where "map_of (sessions (app l)) i = Some s"
    by (auto simp: locked_def split: if_splits)
  from session_of_map[OF l this] g have "good (session_object_path i)" by (rule good_session_path[rotated])
  then show "fine good (ans_then (object_path env False (session_object_path i) l') (\<lambda>path l. emit env what (sg path) l))"
    by (intro fine_then fine_path[OF e _ l'] fine_emit) simp_all
qed

lemma find_session_values:
  "find_session_by_pid env st pid = Some s \<Longrightarrow> s \<in> set (session_values env st)"
  using find_leader_Some[of 32 "read_ppid env" "session_values env st" pid s]
  by (simp add: find_session_by_pid_def)

lemma fine_lookup:
  assumes g: "paths_ok good" and e: "env_ok good env" and l: "logind_ok good l"
  shows "fine good (get_session env i l)" "fine good (get_session_by_pid env pid l)"
    "fine good (get_current_session env l)"
proof -
  show "fine good (get_session env i l)"
    unfolding get_session_def
  proof (rule fine_locked[OF l])
    show "fine good (if map_of (sessions (app l)) i \<noteq> None then object_path env True (session_object_path i) l
        else (Some (Inl (no_such_session i)), l))"
      using fine_session_path[OF g e l session_of_map[OF l]] fine_pure[OF l] by auto
  qed
  have pid: "fine good (case find_session_by_pid env (app l) p of
       Some s \<Rightarrow> object_path env True (session_object_path (si_id s)) l | None \<Rightarrow> (Some (Inl err), l))" for p and err
    using fine_session_path[OF g e l session_of_values[OF l e find_session_values]] fine_pure[OF l]
    by (auto split: option.split)
  show "fine good (get_session_by_pid env pid l)" unfolding get_session_by_pid_def by (rule fine_locked, rule l, rule pid)
  show "fine good (get_current_session env l)"
    unfolding get_current_session_def
    using fine_pure[OF l] by (auto split: sum.split intro!: fine_locked[OF l] pid)
qed

lemma fine_lists:
  assumes g: "paths_ok good" and e: "env_ok good env" and l: "logind_ok good l"
  shows "fine good (list_sessions env l)" "fine good (list_seats env l)" "fine good (list_users env l)"
    "fine good (seat_sessions env seat l)" "fine good (seat_active_session env seat l)"
proof -
  have path: "fine good (object_path env True (session_object_path (si_id s)) l')"
    if "s \<in> set (session_values env (app l))" "logind_ok good l'" for s l'
    by (rule fine_session_path[OF g e that(2) session_of_values[OF l e that(1)]])
  have u: "good (user_object_path u)" "good (seat_object_path ''seat0'')" for u using g by (simp_all add: paths_ok_def)
  have sub: "set (first_of_users seen ss) \<subseteq> set ss" for seen ss
    by (induction seen ss rule: first_of_users.induct) auto
  show "fine good (list_sessions env l)"
    unfolding list_sessions_def list_entry_def
    by (intro fine_locked[OF l] fine_map[OF _ l] fine_then fine_pure path)
  show "fine good (list_seats env l)"
    unfolding list_seats_def by (intro fine_then fine_path[OF e u(2) l] fine_pure)
  show "fine good (list_users env l)"
    unfolding list_users_def user_entry_def
    by (intro fine_locked[OF l] fine_map[OF _ l] fine_then fine_pure fine_path[OF e u(1)])
  show "fine good (seat_sessions env seat l)"
    unfolding seat_sessions_def seat_entry_def
    by (intro fine_locked[OF l] fine_map[OF _ l] fine_then fine_pure path) auto
  show "fine good (seat_active_session env seat l)"
    unfolding seat_active_session_def
  proof (rule fine_locked[OF l])
    show "fine good (case find (\<lambda>s. si_seat s = seat \<and> si_state s = ''active'') (session_values env (app l)) of
       None \<Rightarrow> (Some (Inr ([], ''/'')), l)
     | Some s \<Rightarrow> ans_then (object_path env True (session_object_path (si_id s)) l)
                  (\<lambda>path l. (Some (Inr (si_id s, path)), l)))"
      by (auto split: option.split simp: find_Some_iff intro!: fine_pure[OF l] fine_then path[OF _ l] fine_pure)
  qed
qed

lemma fine_session_calls:
  assumes g: "paths_ok good" and e: "env_ok good env" and l: "logind_ok good l"
  shows "fine good (session_activate env i l)" "fine good (session_terminate i l)"
    "fine good (session_set_idle_hint env i b l)" "fine good (session_user env i l)"
    "fine good (session_seat env i l)" "fine good (session_property f d i l)"
proof -
  show "fine good (session_activate env i l)"
    unfolding session_activate_def
    by (intro fine_then fine_reading[OF l]) (auto split: option.split intro!: fine_pure)
  show "fine good (session_terminate i l)"
    unfolding session_terminate_def
    by (intro fine_locked[OF l]) (use l in \<open>auto split: option.split intro!: fine_pure\<close>)
  show "fine good (session_set_idle_hint env i b l)"
    unfolding session_set_idle_hint_def
  proof (rule fine_locked[OF l])
    have "session_ok good (i, s\<lparr>si_idle_hint := b, si_idle_since := t\<rparr>)" if "map_of (sessions (app l)) i = Some s" for s t
      using session_of_map[OF l that] by (simp add: session_ok_def)
    then have "logind_ok good (l\<lparr>app := (app l)\<lparr>sessions :=
        AList.update i (s\<lparr>si_idle_hint := b, si_idle_since := t\<rparr>) (sessions (app l))\<rparr>\<rparr>)"
      if "map_of (sessions (app l)) i = Some s" for s t
      using that l set_update_subset[of i "s\<lparr>si_idle_hint := b, si_idle_since := t\<rparr>" "sessions (app l)"]
      by (intro logind_ok_app) (auto simp: logind_ok_def)
    with l show "fine good (case map_of (sessions (app l)) i of None \<Rightarrow> (Some (Inl (no_such_session i)), l)
     | Some s \<Rightarrow> (Some (Inr ()),
         l\<lparr>app := (app l)\<lparr>sessions := AList.update i
             (s\<lparr>si_idle_hint := b, si_idle_since := (if b then clock_usec env else 0)\<rparr>) (sessions (app l))\<rparr>\<rparr>))"
      by (auto split: option.split intro!: fine_pure)
  qed
  have u: "good (user_object_path u)" for u using g by (simp add: paths_ok_def)
  show "fine good (session_user env i l)"
    unfolding session_user_def Let_def
    by (intro fine_locked[OF l] fine_then fine_pure fine_path[OF e u l])
  have "good (seat_object_path (case map_of (sessions (app l)) i of None \<Rightarrow> ''seat0'' | Some s \<Rightarrow> si_seat s))"
    using g session_of_map[OF l] by (auto simp: paths_ok_def session_ok_def split: option.split)
  then show "fine good (session_seat env i l)"
    unfolding session_seat_def Let_def
    by (intro fine_locked[OF l] fine_then fine_pure fine_path[OF e _ l])
  show "fine good (session_property f d i l)" unfolding session_property_def by (rule fine_reading[OF l])
qed

lemma fine_inhibit:
  assumes l: "logind_ok good l"
  shows "fine good (inhibit env a l)"
proof -
  have "fine good (locked l (\<lambda>st. case add_inhibitor a sender st of (i, st') \<Rightarrow> (Some (Inr i), l\<lparr>app := st'\<rparr>)))" for sender
    by (rule fine_locked[OF l])
       (use l in \<open>simp add: add_inhibitor_def allocate_inhibitor_id_def fine_def logind_ok_def\<close>)
  then show ?thesis
    unfolding inhibit_def Let_def by (intro fine_if fine_pure[OF l] fine_then fine_pipe fine_prod fine_pure)
qed

lemma serve_fine:
  assumes a: "admissible good (env, req)" and l: "logind_ok good l"
  shows "fst (serve env req l) \<and> logind_ok good (snd (serve env req l))"
proof -
  from a have e: "env_ok good env" and g: "paths_ok good" by (simp_all add: env_ok_def)
  note calls = fine_release[OF g e l] fine_signal[OF g e l] fine_lookup[OF g e l] fine_lists[OF g e l]
    fine_session_calls[OF g e l] fine_inhibit[OF l] fine_emit[OF l] fine_reading[OF l] fine_pure
  show ?thesis
  proof (cases req)
    case (R_Create ca)
    with a show ?thesis using fine_create[OF g e l, of ca] by (simp add: fine_answered)
  qed (simp_all add: fine_answered calls l lock_session_def unlock_session_def list_inhibitors_def
      n_current_sessions_def get_preparing_for_shutdown_def get_preparing_for_sleep_def block_inhibited_def
      delay_inhibited_def manager_idle_hint_def reboot_def power_off_def session_lock_def session_unlock_def
      session_leader_def session_active_def seat_idle_hint_def)
qed

section \<open>Sequences of calls\<close>

interpretation ld: machine logind_step "logind_ok good" "admissible good" for good
  using serve_fine by unfold_locales (auto simp: logind_step_def)

lemma logind_ok_new: "logind_ok good new_logind"
  by (simp add: logind_ok_def new_logind_def new_app_state_def)

text \<open>
  C21: whatever clients call, on every interface and in any order, no call panics and the lock
  is never poisoned, as long as the seat a client names for a new session makes an object path.
\<close>

theorem logind_never_panics:
  assumes "list_all (admissible good) es" "admissible good (env, req)"
  shows "fst (serve env req (foldl logind_step new_logind es))
    \<and> \<not> poisoned (foldl logind_step new_logind es)"
proof -
  have "logind_ok good (foldl logind_step new_logind es)" by (rule ld.run_inv[OF logind_ok_new assms(1)])
  with serve_fine[OF assms(2)] show ?thesis by (simp add: logind_ok_def)
qed

section \<open>The session table as a map\<close>

text \<open>What the calls mean: a map from ids to sessions, and the next number.\<close>

type_synonym table = "(string \<rightharpoonup> session_info) \<times> u64"

definition table_of :: "logind \<Rightarrow> table" where
  "table_of l = (map_of (sessions (app l)), next_session_id (app l))"

fun table_step :: "table \<Rightarrow> logind_env \<times> request \<Rightarrow> table" where
  "table_step (m, n) (env, R_Create a) =
     (let i = session_name (unat n) in (m(i \<mapsto> new_session env a i), n + 1))"
| "table_step (m, n) (env, R_Release i) = (m(i := None), n)"
| "table_step (m, n) (env, R_Session_Set_Idle i b) =
     (case m i of
        None \<Rightarrow> (m, n)
      | Some s \<Rightarrow> (m(i \<mapsto> s\<lparr>si_idle_hint := b, si_idle_since := (if b then clock_usec env else 0)\<rparr>), n))"
| "table_step (m, n) _ = (m, n)"

text \<open>Calls that leave the application state alone.\<close>

definition same_app :: "logind \<Rightarrow> 'a answer \<Rightarrow> bool" where
  "same_app l r \<longleftrightarrow> app (snd r) = app l"

lemma same_app_then:
  assumes "same_app l r" "\<And>x l'. app l' = app l \<Longrightarrow> same_app l (f x l')"
  shows "same_app l (ans_then r f)"
  using assms by (cases r) (auto simp: same_app_def ans_then_def split: option.splits sum.splits)

lemma same_app_basic:
  "app l' = app l \<Longrightarrow> same_app l (x, l')"
  "app l' = app l \<Longrightarrow> same_app l (object_path env h p l')"
  "app l' = app l \<Longrightarrow> same_app l (emit env what sg l')"
  "app l' = app l \<Longrightarrow> same_app l (make_pipe env l')"
  "app l' = app l \<Longrightarrow> same_app l (reading l' f)"
  "app l' = app l \<Longrightarrow> (\<And>l'. app l' = app l \<Longrightarrow> app (g l') = app l) \<Longrightarrow> same_app l (failing what err l' g)"
  by (auto simp: same_app_def object_path_def emit_def failing_def make_pipe_def reading_def locked_def split: option.splits)

lemma same_app_locked: "same_app l (f (app l)) \<Longrightarrow> same_app l (locked l f)"
  by (simp add: same_app_def locked_def)

lemma same_app_map:
  assumes "\<And>x l'. app l' = app l \<Longrightarrow> same_app l (f x l')"
  shows "app l' = app l \<Longrightarrow> same_app l (ans_map f xs l')"
proof (induction xs arbitrary: l')
  case (Cons x xs)
  show ?case unfolding ans_map.simps
    by (intro same_app_then assms Cons same_app_basic)
qed (simp add: same_app_basic)

lemma same_app_if: "(c \<Longrightarrow> same_app l r) \<Longrightarrow> (\<not> c \<Longrightarrow> same_app l r') \<Longrightarrow> same_app l (if c then r else r')"
  by simp

lemma same_app_lookup:
  "same_app l (get_session env i l)" "same_app l (get_session_by_pid env pid l)" "same_app l (get_current_session env l)"
  "same_app l (signal_session what sg env i l)" "same_app l (list_sessions env l)" "same_app l (list_seats env l)"
  "same_app l (list_users env l)" "same_app l (seat_sessions env seat l)" "same_app l (seat_active_session env seat l)"
  "same_app l (session_activate env i l)" "same_app l (session_terminate i l)" "same_app l (session_user env i l)"
  "same_app l (session_seat env i l)" "same_app l (session_property f d i l)"
  unfolding get_session_def get_session_by_pid_def get_current_session_def signal_session_def list_sessions_def
    list_seats_def list_users_def seat_sessions_def seat_active_session_def session_activate_def session_terminate_def
    session_user_def session_seat_def session_property_def list_entry_def user_entry_def seat_entry_def Let_def
  by (auto split: option.split sum.split intro!: same_app_then same_app_locked same_app_map same_app_basic)

lemma table_of_answered: "table_of (snd (answered r)) = table_of (snd r)"
  by (simp add: answered_def)

lemma table_of_same: "same_app l r \<Longrightarrow> table_of (snd r) = table_of l"
  by (simp add: same_app_def table_of_def)

lemma table_create:
  assumes "\<not> poisoned l"
  shows "table_of (snd (create_session env a l)) =
    (let i = session_name (unat (next_session_id (app l)))
     in ((fst (table_of l))(i \<mapsto> new_session env a i), next_session_id (app l) + 1))"
proof -
  let ?i = "session_name (unat (next_session_id (app l)))"
  obtain x l1 where reg: "register_session env a l = (Some (Inr x), l1)"
    and l1: "app l1 = (app l)\<lparr>next_session_id := next_session_id (app l) + 1,
        sessions := AList.update ?i (new_session env a ?i) (sessions (app l))\<rparr>"
    using assms by (simp add: register_session_def locked_def allocate_session_id_def session_name_def Let_def)
  have "same_app l1 (create_session env a l)"
    unfolding create_session_def reg ans_then_def prod.case option.case sum.case
    by (cases x) (auto simp: ans_then_def[symmetric] intro!: same_app_then same_app_basic)
  then show ?thesis by (simp add: same_app_def table_of_def l1 Let_def update_conv')
qed

lemma table_release:
  assumes "\<not> poisoned l"
  shows "table_of (snd (release_session env i l)) = ((fst (table_of l))(i := None), next_session_id (app l))"
proof (cases "map_of (sessions (app l)) i")
  case None
  with assms have "snd (release_session env i l) = l"
    by (simp add: release_session_def locked_def ans_then_def)
  with None show ?thesis by (auto simp: table_of_def)
next
  case (Some s)
  let ?l = "l\<lparr>app := (app l)\<lparr>sessions := AList.delete i (sessions (app l))\<rparr>\<rparr>"
  have "release_session env i l = ans_then (object_path env False (session_object_path i) ?l) (\<lambda>path l.
       emit env ''SessionRemoved'' (Session_Removed i path) (l\<lparr>served := filter (\<lambda>p. p \<noteq> path) (served l)\<rparr>))"
    using assms Some by (simp add: release_session_def locked_def ans_then_def)
  also have "same_app ?l \<dots>" by (intro same_app_then same_app_basic) simp_all
  finally show ?thesis by (simp add: same_app_def table_of_def delete_conv')
qed

lemma table_idle:
  assumes "\<not> poisoned l"
  shows "table_of (snd (session_set_idle_hint env i b l)) = table_step (table_of l) (env, R_Session_Set_Idle i b)"
  using assms by (simp add: session_set_idle_hint_def locked_def table_of_def update_conv' split: option.split)

lemma table_inhibit:
  assumes "\<not> poisoned l"
  shows "table_of (snd (inhibit env a l)) = table_of l"
proof (cases "ia_mode a \<noteq> ''block'' \<and> ia_mode a \<noteq> ''delay''")
  case False
  obtain i l1 where l1: "locked l (\<lambda>st. case add_inhibitor a (case sender_result env of Inl _ \<Rightarrow> (0, 0) | Inr v \<Rightarrow> v) st
      of (i, st') \<Rightarrow> (Some (Inr i), l\<lparr>app := st'\<rparr>)) = (Some (Inr i), l1)" "table_of l1 = table_of l"
    using assms by (simp add: locked_def add_inhibitor_def allocate_inhibitor_id_def table_of_def)
  have "same_app l1 (inhibit env a l)"
    unfolding inhibit_def Let_def using False
    by (simp only: if_False l1(1)) (auto simp: ans_then_def make_pipe_def same_app_def split: sum.split)
  with l1(2) show ?thesis by (simp add: table_of_same)
qed (simp add: inhibit_def)

lemma serve_table:
  assumes "\<not> poisoned l"
  shows "table_of (snd (serve env req l)) = table_step (table_of l) (env, req)"
proof -
  obtain m n where t: "table_of l = (m, n)" by fastforce
  then have n: "next_session_id (app l) = n" by (simp add: table_of_def)
  note calls = same_app_lookup[THEN table_of_same]
    same_app_basic(3,5)[OF refl, THEN table_of_same]
  show ?thesis
  proof (cases req)
    case (R_Create a)
    then show ?thesis using table_create[OF assms, of env a] by (simp add: table_of_answered t n Let_def)
  next
    case (R_Release i)
    then show ?thesis using table_release[OF assms, of env i] by (simp add: table_of_answered t n)
  next
    case (R_Session_Set_Idle i b)
    then show ?thesis using table_idle[OF assms, of env i b] by (simp only: serve.simps table_of_answered)
  next
    case (R_Inhibit a)
    then show ?thesis using table_inhibit[OF assms, of env a] by (simp add: table_of_answered t)
  next
    case R_Reboot
    show ?thesis by (simp add: R_Reboot t table_of_answered reboot_def) (simp add: table_of_def t[symmetric])
  next
    case R_Power_Off
    show ?thesis by (simp add: R_Power_Off t table_of_answered power_off_def) (simp add: table_of_def t[symmetric])
  qed (simp_all add: t table_of_answered calls lock_session_def unlock_session_def list_inhibitors_def
      n_current_sessions_def get_preparing_for_shutdown_def get_preparing_for_sleep_def block_inhibited_def
      delay_inhibited_def manager_idle_hint_def session_lock_def session_unlock_def
      session_leader_def session_active_def seat_idle_hint_def)
qed

lemma run_table:
  assumes "list_all (admissible good) es" "logind_ok good l"
  shows "table_of (foldl logind_step l es) = foldl table_step (table_of l) es"
  using assms
proof (induction es arbitrary: l)
  case (Cons e es)
  have "\<not> poisoned l" using Cons.prems(2) by (simp add: logind_ok_def)
  then have "table_of (logind_step l e) = table_step (table_of l) e"
    using serve_table[of l "fst e" "snd e"] by (simp add: logind_step_def)
  with Cons ld.step_inv[of good l e] show ?case by simp
qed simp

text \<open>
  C5: the daemon implements a plain map from ids to sessions: after any sequence of admissible
  calls, its association list, read as a map, and its counter are what the map and the counter
  become when creation, release and the idle hint act on them directly and no other call does.
  In particular a session exists from its creation on even if the reply was an error.
\<close>

theorem logind_refines_table:
  assumes "list_all (admissible good) es"
  shows "table_of (foldl logind_step new_logind es) = foldl table_step (Map.empty, 1) es"
  using run_table[OF assms logind_ok_new] by (simp add: table_of_def new_logind_def new_app_state_def)

lemma table_step_bound:
  assumes "dom (fst t) \<subseteq> session_name ` {..<unat (snd t)}" "unat (snd t) + 1 < 2 ^ 64"
  shows "dom (fst (table_step t e)) \<subseteq> session_name ` {..<unat (snd (table_step t e))}
    \<and> unat (snd (table_step t e)) \<le> unat (snd t) + 1"
proof -
  obtain m n where t: "t = (m, n)" by fastforce
  obtain env req where e: "e = (env, req)" by fastforce
  show ?thesis
  proof (cases req)
    case (R_Create a)
    have n: "unat (n + 1) = unat n + 1" using assms(2) t by (simp add: unat_word_ariths)
    have "{..<unat n + 1} = insert (unat n) {..<unat n}" by auto
    with assms(1) show ?thesis by (simp add: t e R_Create Let_def n) blast
  next
    case (R_Session_Set_Idle i b)
    with assms t e show ?thesis by (cases "m i") auto
  qed (use assms t e in \<open>auto\<close>)
qed

lemma table_run_bound:
  assumes "length es + 1 < 2 ^ 64"
  shows "dom (fst (foldl table_step (Map.empty, 1) es))
      \<subseteq> session_name ` {..<unat (snd (foldl table_step (Map.empty, 1) es))}
    \<and> unat (snd (foldl table_step (Map.empty, 1) es)) \<le> length es + 1"
  using assms
proof (induction es rule: rev_induct)
  case (snoc e es)
  then have "unat (snd (foldl table_step (Map.empty, 1) es)) + 1 < 2 ^ 64"
    "dom (fst (foldl table_step (Map.empty, 1) es)) \<subseteq> session_name ` {..<unat (snd (foldl table_step (Map.empty, 1) es))}"
    by auto
  from table_step_bound[OF this(2,1), of e] snoc show ?case by auto
qed simp

text \<open>
  As long as fewer than 2^64 - 1 calls were made, a created session gets an id that no
  session has, and is then found under it with the caller's uid and leader process and the
  defaults for what the caller left empty; no other session changes.
\<close>

lemma create_session_fresh:
  assumes "list_all (admissible good) es" "length es + 1 < 2 ^ 64"
    and "create_session env a (foldl logind_step new_logind es) = (Some (Inr (i, reply)), l')"
  shows "map_of (sessions (app (foldl logind_step new_logind es))) i = None
    \<and> map_of (sessions (app l')) = (map_of (sessions (app (foldl logind_step new_logind es))))(i \<mapsto> new_session env a i)"
proof -
  let ?l = "foldl logind_step new_logind es"
  let ?n = "unat (next_session_id (app ?l))"
  have t: "table_of ?l = foldl table_step (Map.empty, 1) es"
    using run_table[OF assms(1) logind_ok_new] by (simp add: table_of_def new_logind_def new_app_state_def)
  have np: "\<not> poisoned ?l"
    using ld.run_inv[OF logind_ok_new assms(1)] by (simp add: logind_ok_def)
  have i: "i = session_name ?n"
    using assms(3) np
    by (auto simp: create_session_def register_session_def locked_def allocate_session_id_def Let_def
        ans_then_def object_path_def failing_def make_pipe_def emit_def session_name_def
        split: option.splits sum.splits if_splits prod.splits)
  have sub: "dom (map_of (sessions (app ?l))) \<subseteq> session_name ` {..<?n}"
    and bound: "?n < 2 ^ 64"
    using table_run_bound[OF assms(2)] assms(2) unfolding t[symmetric] by (simp_all add: table_of_def)
  have "fst (allocate_session_id (app ?l)) \<notin> dom (map_of (sessions (app ?l)))"
    by (rule sid.alloc_fresh[OF bound sub])
  then have "map_of (sessions (app ?l)) i = None"
    by (simp add: i sid.alloc_name domIff)
  moreover have "map_of (sessions (app l')) = (map_of (sessions (app ?l)))(i \<mapsto> new_session env a i)"
    using table_create[OF np, of env a] assms(3) by (simp add: table_of_def Let_def i)
  ultimately show ?thesis by blast
qed

section \<open>Inhibitors on the bus\<close>

text \<open>
  A client that splits BlockInhibited or DelayInhibited at the colons gets, in increasing
  order and once each, exactly what the inhibitors of that mode inhibit; without one the
  property is empty.
\<close>

lemma join_mode_tokens:
  "if filter (\<lambda>i. ih_mode i = mode) ihs = [] then join_mode ihs mode = []
   else split_on (CHR '':'') (join_mode ihs mode)
     = sorted_list_of_set (\<Union>i \<in> set (filter (\<lambda>i. ih_mode i = mode) ihs). set (split_on (CHR '':'') (ih_what i)))"
proof -
  let ?f = "filter (\<lambda>i. ih_mode i = mode) ihs"
  let ?ps = "concat (map (\<lambda>i. split_on (CHR '':'') (ih_what i)) ?f)"
  have set: "set ?ps = (\<Union>i \<in> set ?f. set (split_on (CHR '':'') (ih_what i)))" by auto
  have eq: "dedup (sort ?ps) = sorted_list_of_set (set ?ps)"
    by (rule sorted_distinct_set_unique) (auto intro: sorted_dedup distinct_dedup_sorted)
  have "split_on (CHR '':'') (join_mode ihs mode) = sorted_list_of_set (set ?ps)" if "?f \<noteq> []"
  proof -
    from that obtain i where "i \<in> set ?f" by (meson list.set_sel(1))
    then have "set ?ps \<noteq> {}" by (auto simp: set)
    then have "dedup (sort ?ps) \<noteq> []" by (metis set_dedup set_sort list.set(1))
    moreover have "\<forall>x \<in> set (dedup (sort ?ps)). CHR '':'' \<notin> set x"
      by (auto dest: split_on_no_sep)
    ultimately show ?thesis using split_on_join[of "dedup (sort ?ps)" "CHR '':''"]
      by (simp add: join_mode_def eq)
  qed
  then show ?thesis by (simp add: set[symmetric] join_mode_def)
qed

section \<open>Witnesses\<close>

text \<open>Object paths, as far as the sample calls tell them apart: the characters of a path element.\<close>

definition path_chars :: "string \<Rightarrow> bool" where
  "path_chars p \<longleftrightarrow> list_all (\<lambda>c. is_digit c \<or> is_lower c \<or> is_upper c \<or> c = CHR ''_'' \<or> c = CHR ''/'') p"

lemma paths_ok_chars: "paths_ok path_chars"
proof -
  have n: "path_chars (show_nat n)" for n using show_nat_chars by (auto simp: path_chars_def list_all_iff)
  have app: "path_chars (p @ q) \<longleftrightarrow> path_chars p \<and> path_chars q" for p q by (simp add: path_chars_def)
  have p: "path_chars ''/org/freedesktop/login1/session/''" "path_chars ''c''"
    "path_chars ''/org/freedesktop/login1/user/_''" "path_chars (seat_object_path ''seat0'')"
    by code_simp+
  have "session_object_path (session_name k) = ''/org/freedesktop/login1/session/'' @ ''c'' @ show_nat k" for k
    by (simp add: session_object_path_def session_name_def)
  then show ?thesis using n p by (simp only: paths_ok_def app user_object_path_def simp_thms)
qed

definition sample_env :: logind_env where
  "sample_env =
     \<lparr>hash_iter = (\<lambda>xs. xs), proc_status = (\<lambda>p. if p = 700 then Inr (''Name: sh'' @ [LF] @ ''PPid: 600'') else Inl Not_Found),
      passwd = Inr ''root:x:0:0::/root:/bin/sh'', clock_usec = 5000000, path_ok = path_chars,
      serve_error = None, pipe_result = Inr (8, 9), emit_error = None, sender_result = Inr (0, 700),
      vt_error = (\<lambda>_. None)\<rparr>"

definition sample_create :: "string \<Rightarrow> create_args" where
  "sample_create seat =
     \<lparr>ca_uid = 0, ca_pid = 600, ca_service = [], ca_type = [], ca_class = [], ca_seat = seat, ca_vtnr = 1,
      ca_display = [], ca_remote = False\<rparr>"

lemma env_ok_sample: "env_ok path_chars sample_env"
  using paths_ok_chars by (simp add: env_ok_def sample_env_def)

lemma admissible_sample:
  "admissible path_chars (sample_env, R_Create (sample_create []))"
  "admissible path_chars (sample_env, R_Release i)" "admissible path_chars (sample_env, R_List_Sessions)"
proof -
  have "path_chars (seat_object_path (or_default ''seat0'' (ca_seat (sample_create []))))" by code_simp
  then show "admissible path_chars (sample_env, R_Create (sample_create []))" by (simp add: env_ok_sample)
qed (simp_all add: env_ok_sample)

theorem logind_never_panics_witness:
  "fst (serve sample_env (R_Release ''c7'') (foldl logind_step new_logind
     [(sample_env, R_Create (sample_create [])), (sample_env, R_List_Sessions)]))"
proof -
  have "list_all (admissible path_chars) [(sample_env, R_Create (sample_create [])), (sample_env, R_List_Sessions)]"
    by (simp only: list.pred_inject admissible_sample simp_thms)
  from logind_never_panics[OF this admissible_sample(2)] show ?thesis by blast
qed

theorem logind_refines_table_witness:
  "map_of (sessions (app (foldl logind_step new_logind
     [(sample_env, R_Create (sample_create [])), (sample_env, R_Release ''c1'')]))) = Map.empty"
proof -
  have "list_all (admissible path_chars) [(sample_env, R_Create (sample_create [])), (sample_env, R_Release ''c1'')]"
    by (simp only: list.pred_inject admissible_sample simp_thms)
  from logind_refines_table[OF this] have "fst (table_of (foldl logind_step new_logind
     [(sample_env, R_Create (sample_create [])), (sample_env, R_Release ''c1'')])) =
     (Map.empty(session_name 1 \<mapsto> new_session sample_env (sample_create []) (session_name 1)))(''c1'' := None)"
    by (simp add: Let_def)
  moreover have "session_name 1 = ''c1''" by code_simp
  ultimately show ?thesis by (simp add: table_of_def)
qed

lemma create_session_fresh_witness:
  "\<exists>reply l'. create_session sample_env (sample_create [])
        (foldl logind_step new_logind [(sample_env, R_Create (sample_create []))]) = (Some (Inr (''c2'', reply)), l')
      \<and> map_of (sessions (app l')) ''c2'' = Some (new_session sample_env (sample_create []) ''c2'')"
proof -
  let ?r = "create_session sample_env (sample_create [])
        (foldl logind_step new_logind [(sample_env, R_Create (sample_create []))])"
  have "map_option (map_sum (\<lambda>_. ()) fst) (fst ?r) = Some (Inr ''c2'')" by code_simp
  then obtain x where "fst ?r = Some x" "map_sum (\<lambda>_. ()) fst x = Inr ''c2''" by auto
  then obtain reply where "fst ?r = Some (Inr (''c2'', reply))" by (cases x) auto
  then obtain l' where r: "?r = (Some (Inr (''c2'', reply)), l')" by (metis prod.collapse)
  have "list_all (admissible path_chars) [(sample_env, R_Create (sample_create []))]"
    by (simp only: list.pred_inject admissible_sample simp_thms)
  from create_session_fresh[OF this _ r]
  have "map_of (sessions (app l')) ''c2'' = Some (new_session sample_env (sample_create []) ''c2'')" by simp
  with r show ?thesis by (intro exI conjI)
qed

section \<open>What a call can leave behind\<close>

text \<open>
  A seat that makes no object path poisons the lock as soon as the seat of the session is read:
  no call that takes the lock is answered again.
\<close>

lemma bad_seat_poisons:
  "poisoned (foldl logind_step new_logind
     [(sample_env, R_Create (sample_create ''my seat'')), (sample_env, R_Session_Seat ''c1'')])"
  "\<not> fst (serve sample_env R_List_Sessions (foldl logind_step new_logind
     [(sample_env, R_Create (sample_create ''my seat'')), (sample_env, R_Session_Seat ''c1'')]))"
  by code_simp+

text \<open>A call that fails late leaves its session, or its inhibitor, registered.\<close>

definition no_pipe_env :: logind_env where
  "no_pipe_env = sample_env\<lparr>pipe_result := Inl ''EMFILE''\<rparr>"

lemma failed_create_leaves_session:
  "map fst (sessions (app (snd (create_session no_pipe_env (sample_create []) new_logind)))) = [''c1'']"
  "fst (create_session no_pipe_env (sample_create []) new_logind) = Some (Inl (Failed ''pipe: EMFILE''))"
  by code_simp+

lemma failed_inhibit_leaves_inhibitor:
  "let r = inhibit no_pipe_env \<lparr>ia_what = ''shutdown'', ia_who = ''w'', ia_why = ''y'', ia_mode = ''block''\<rparr> new_logind
   in fst r = Some (Inl (Failed ''pipe: EMFILE'')) \<and> join_mode (inhibitors (app (snd r))) ''block'' = ''shutdown''"
  by code_simp

end
