(* ===== verification/Logind_Main.thy ===== *)
theory Logind_Main
  imports Logind_Safety
begin

text \<open>
  The start and the end of the login daemon, crates/writeonce-logind/src/main.rs with the creation
  of the watcher in inhibitor.rs: the calls that set it up, each of which may fail, and the wait
  for the signal that stops it.
\<close>

datatype start_call =
    Epoll_Create | Wake_Pipe | Watch_Wake_Pipe | Spawn_Watcher | Connect_System | Claim_Name string
  | Serve_At string string | Build_Connection | Install_Signals

definition SERVICE_NAME :: string where "SERVICE_NAME = ''org.freedesktop.login1''"
definition MANAGER_PATH :: string where "MANAGER_PATH = ''/org/freedesktop/login1''"
definition SEAT_PATH :: string where "SEAT_PATH = ''/org/freedesktop/login1/seat/seat0''"

text \<open>Calls in order; the first that fails stops them and is the result.\<close>

fun start_calls :: "(start_call \<Rightarrow> bool) \<Rightarrow> start_call list \<Rightarrow> start_call option" where
  "start_calls ok [] = None"
| "start_calls ok (c # cs) = (if ok c then start_calls ok cs else Some c)"

text \<open>The watcher: its epoll descriptor, the wake-up pipe, and the pipe's read end watched.\<close>

definition watcher_new :: "start_call list" where
  "watcher_new = [Epoll_Create, Wake_Pipe, Watch_Wake_Pipe]"

definition connect :: "start_call list" where
  "connect = [Connect_System, Claim_Name SERVICE_NAME, Serve_At MANAGER_PATH ''Manager'', Serve_At SEAT_PATH ''Seat'',
     Build_Connection]"

text \<open>How the daemon ends: an error at the start, a panic of \<open>expect\<close>, the first signal, or not yet.\<close>

datatype logind_end = Start_Failed start_call | Start_Panicked | Stopped_By nat | Serving

definition logind_main :: "(start_call \<Rightarrow> bool) \<Rightarrow> nat list \<Rightarrow> logind_end" where
  "logind_main ok signals =
     (case start_calls ok watcher_new of
        Some c \<Rightarrow> Start_Failed c
      | None \<Rightarrow>
          if \<not> ok Spawn_Watcher then Start_Panicked
          else
            (case start_calls ok (connect @ [Install_Signals]) of
               Some c \<Rightarrow> Start_Failed c
             | None \<Rightarrow> (case filter (\<lambda>s. s = 2 \<or> s = 15) signals of [] \<Rightarrow> Serving | s # ss \<Rightarrow> Stopped_By s)))"

lemma start_calls_None: "start_calls ok cs = None \<longleftrightarrow> list_all ok cs"
  by (induction cs) auto

lemma start_calls_Some: "start_calls ok cs = Some c \<Longrightarrow> \<not> list_all ok cs"
  using start_calls_None[of ok cs] by simp

text \<open>The daemon serves only with the watcher running and every call of the start done.\<close>

lemma serving_needs_start:
  assumes "logind_main ok signals = Serving \<or> logind_main ok signals = Stopped_By s"
  shows "list_all ok (watcher_new @ [Spawn_Watcher] @ connect @ [Install_Signals])"
proof -
  have "start_calls ok watcher_new = None" "ok Spawn_Watcher" "start_calls ok (connect @ [Install_Signals]) = None"
    using assms by (auto simp: logind_main_def split: option.splits if_splits)
  then show ?thesis by (simp add: start_calls_None)
qed

end
