(* ===== verification/Login.thy ===== *)
theory Login
  imports Kernel
begin

text \<open>
  The console login, crates/writeonce-login/src (config.rs, term.rs, pam.rs, main.rs): the
  configuration, prompts on the terminal, PAM transactions with their conversation, and the loop
  that logs users in and hands each session to a child. An operation extends the trace of what
  the program did; what the system answers depends on the trace so far and is the argument
  \<open>os\<close>. PAM is not part of the sources: a call to it is a tree of the questions it asks through
  the conversation, given the answers, that ends in a return code. A write of a whole message is
  one event.
\<close>

section \<open>Configuration\<close>

record login_config =
  lc_hostname :: string
  lc_welcome :: string
  lc_pam_service :: string
  lc_session_script :: string

definition default_login_config :: login_config where
  "default_login_config =
     \<lparr>lc_hostname = '''', lc_welcome = ''WriteOnce OS'', lc_pam_service = ''writeonce'',
      lc_session_script = ''/etc/writeonce/session-start.sh''\<rparr>"

text \<open>The keys found in the file, and the defaults of those that are missing.\<close>

record login_table =
  lt_hostname :: "string option"
  lt_welcome :: "string option"
  lt_pam_service :: "string option"
  lt_session_script :: "string option"

definition or_else :: "'a option \<Rightarrow> 'a \<Rightarrow> 'a" where
  "or_else v d = (case v of None \<Rightarrow> d | Some x \<Rightarrow> x)"

definition login_config_of :: "login_table \<Rightarrow> login_config" where
  "login_config_of t =
     (let d = default_login_config in
      \<lparr>lc_hostname = or_else (lt_hostname t) (lc_hostname d), lc_welcome = or_else (lt_welcome t) (lc_welcome d),
       lc_pam_service = or_else (lt_pam_service t) (lc_pam_service d),
       lc_session_script = or_else (lt_session_script t) (lc_session_script d)\<rparr>)"

section \<open>The system\<close>

datatype pam_op =
    Authenticate | Acct_Mgmt | Establish_Cred | Delete_Cred | Open_Session | Close_Session

record pam_message =
  pm_style :: int
  pm_text :: "string option"

text \<open>What the conversation gives back; with an error, the answers it allocated and did not free.\<close>

datatype conv_result = Answers "string option list" | Conv_Error int "string list"

text \<open>A call of PAM: it returns, or asks a batch of messages (a null pointer among them is \<open>None\<close>).\<close>

datatype pam_talk = Pam_Return int | Pam_Ask "pam_message option list" "conv_result \<Rightarrow> pam_talk"

datatype login_event =
    Opened_Tty string bool | Wrote string | Read_Line | Cloned_Tty | Tty_Flags u32 u32 | Allocated nat
  | Started string string int | Pam pam_op int | Ended | Slept nat
  | Forked "string + int" string "child_call list option" | Waited int

type_synonym login_trace = "login_event list"

record passwd_entry =
  pw_uid :: u32
  pw_gid :: u32
  pw_dir :: string
  pw_shell :: string

record login_os =
  lo_file :: "login_trace \<Rightarrow> string \<Rightarrow> io_error + string"
  lo_toml :: "string \<Rightarrow> login_table option"
  lo_open :: "login_trace \<Rightarrow> string \<Rightarrow> bool \<Rightarrow> io_error + unit"
  lo_write :: "login_trace \<Rightarrow> string \<Rightarrow> io_error + unit"
  lo_read :: "login_trace \<Rightarrow> io_error + string"
  lo_clone :: "login_trace \<Rightarrow> io_error + unit"
  lo_get_flags :: "login_trace \<Rightarrow> io_error + u32"
  lo_set_flags :: "login_trace \<Rightarrow> u32 \<Rightarrow> io_error + unit"
  lo_alloc :: "login_trace \<Rightarrow> nat \<Rightarrow> bool"
  lo_start :: "login_trace \<Rightarrow> string \<Rightarrow> string \<Rightarrow> int"
  lo_pam :: "login_trace \<Rightarrow> pam_op \<Rightarrow> pam_talk"
  lo_pam_user :: "login_trace \<Rightarrow> string option"
  lo_strerror :: "int \<Rightarrow> string option"
  lo_fork :: "login_trace \<Rightarrow> string + int"
  lo_wait :: "login_trace \<Rightarrow> u32"
  lo_getpwnam :: "login_trace \<Rightarrow> string \<Rightarrow> passwd_entry option"
  lo_execve :: "login_trace \<Rightarrow> bool"

text \<open>An operation: the trace before it, its result and the trace after it.\<close>

type_synonym 'a login = "login_trace \<Rightarrow> (io_error + 'a) \<times> login_trace"

definition load_from :: "login_os \<Rightarrow> string \<Rightarrow> login_trace \<Rightarrow> login_config option" where
  "load_from os path tr =
     (case lo_file os tr path of Inl e \<Rightarrow> None | Inr body \<Rightarrow> map_option login_config_of (lo_toml os body))"

definition load_or_default :: "login_os \<Rightarrow> string \<Rightarrow> login_trace \<Rightarrow> login_config" where
  "load_or_default os path tr = or_else (load_from os path tr) default_login_config"

definition read_etc_hostname :: "login_os \<Rightarrow> login_trace \<Rightarrow> io_error + string" where
  "read_etc_hostname os tr = bind_r (lo_file os tr ''/etc/hostname'') (\<lambda>body. Inr (trim body))"

definition effective_hostname :: "login_os \<Rightarrow> login_config \<Rightarrow> login_trace \<Rightarrow> string" where
  "effective_hostname os cfg tr =
     (if lc_hostname cfg \<noteq> [] then lc_hostname cfg
      else case read_etc_hostname os tr of Inl e \<Rightarrow> ''localhost'' | Inr h \<Rightarrow> h)"

section \<open>The terminal\<close>

definition tty_write :: "login_os \<Rightarrow> string \<Rightarrow> unit login" where
  "tty_write os s tr = (lo_write os tr s, tr @ [Wrote s])"

definition tty_say :: "login_os \<Rightarrow> string \<Rightarrow> unit login" where
  "tty_say os s = tty_write os (s @ [LF])"

definition tty_clone :: "login_os \<Rightarrow> unit login" where
  "tty_clone os tr = (lo_clone os tr, tr @ [Cloned_Tty])"

definition is_utf8 :: "string \<Rightarrow> bool" where
  "is_utf8 s \<longleftrightarrow> utf8_valid (map of_char s)"

text \<open>\<open>BufRead::read_line\<close> with a fresh buffer: the bytes up to a line feed, which must be UTF-8.\<close>

definition tty_read :: "login_os \<Rightarrow> string login" where
  "tty_read os tr =
     (bind_r (lo_read os tr) (\<lambda>s.
        if is_utf8 s then Inr s else Inl (Other_Error ''stream did not contain valid UTF-8'')),
      tr @ [Read_Line])"

definition trim_line :: "string \<Rightarrow> string" where
  "trim_line s = trim_end_matches (\<lambda>c. c = CR \<or> c = LF) s"

definition term_read_line :: "login_os \<Rightarrow> string \<Rightarrow> string login" where
  "term_read_line os prompt tr =
     then_r (tty_write os prompt tr) (\<lambda>_ tr.
     then_r (tty_read os tr) (\<lambda>line tr. (Inr (trim_line line), tr)))"

definition ECHO :: u32 where "ECHO = 8"

unbundle bit_operations_syntax

text \<open>\<open>EchoGuard\<close>: the local flags, changed and put back; the flags saved are the result.\<close>

definition echo_guard_install :: "login_os \<Rightarrow> u32 login" where
  "echo_guard_install os tr =
     (case lo_get_flags os tr of
        Inl e \<Rightarrow> (Inl e, tr)
      | Inr saved \<Rightarrow>
          (let t = saved AND NOT ECHO in
           case lo_set_flags os tr t of
             Inl e \<Rightarrow> (Inl e, tr)
           | Inr _ \<Rightarrow> (Inr saved, tr @ [Tty_Flags saved t])))"

definition echo_guard_drop :: "u32 \<Rightarrow> login_trace \<Rightarrow> login_trace" where
  "echo_guard_drop saved tr = tr @ [Tty_Flags (saved AND NOT ECHO) saved]"

definition term_read_password :: "login_os \<Rightarrow> string \<Rightarrow> string login" where
  "term_read_password os prompt tr =
     then_r (tty_write os prompt tr) (\<lambda>_ tr.
     then_r (echo_guard_install os tr) (\<lambda>saved tr.
       (case tty_read os tr of (result, tr) \<Rightarrow>
          then_r (tty_say os [] (echo_guard_drop saved tr)) (\<lambda>_ tr.
            (bind_r result (\<lambda>line. Inr (trim_line line)), tr)))))"

section \<open>The conversation\<close>

definition PAM_SUCCESS :: int where "PAM_SUCCESS = 0"
definition PAM_PROMPT_ECHO_OFF :: int where "PAM_PROMPT_ECHO_OFF = 1"
definition PAM_PROMPT_ECHO_ON :: int where "PAM_PROMPT_ECHO_ON = 2"
definition PAM_ERROR_MSG :: int where "PAM_ERROR_MSG = 3"
definition PAM_TEXT_INFO :: int where "PAM_TEXT_INFO = 4"
definition PAM_BUF_ERR :: int where "PAM_BUF_ERR = 5"
definition PAM_CONV_ERR :: int where "PAM_CONV_ERR = 19"

lemmas pam_codes = PAM_SUCCESS_def PAM_PROMPT_ECHO_OFF_def PAM_PROMPT_ECHO_ON_def PAM_ERROR_MSG_def
  PAM_TEXT_INFO_def PAM_BUF_ERR_def PAM_CONV_ERR_def

fun ok_r :: "'e + 'a \<Rightarrow> 'a option" where
  "ok_r (Inl e) = None"
| "ok_r (Inr x) = Some x"

text \<open>\<open>TtyConv\<close>: a prompt that fails on the terminal has no answer; a failed message is ignored.\<close>

definition prompt_echo_off :: "login_os \<Rightarrow> string \<Rightarrow> login_trace \<Rightarrow> string option \<times> login_trace" where
  "prompt_echo_off os msg tr =
     (case then_r (tty_clone os tr) (\<lambda>_. term_read_password os msg) of (r, tr) \<Rightarrow> (ok_r r, tr))"

definition prompt_echo_on :: "login_os \<Rightarrow> string \<Rightarrow> login_trace \<Rightarrow> string option \<times> login_trace" where
  "prompt_echo_on os msg tr =
     (case then_r (tty_clone os tr) (\<lambda>_. term_read_line os msg) of (r, tr) \<Rightarrow> (ok_r r, tr))"

definition conv_info :: "login_os \<Rightarrow> string \<Rightarrow> login_trace \<Rightarrow> string option \<times> login_trace" where
  "conv_info os msg tr = (None, snd (tty_say os msg tr))"

definition conv_error :: "login_os \<Rightarrow> string \<Rightarrow> login_trace \<Rightarrow> string option \<times> login_trace" where
  "conv_error os msg tr = (None, snd (tty_say os (''[error] '' @ msg) tr))"

definition conv_message :: "login_os \<Rightarrow> pam_message \<Rightarrow> login_trace \<Rightarrow> string option \<times> login_trace" where
  "conv_message os m tr =
     (let msg = (case pm_text m of None \<Rightarrow> [] | Some s \<Rightarrow> if is_utf8 s then s else []) in
      if pm_style m = PAM_PROMPT_ECHO_OFF then prompt_echo_off os msg tr
      else if pm_style m = PAM_PROMPT_ECHO_ON then prompt_echo_on os msg tr
      else if pm_style m = PAM_TEXT_INFO then conv_info os msg tr
      else if pm_style m = PAM_ERROR_MSG then conv_error os msg tr
      else (None, tr))"

text \<open>\<open>CString::new(s).unwrap_or_default()\<close>: an answer with a NUL byte becomes the empty one.\<close>

definition c_answer :: "string \<Rightarrow> string" where
  "c_answer s = or_else (c_string s) []"

fun conv_loop :: "login_os \<Rightarrow> pam_message option list \<Rightarrow> string option list \<Rightarrow> login_trace
    \<Rightarrow> conv_result \<times> login_trace" where
  "conv_loop os [] rs tr = (Answers rs, tr)"
| "conv_loop os (None # ms) rs tr = conv_loop os ms (rs @ [None]) tr"
| "conv_loop os (Some m # ms) rs tr =
     (case conv_message os m tr of
        (None, tr) \<Rightarrow> conv_loop os ms (rs @ [None]) tr
      | (Some s, tr) \<Rightarrow>
          (let n = Suc (length (c_answer s)) in
           if lo_alloc os tr n then conv_loop os ms (rs @ [Some (c_answer s)]) (tr @ [Allocated n])
           else (Conv_Error PAM_BUF_ERR (List.map_filter id rs), tr)))"

definition conv_trampoline :: "login_os \<Rightarrow> pam_message option list \<Rightarrow> login_trace \<Rightarrow> conv_result \<times> login_trace" where
  "conv_trampoline os ms tr =
     (if ms = [] then (Conv_Error PAM_CONV_ERR [], tr)
      else
        let n = 16 * length ms in
        if lo_alloc os tr n then conv_loop os ms [] (tr @ [Allocated n])
        else (Conv_Error PAM_BUF_ERR [], tr))"

section \<open>PAM transactions\<close>

primrec run_pam :: "pam_talk \<Rightarrow> login_os \<Rightarrow> login_trace \<Rightarrow> int \<times> login_trace" where
  "run_pam (Pam_Return rc) = (\<lambda>os tr. (rc, tr))"
| "run_pam (Pam_Ask ms k) =
     (\<lambda>os tr. case conv_trampoline os ms tr of (r, tr') \<Rightarrow> run_pam (k r) os tr')"

definition pam_call :: "login_os \<Rightarrow> pam_op \<Rightarrow> login_trace \<Rightarrow> int \<times> login_trace" where
  "pam_call os op tr = (case run_pam (lo_pam os tr op) os tr of (rc, tr') \<Rightarrow> (rc, tr' @ [Pam op rc]))"

datatype pam_error = Pam_Error int string

definition pam_error_text :: "pam_error \<Rightarrow> string" where
  "pam_error_text e = (case e of Pam_Error code m \<Rightarrow> ''PAM error '' @ show_int code @ '': '' @ m)"

definition strerror :: "login_os \<Rightarrow> int \<Rightarrow> string" where
  "strerror os code = or_else (lo_strerror os code) (''(code '' @ show_int code @ '')'')"

record pam_session =
  creds_established :: bool
  session_open :: bool

definition session_start ::
  "login_os \<Rightarrow> string \<Rightarrow> string \<Rightarrow> login_trace \<Rightarrow> (pam_error + pam_session) \<times> login_trace" where
  "session_start os service usr tr =
     (if c_string service = None then (Inl (Pam_Error (-1) ''service name has NUL''), tr)
      else if c_string usr = None then (Inl (Pam_Error (-1) ''user name has NUL''), tr)
      else
        let rc = lo_start os tr service usr; tr' = tr @ [Started service usr rc] in
        if rc \<noteq> PAM_SUCCESS then (Inl (Pam_Error rc (strerror os rc)), tr')
        else (Inr \<lparr>creds_established = False, session_open = False\<rparr>, tr'))"

text \<open>A transaction under way: the flags of its \<open>Session\<close>, and the trace.\<close>

type_synonym pam_state = "pam_session \<times> login_trace"

definition session_call :: "login_os \<Rightarrow> pam_op \<Rightarrow> string \<Rightarrow> pam_state \<Rightarrow> (pam_error + unit) \<times> pam_state" where
  "session_call os op name w =
     (case w of (s, tr) \<Rightarrow>
      case pam_call os op tr of (rc, tr') \<Rightarrow>
        (if rc \<noteq> PAM_SUCCESS then Inl (Pam_Error rc (name @ '': '' @ strerror os rc)) else Inr (), s, tr'))"

definition session_authenticate :: "login_os \<Rightarrow> pam_state \<Rightarrow> (pam_error + unit) \<times> pam_state" where
  "session_authenticate os = session_call os Authenticate ''pam_authenticate''"

definition session_acct_mgmt :: "login_os \<Rightarrow> pam_state \<Rightarrow> (pam_error + unit) \<times> pam_state" where
  "session_acct_mgmt os = session_call os Acct_Mgmt ''pam_acct_mgmt''"

definition session_open_session :: "login_os \<Rightarrow> pam_state \<Rightarrow> (pam_error + unit) \<times> pam_state" where
  "session_open_session os w =
     (case w of (s, tr) \<Rightarrow> session_call os Open_Session ''pam_open_session'' (s\<lparr>session_open := True\<rparr>, tr))"

definition session_close_session :: "login_os \<Rightarrow> pam_state \<Rightarrow> (pam_error + unit) \<times> pam_state" where
  "session_close_session os w =
     (case session_call os Close_Session ''pam_close_session'' w of (r, s, tr) \<Rightarrow> (r, s\<lparr>session_open := False\<rparr>, tr))"

definition session_establish_cred :: "login_os \<Rightarrow> pam_state \<Rightarrow> (pam_error + unit) \<times> pam_state" where
  "session_establish_cred os w =
     (case w of (s, tr) \<Rightarrow>
      case pam_call os Establish_Cred tr of (rc, tr') \<Rightarrow>
        (if rc \<noteq> PAM_SUCCESS then (Inl (Pam_Error rc (strerror os rc)), s, tr')
         else (Inr (), s\<lparr>creds_established := True\<rparr>, tr')))"

definition session_delete_cred :: "login_os \<Rightarrow> pam_state \<Rightarrow> (pam_error + unit) \<times> pam_state" where
  "session_delete_cred os w =
     (case w of (s, tr) \<Rightarrow>
      case pam_call os Delete_Cred tr of (rc, tr') \<Rightarrow>
        (if rc \<noteq> PAM_SUCCESS then Inl (Pam_Error rc (strerror os rc)) else Inr (),
         s\<lparr>creds_established := False\<rparr>, tr'))"

definition authenticated_user :: "login_os \<Rightarrow> login_trace \<Rightarrow> string option" where
  "authenticated_user os tr = lo_pam_user os tr"

definition drop_session :: "login_os \<Rightarrow> pam_state \<Rightarrow> login_trace" where
  "drop_session os w =
     (case w of (s, tr) \<Rightarrow>
        let tr = (if session_open s then snd (pam_call os Close_Session tr) else tr);
            tr = (if creds_established s then snd (pam_call os Delete_Cred tr) else tr)
        in tr @ [Ended])"

section \<open>The child\<close>

definition vtnr_of_tty :: "string \<Rightarrow> u32" where
  "vtnr_of_tty tty = or_else (Option.bind (strip_prefix ''/dev/tty'' tty) parse_u32) 0"

definition show_u32 :: "u32 \<Rightarrow> string" where
  "show_u32 w = show_nat (unat w)"

definition session_create_argv :: "string \<Rightarrow> passwd_entry \<Rightarrow> string \<Rightarrow> string \<Rightarrow> string list" where
  "session_create_argv usr pw script tty =
     [''writeonce-session-create'', ''--user'', usr, ''--uid'', show_u32 (pw_uid pw),
      ''--gid'', show_u32 (pw_gid pw), ''--home'', pw_dir pw, ''--shell'', pw_shell pw, ''--tty'', tty,
      ''--vtnr'', show_u32 (vtnr_of_tty tty), ''--session-script'', script]"

definition helper_env :: "string list" where
  "helper_env = [''PATH=/usr/sbin:/usr/bin:/sbin:/bin'', ''RUST_LOG=info'']"

text \<open>What the child does; \<open>None\<close> if \<open>unwrap\<close> panics on a string with a NUL byte.\<close>

definition login_child_exec :: "login_os \<Rightarrow> string \<Rightarrow> string \<Rightarrow> string \<Rightarrow> login_trace \<Rightarrow> child_call list option" where
  "login_child_exec os usr script tty tr =
     (if c_string usr = None then None
      else
        case lo_getpwnam os tr usr of
          None \<Rightarrow> Some [Exit 127]
        | Some pw \<Rightarrow>
            (let argv = session_create_argv usr pw script tty;
                 call = Execve ''/usr/sbin/writeonce-session-create'' argv helper_env in
             if list_ex (\<lambda>s. c_string s = None) argv then None
             else Some (if lo_execve os tr then [call] else [call, Exit 127])))"

section \<open>The loop\<close>

definition session_say :: "login_os \<Rightarrow> string \<Rightarrow> pam_state \<Rightarrow> (io_error + unit) \<times> pam_state" where
  "session_say os msg w = (case w of (s, tr) \<Rightarrow> case tty_say os msg tr of (r, tr') \<Rightarrow> (r, s, tr'))"

definition pause_login :: "login_trace \<Rightarrow> login_trace" where
  "pause_login tr = tr @ [Slept 3]"

text \<open>A step of the transaction that failed: a message, a pause, and the next round.\<close>

definition reject :: "login_os \<Rightarrow> string \<Rightarrow> pam_state \<Rightarrow> (io_error + unit) \<times> pam_state" where
  "reject os msg w = then_r (session_say os msg w) (\<lambda>_ (s, tr). (Inr (), s, pause_login tr))"

definition checked ::
  "login_os \<Rightarrow> (pam_error + unit) \<times> pam_state \<Rightarrow> (pam_error \<Rightarrow> string)
    \<Rightarrow> (pam_state \<Rightarrow> (io_error + unit) \<times> pam_state) \<Rightarrow> (io_error + unit) \<times> pam_state" where
  "checked os r msg next = (case r of (Inl e, w) \<Rightarrow> reject os (msg e) w | (Inr _, w) \<Rightarrow> next w)"

definition run_session :: "login_os \<Rightarrow> login_config \<Rightarrow> string \<Rightarrow> string \<Rightarrow> pam_state \<Rightarrow> (io_error + unit) \<times> pam_state" where
  "run_session os cfg tty username w =
     (let usr = or_else (authenticated_user os (snd w)) username in
      then_r (session_say os (''writeonce-login: opening session for '' @ usr) w) (\<lambda>_ (s, tr).
        let pid = lo_fork os tr;
            tr = tr @ [Forked pid usr (login_child_exec os usr (lc_session_script cfg) tty tr)] in
        (case pid of
           Inl e \<Rightarrow> session_say os (''fork failed: '' @ e) (s, tr)
         | Inr p \<Rightarrow>
             then_r (session_say os (LF # ''writeonce-login: session ended (status=''
                 @ show_int (sint (lo_wait os tr)) @ '')'') (s, tr @ [Waited p])) (\<lambda>_ w.
               (Inr (), snd (session_delete_cred os (snd (session_close_session os w))))))))"

definition login_transaction :: "login_os \<Rightarrow> login_config \<Rightarrow> string \<Rightarrow> string \<Rightarrow> pam_state \<Rightarrow> (io_error + unit) \<times> pam_state" where
  "login_transaction os cfg tty username w =
     checked os (session_authenticate os w) (\<lambda>_. ''Login incorrect'') (\<lambda>w.
     checked os (session_acct_mgmt os w) (\<lambda>e. ''Account validation failed: '' @ pam_error_text e) (\<lambda>w.
     checked os (session_establish_cred os w) (\<lambda>e. ''Could not establish credentials: '' @ pam_error_text e) (\<lambda>w.
     checked os (session_open_session os w) (\<lambda>e. ''Could not open session: '' @ pam_error_text e) (\<lambda>w.
     run_session os cfg tty username w))))"

definition render_banner :: "login_os \<Rightarrow> login_config \<Rightarrow> unit login" where
  "render_banner os cfg tr =
     (let host = effective_hostname os cfg tr in
      then_r (tty_say os [] tr) (\<lambda>_ tr.
      then_r (tty_say os (lc_welcome cfg) tr) (\<lambda>_.
        tty_say os (host @ '' tty login''))))"

text \<open>One round of the loop; the session is dropped however its round ends.\<close>

definition login_round :: "login_os \<Rightarrow> login_config \<Rightarrow> string \<Rightarrow> unit login" where
  "login_round os cfg tty tr =
     then_r (render_banner os cfg tr) (\<lambda>_ tr.
     then_r (term_read_line os ''login: '' tr) (\<lambda>username tr.
       if username = [] then tty_say os [] tr
       else
         then_r (tty_clone os tr) (\<lambda>_ tr.
         then_r (tty_clone os tr) (\<lambda>_ tr.
           (case session_start os (lc_pam_service cfg) username tr of
              (Inl e, tr) \<Rightarrow>
                then_r (tty_say os (''PAM start failed: '' @ pam_error_text e) tr) (\<lambda>_ tr. (Inr (), pause_login tr))
            | (Inr s, tr) \<Rightarrow>
                (case login_transaction os cfg tty username (s, tr) of (r, w) \<Rightarrow> (r, drop_session os w)))))))"

text \<open>The loop never ends of itself: its first \<open>n\<close> rounds, unless an error ends it before.\<close>

fun login_loop :: "nat \<Rightarrow> login_os \<Rightarrow> login_config \<Rightarrow> string \<Rightarrow> unit login" where
  "login_loop 0 os cfg tty tr = (Inr (), tr)"
| "login_loop (Suc n) os cfg tty tr = then_r (login_round os cfg tty tr) (\<lambda>_. login_loop n os cfg tty)"

record login_args =
  la_tty :: string
  la_config :: string

definition open_tty :: "login_os \<Rightarrow> string \<Rightarrow> bool \<Rightarrow> unit login" where
  "open_tty os tty writable tr = (lo_open os tr tty writable, tr @ [Opened_Tty tty writable])"

definition login_run :: "login_os \<Rightarrow> nat \<Rightarrow> login_args \<Rightarrow> unit login" where
  "login_run os n a tr =
     (let cfg = load_or_default os (la_config a) tr in
      then_r (open_tty os (la_tty a) False tr) (\<lambda>_ tr.
      then_r (open_tty os (la_tty a) True tr) (\<lambda>_.
        login_loop n os cfg (la_tty a))))"

text \<open>The arguments, or the code the program exits with.\<close>

fun parse_login_args :: "string list \<Rightarrow> login_args \<Rightarrow> nat + login_args" where
  "parse_login_args [] a = Inr a"
| "parse_login_args (x # xs) a =
     (if x = ''--tty''
      then (case xs of [] \<Rightarrow> Inl 2 | v # ys \<Rightarrow> parse_login_args ys (a\<lparr>la_tty := v\<rparr>))
      else if x = ''--config''
      then (case xs of [] \<Rightarrow> Inl 2 | v # ys \<Rightarrow> parse_login_args ys (a\<lparr>la_config := v\<rparr>))
      else if x = ''-h'' \<or> x = ''--help'' then Inl 0
      else Inl 2)"

definition default_login_args :: login_args where
  "default_login_args = \<lparr>la_tty = ''/dev/tty1'', la_config = ''/etc/writeonce/login.toml''\<rparr>"

text \<open>The exit code, or \<open>None\<close> while the loop goes on after \<open>n\<close> rounds.\<close>

definition login_main :: "login_os \<Rightarrow> nat \<Rightarrow> string list \<Rightarrow> nat option \<times> login_trace" where
  "login_main os n argv =
     (case parse_login_args (tl argv) default_login_args of
        Inl code \<Rightarrow> (Some code, [])
      | Inr a \<Rightarrow>
          (case login_run os n a [] of (Inl e, tr) \<Rightarrow> (Some 1, tr) | (Inr _, tr) \<Rightarrow> (None, tr)))"

end
