(* ===== verification/Traces.thy ===== *)
theory Traces
  imports Kernel
begin

text \<open>
  Programs as traces: an operation extends the trace of the events so far and returns a result.
  The locale of a law on such extensions, with the rules that carry it through the composition
  of operations; the installer, the console login and the session helper are its clients.
\<close>

section \<open>Programs that keep a law\<close>

text \<open>
  A law on the events added to a trace, given the trace before them. A program keeps it if its
  own events do.
\<close>

locale trace_law =
  fixes law :: "'c list \<Rightarrow> 'c list \<Rightarrow> bool"
  assumes law_Nil: "law tr []" and law_append: "law tr xs \<Longrightarrow> law (tr @ xs) ys \<Longrightarrow> law tr (xs @ ys)"
begin

definition keeps :: "'c list \<Rightarrow> 'r \<times> 'c list \<Rightarrow> bool" where
  "keeps tr r \<longleftrightarrow> (\<exists>ext. snd r = tr @ ext \<and> law tr ext)"

text \<open>The same, with a given call among those added if the operation succeeds, or in any case.\<close>

definition keeps_call :: "(bool \<Rightarrow> bool) \<Rightarrow> 'c \<Rightarrow> 'c list \<Rightarrow> ('e + 'a) \<times> 'c list \<Rightarrow> bool" where
  "keeps_call due c tr r \<longleftrightarrow>
     (\<exists>ext. snd r = tr @ ext \<and> law tr ext \<and> (due (\<exists>x. fst r = Inr x) \<longrightarrow> c \<in> set ext))"

abbreviation if_ok :: "'c \<Rightarrow> 'c list \<Rightarrow> ('e + 'a) \<times> 'c list \<Rightarrow> bool" where
  "if_ok \<equiv> keeps_call (\<lambda>ok. ok)"

abbreviation always :: "'c \<Rightarrow> 'c list \<Rightarrow> ('e + 'a) \<times> 'c list \<Rightarrow> bool" where
  "always \<equiv> keeps_call (\<lambda>_. True)"

lemma keeps_pure: "keeps tr (r, tr)"
  by (simp add: keeps_def law_Nil)

lemma keeps_bind:
  assumes "keeps tr m" "\<And>x tr'. keeps tr' (f x tr')"
  shows "keeps tr (then_r m f)"
proof (cases "fst m")
  case (Inl e)
  with assms(1) show ?thesis by (cases m) (simp add: then_r_def keeps_def)
next
  case (Inr x)
  from assms(1) obtain e1 where e1: "snd m = tr @ e1" "law tr e1" by (auto simp: keeps_def)
  from assms(2)[of "tr @ e1" x] obtain e2 where "snd (f x (tr @ e1)) = (tr @ e1) @ e2" "law (tr @ e1) e2"
    by (auto simp: keeps_def)
  with Inr e1 law_append[of tr e1 e2] show ?thesis by (cases m) (auto simp: then_r_def keeps_def)
qed

lemma keeps_case:
  assumes "keeps tr m" "\<And>x tr'. keeps tr' (f x tr')"
  shows "keeps tr (case m of (x, tr') \<Rightarrow> f x tr')"
proof -
  from assms(1) obtain e1 where e1: "snd m = tr @ e1" "law tr e1" by (auto simp: keeps_def)
  from assms(2)[of "tr @ e1" "fst m"] obtain e2 where
    "snd (f (fst m) (tr @ e1)) = (tr @ e1) @ e2" "law (tr @ e1) e2" by (auto simp: keeps_def)
  with e1 law_append[of tr e1 e2] show ?thesis by (cases m) (simp add: keeps_def)
qed

lemma keeps_event: "law tr [c] \<Longrightarrow> keeps tr (r, tr @ [c])"
  by (simp add: keeps_def)

lemma keeps_prefix:
  assumes "law tr xs" "keeps (tr @ xs) m"
  shows "keeps tr m"
proof -
  from assms(2) obtain ext where "snd m = (tr @ xs) @ ext" "law (tr @ xs) ext" by (auto simp: keeps_def)
  with law_append[of tr xs ext] assms(1) show ?thesis by (simp add: keeps_def)
qed

lemma keeps_if: "keeps tr a \<Longrightarrow> keeps tr b \<Longrightarrow> keeps tr (if p then a else b)"
  by simp

lemma call_keeps: "keeps_call due c tr r \<Longrightarrow> keeps tr r"
  by (auto simp: keeps_call_def keeps_def)

lemma always_if_ok: "always c tr r \<Longrightarrow> if_ok c tr r"
  by (auto simp: keeps_call_def)

text \<open>A call made first is made in any case; one made last is made on success.\<close>

lemma always_then:
  assumes "always c tr m" "\<And>x tr'. keeps tr' (f x tr')"
  shows "always c tr (then_r m f)"
proof (cases "fst m")
  case (Inl e)
  with assms(1) show ?thesis by (cases m) (simp add: then_r_def keeps_call_def)
next
  case (Inr x)
  from assms(1) obtain e1 where e1: "snd m = tr @ e1" "law tr e1" "c \<in> set e1" by (auto simp: keeps_call_def)
  from assms(2)[of "tr @ e1" x] obtain e2 where "snd (f x (tr @ e1)) = (tr @ e1) @ e2" "law (tr @ e1) e2"
    by (auto simp: keeps_def)
  with Inr e1 law_append[of tr e1 e2] show ?thesis by (cases m) (auto simp: then_r_def keeps_call_def)
qed

lemma if_ok_then:
  assumes "keeps tr m" "\<And>x tr'. if_ok c tr' (f x tr')"
  shows "if_ok c tr (then_r m f)"
proof (cases "fst m")
  case (Inl e)
  with assms(1) show ?thesis by (cases m) (auto simp: then_r_def keeps_call_def keeps_def)
next
  case (Inr x)
  from assms(1) obtain e1 where e1: "snd m = tr @ e1" "law tr e1" by (auto simp: keeps_def)
  from assms(2)[of "tr @ e1" x] obtain e2 where "snd (f x (tr @ e1)) = (tr @ e1) @ e2" "law (tr @ e1) e2"
    "(\<exists>y. fst (f x (tr @ e1)) = Inr y) \<longrightarrow> c \<in> set e2" by (auto simp: keeps_call_def)
  with Inr e1 law_append[of tr e1 e2] show ?thesis by (cases m) (auto simp: then_r_def keeps_call_def)
qed

end

text \<open>The law that every event is admissible after those before it.\<close>

definition pointwise :: "('c list \<Rightarrow> 'c \<Rightarrow> bool) \<Rightarrow> 'c list \<Rightarrow> 'c list \<Rightarrow> bool" where
  "pointwise ok tr ext \<longleftrightarrow> (\<forall>i < length ext. ok (tr @ take i ext) (ext ! i))"

lemma pointwise_law: "trace_law (pointwise ok)"
proof
  fix tr xs ys
  assume a: "pointwise ok tr xs" "pointwise ok (tr @ xs) ys"
  show "pointwise ok tr (xs @ ys)" unfolding pointwise_def
  proof (intro allI impI)
    fix i
    assume "i < length (xs @ ys)"
    with a show "ok (tr @ take i (xs @ ys)) ((xs @ ys) ! i)"
      by (cases "i < length xs") (auto simp: pointwise_def nth_append)
  qed
qed (simp add: pointwise_def)

lemma pointwise_single [simp]: "pointwise ok tr [c] \<longleftrightarrow> ok tr c"
  by (simp add: pointwise_def)

lemma pointwise_at: "pointwise ok [] (xs @ c # ys) \<Longrightarrow> ok xs c"
  unfolding pointwise_def by (drule spec[of _ "length xs"]) simp

end
