(* ===== verification/Login_Protocol.thy ===== *)
theory Login_Protocol
  imports Login Traces
begin

text \<open>
  The protocol the console login keeps with PAM and with its terminal, as an automaton that
  watches the events: a transaction advances step by step, a refused step leaves only the
  clean-up, a session child is forked after all four steps succeeded and waited for before the
  session is closed, a transaction ends with session and credentials undone, and the terminal's
  echo is put back. Every run of the program is a run of the automaton that ends in its first
  state.
\<close>

section \<open>The automaton\<close>

datatype stage = Begun | Authenticated | Accepted | Credentialed | Opened | Running int | Refused | Over

text \<open>No transaction, or one at a stage, with credentials established and a session opened or not.\<close>

datatype phase = Idle | Live stage bool bool

fun stage_after :: "pam_op \<Rightarrow> stage \<Rightarrow> stage option" where
  "stage_after Authenticate Begun = Some Authenticated"
| "stage_after Acct_Mgmt Authenticated = Some Accepted"
| "stage_after Establish_Cred Accepted = Some Credentialed"
| "stage_after Open_Session Credentialed = Some Opened"
| "stage_after _ _ = None"

definition running :: "stage \<Rightarrow> bool" where
  "running st \<longleftrightarrow> (case st of Running p \<Rightarrow> True | _ \<Rightarrow> False)"

fun watch_pam :: "pam_op \<Rightarrow> bool \<Rightarrow> phase \<Rightarrow> phase option" where
  "watch_pam op ok Idle = None"
| "watch_pam op ok (Live st c opn) =
     (if op = Close_Session then (if opn \<and> \<not> running st then Some (Live Over c False) else None)
      else if op = Delete_Cred then (if c \<and> \<not> opn \<and> \<not> running st then Some (Live Over False False) else None)
      else
        map_option (\<lambda>st'. Live (if ok then st' else Refused) (c \<or> op = Establish_Cred \<and> ok) (opn \<or> op = Open_Session))
          (stage_after op st))"

fun watch_phase :: "login_event \<Rightarrow> phase \<Rightarrow> phase option" where
  "watch_phase (Started sv u rc) p =
     (if p = Idle then Some (if rc = PAM_SUCCESS then Live Begun False False else Idle) else None)"
| "watch_phase (Pam op rc) p = watch_pam op (rc = PAM_SUCCESS) p"
| "watch_phase Ended p = (case p of Live st False False \<Rightarrow> if running st then None else Some Idle | _ \<Rightarrow> None)"
| "watch_phase (Forked r u c) p =
     (if p = Live Opened True True
      then Some (Live (case r of Inl e \<Rightarrow> Refused | Inr pid \<Rightarrow> Running pid) True True) else None)"
| "watch_phase (Waited pid) p =
     (case p of Live (Running q) c opn \<Rightarrow> if q = pid then Some (Live Over c opn) else None | _ \<Rightarrow> None)"
| "watch_phase e p = Some p"

text \<open>With the terminal: its flags as they were, or the flags to put back while the echo is off.\<close>

fun watch :: "login_event \<Rightarrow> phase \<times> u32 option \<Rightarrow> (phase \<times> u32 option) option" where
  "watch (Tty_Flags a b) (p, None) = (if b AND ECHO = 0 then Some (p, Some a) else None)"
| "watch (Tty_Flags a b) (p, Some saved) = (if b = saved then Some (p, None) else None)"
| "watch e (p, Some saved) = (if e = Read_Line then Some (p, Some saved) else None)"
| "watch e (p, None) = map_option (\<lambda>q. (q, None)) (watch_phase e p)"

definition login_watch :: "login_trace \<Rightarrow> (phase \<times> u32 option) option" where
  "login_watch tr = fold_opt watch tr (Idle, None)"

section \<open>Operations on the terminal\<close>

text \<open>A law that the events of the terminal keep; each operation on it, and each call of PAM, does then.\<close>

locale terminal_law = trace_law law for law :: "login_trace \<Rightarrow> login_trace \<Rightarrow> bool" +
  assumes law_plain: "law tr [Wrote s]" "law tr [Read_Line]" "law tr [Cloned_Tty]" "law tr [Slept k]"
      "law tr [Opened_Tty t w]"
    and law_alloc: "law tr [Allocated k]"
    and law_hidden: "law tr [Tty_Flags a (a AND NOT ECHO), Read_Line, Tty_Flags (a AND NOT ECHO) a]"
begin

lemmas keeps_rules = keeps_bind keeps_case keeps_if keeps_pure keeps_event

lemmas keeps_alloc = keeps_prefix[OF law_alloc]

lemma keeps_tty:
  "keeps tr (tty_write os s tr)" "keeps tr (tty_say os s tr)" "keeps tr (tty_clone os tr)"
  "keeps tr (tty_read os tr)" "keeps tr (open_tty os t w tr)"
  by (simp_all add: tty_write_def tty_say_def tty_clone_def tty_read_def open_tty_def keeps_event law_plain)

lemma keeps_read_line: "keeps tr (term_read_line os prompt tr)"
  unfolding term_read_line_def by (intro keeps_rules keeps_tty)

lemma keeps_read_password: "keeps tr (term_read_password os prompt tr)"
proof -
  have "keeps tr
      (then_r (echo_guard_install os tr) (\<lambda>saved tr.
         (case tty_read os tr of (result, tr) \<Rightarrow>
            then_r (tty_say os [] (echo_guard_drop saved tr)) (\<lambda>_ tr. (bind_r result (\<lambda>line. Inr (trim_line line)), tr)))))"
    for tr
  proof (cases "fst (echo_guard_install os tr)")
    case (Inl e)
    then show ?thesis
      by (auto simp: echo_guard_install_def then_r_def Let_def keeps_pure split: sum.splits)
  next
    case (Inr saved)
    then have i: "echo_guard_install os tr = (Inr saved, tr @ [Tty_Flags saved (saved AND NOT ECHO)])"
      by (auto simp: echo_guard_install_def Let_def split: sum.splits)
    let ?r = "fst (tty_read os (tr @ [Tty_Flags saved (saved AND NOT ECHO)]))"
    have "keeps tr (then_r (tty_say os [] tr) (\<lambda>_ tr. (bind_r ?r (\<lambda>line. Inr (trim_line line)), tr)))" for tr
      by (intro keeps_rules keeps_tty)
    from keeps_prefix[OF law_hidden[of tr saved] this] show ?thesis
      by (simp add: i tty_read_def echo_guard_drop_def then_r_def[of "(Inr saved, _)"])
  qed
  then show ?thesis unfolding term_read_password_def by (rule keeps_bind[OF keeps_tty(1)])
qed

lemma keeps_message: "keeps tr (conv_message os m tr)"
proof -
  have out: "keeps tr (prompt_echo_off os s tr)" "keeps tr (prompt_echo_on os s tr)" for s
    unfolding prompt_echo_off_def prompt_echo_on_def
    by (intro keeps_rules keeps_tty keeps_read_line keeps_read_password)+
  have say: "keeps tr (None, snd (tty_say os s tr))" for s
    by (simp add: tty_say_def tty_write_def keeps_event law_plain)
  show ?thesis unfolding conv_message_def conv_info_def conv_error_def Let_def
    by (intro keeps_if out say keeps_pure)
qed

lemma keeps_conv_loop: "keeps tr (conv_loop os ms rs tr)"
proof (induction ms arbitrary: rs tr)
  case (Cons m ms)
  show ?case
  proof (cases m)
    case (Some m')
    have "keeps tr' (case r of None \<Rightarrow> conv_loop os ms (rs @ [None]) tr'
        | Some s \<Rightarrow> (let n = Suc (length (c_answer s)) in
             if lo_alloc os tr' n then conv_loop os ms (rs @ [Some (c_answer s)]) (tr' @ [Allocated n])
             else (Conv_Error PAM_BUF_ERR (List.map_filter id rs), tr')))" for r tr'
      using Cons by (cases r) (auto simp: Let_def intro: keeps_pure keeps_alloc)
    with Some show ?thesis by (auto intro!: keeps_case keeps_message)
  qed (simp add: Cons)
qed (simp add: keeps_pure)

lemma keeps_run_pam: "keeps tr (run_pam t os tr)"
proof (induction t arbitrary: tr)
  case (Pam_Ask ms k)
  have "keeps tr (conv_trampoline os ms tr)"
    unfolding conv_trampoline_def Let_def
    by (auto intro!: keeps_if keeps_pure intro: keeps_alloc keeps_conv_loop)
  with Pam_Ask show ?case by (auto intro!: keeps_case)
qed (simp add: keeps_pure)

end

text \<open>What happens within a call of PAM, or outside of every transaction, leaves the phase alone.\<close>

definition quiet :: "login_trace \<Rightarrow> login_trace \<Rightarrow> bool" where
  "quiet tr ext \<longleftrightarrow> (\<forall>p. fold_opt watch ext (p, None) = Some (p, None))"

interpretation calm: terminal_law quiet
  by unfold_locales (simp_all add: quiet_def fold_opt_append ECHO_def word_bw_assocs)

section \<open>Transactions\<close>

text \<open>The automaton agrees with the flags of the program's session.\<close>

definition at_stage :: "stage \<Rightarrow> pam_state \<Rightarrow> bool" where
  "at_stage st w \<longleftrightarrow> login_watch (snd w) = Some (Live st (creds_established (fst w)) (session_open (fst w)), None)
     \<and> (st \<in> {Credentialed, Opened} \<longrightarrow> creds_established (fst w)) \<and> (st = Opened \<longrightarrow> session_open (fst w))"

lemma watch_calm:
  assumes "login_watch tr = Some (p, None)" "calm.keeps tr m"
  shows "login_watch (snd m) = Some (p, None)"
  using assms by (auto simp: calm.keeps_def quiet_def login_watch_def fold_opt_append)

lemma login_watch_snoc [simp]:
  "login_watch tr = Some m \<Longrightarrow> login_watch (tr @ [e]) = watch e m"
  by (simp add: login_watch_def fold_opt_append split: option.split)

lemma pam_call_watch:
  assumes "login_watch tr = Some (p, None)" "pam_call os op tr = (rc, tr')"
  shows "login_watch tr' = map_option (\<lambda>q. (q, None)) (watch_pam op (rc = PAM_SUCCESS) p)"
  using watch_calm[OF assms(1) calm.keeps_run_pam[of tr "lo_pam os tr op" os]] assms(2)
  by (auto simp: pam_call_def split: prod.splits)

lemma say_stage: "at_stage st w \<Longrightarrow> at_stage st (snd (session_say os msg w))"
  using watch_calm[OF _ calm.keeps_tty(2)[of "snd w" os msg]]
  by (auto simp: at_stage_def session_say_def split: prod.splits)

lemma reject_stage: "at_stage st w \<Longrightarrow> at_stage st (snd (reject os msg w))"
  using say_stage[of st w os msg]
  by (auto simp: reject_def then_r_def at_stage_def pause_login_def split: prod.splits sum.splits)

text \<open>Each step of a transaction moves it on, or leaves it refused.\<close>

lemma call_stage:
  assumes "at_stage st w" "stage_after op st = Some st'" "op \<noteq> Establish_Cred" "op \<noteq> Open_Session"
    "st' \<in> {Authenticated, Accepted}" "session_call os op name w = (r, w')"
  shows "at_stage (case r of Inl e \<Rightarrow> Refused | Inr _ \<Rightarrow> st') w'"
proof -
  obtain rc tr where c: "pam_call os op (snd w) = (rc, tr)" by force
  have "op \<noteq> Close_Session" "op \<noteq> Delete_Cred" using assms(2) by auto
  with pam_call_watch[OF _ c] assms(1-4) have
    "login_watch tr = Some (Live (if rc = PAM_SUCCESS then st' else Refused) (creds_established (fst w)) (session_open (fst w)), None)"
    by (simp add: at_stage_def)
  with assms(5,6) c show ?thesis
    by (cases w) (auto simp: at_stage_def session_call_def split: if_splits)
qed

lemma step_stage:
  "at_stage Begun w \<Longrightarrow> session_authenticate os w = (r, w') \<Longrightarrow>
     at_stage (case r of Inl e \<Rightarrow> Refused | Inr _ \<Rightarrow> Authenticated) w'"
  "at_stage Authenticated w \<Longrightarrow> session_acct_mgmt os w = (r, w') \<Longrightarrow>
     at_stage (case r of Inl e \<Rightarrow> Refused | Inr _ \<Rightarrow> Accepted) w'"
  using call_stage[of Begun w Authenticate Authenticated] call_stage[of Authenticated w Acct_Mgmt Accepted]
  by (simp_all add: session_authenticate_def session_acct_mgmt_def)

lemma establish_stage:
  assumes "at_stage Accepted w" "session_establish_cred os w = (r, w')"
  shows "at_stage (case r of Inl e \<Rightarrow> Refused | Inr _ \<Rightarrow> Credentialed) w'"
  using assms pam_call_watch[of "snd w" _ os Establish_Cred]
  by (cases w) (auto simp: at_stage_def session_establish_cred_def split: prod.splits if_splits)

lemma open_stage:
  assumes "at_stage Credentialed w" "session_open_session os w = (r, w')"
  shows "at_stage (case r of Inl e \<Rightarrow> Refused | Inr _ \<Rightarrow> Opened) w'"
  using assms pam_call_watch[of "snd w" _ os Open_Session]
  by (cases w) (auto simp: at_stage_def session_open_session_def session_call_def split: prod.splits if_splits)

lemma close_watch:
  assumes "login_watch (snd w) = Some (Live st c opn, None)" "opn" "\<not> running st" "session_close_session os w = (r, w')"
  shows "login_watch (snd w') = Some (Live Over c False, None)"
    and "fst w' = (fst w)\<lparr>session_open := False\<rparr>"
  using assms pam_call_watch[of "snd w" _ os Close_Session]
  by (cases w; auto simp: session_close_session_def session_call_def split: prod.splits if_splits)+

lemma delete_watch:
  assumes "login_watch (snd w) = Some (Live st c opn, None)" "c" "\<not> opn" "\<not> running st" "session_delete_cred os w = (r, w')"
  shows "login_watch (snd w') = Some (Live Over False False, None)"
    and "fst w' = (fst w)\<lparr>creds_established := False\<rparr>"
  using assms pam_call_watch[of "snd w" _ os Delete_Cred]
  by (cases w; auto simp: session_delete_cred_def split: prod.splits if_splits)+

lemma finish_stage:
  assumes "at_stage Over w" "creds_established (fst w)" "session_open (fst w)"
  shows "at_stage Over (snd (session_delete_cred os (snd (session_close_session os w))))"
proof -
  obtain r1 w1 r2 w2 where e: "session_close_session os w = (r1, w1)" "session_delete_cred os w1 = (r2, w2)"
    by (meson surj_pair)
  have over: "\<not> running Over" by (simp add: running_def)
  have "login_watch (snd w) = Some (Live Over True True, None)" using assms by (simp add: at_stage_def)
  from close_watch[OF this _ over e(1)] have w1: "login_watch (snd w1) = Some (Live Over True False, None)"
    "fst w1 = (fst w)\<lparr>session_open := False\<rparr>" by simp_all
  from delete_watch[OF w1(1) _ _ over e(2)] w1(2) show ?thesis by (simp add: e at_stage_def)
qed

text \<open>Dropping the session ends the transaction, whatever is left to undo.\<close>

lemma drop_watch:
  assumes "at_stage st w" "\<not> running st"
  shows "login_watch (drop_session os w) = Some (Idle, None)"
proof -
  obtain s tr where w: "w = (s, tr)" by (cases w)
  define tr1 where "tr1 = (if session_open s then snd (pam_call os Close_Session tr) else tr)"
  define tr2 where "tr2 = (if creds_established s then snd (pam_call os Delete_Cred tr1) else tr1)"
  have "\<exists>st'. \<not> running st' \<and> login_watch tr1 = Some (Live st' (creds_established s) False, None)"
    using assms pam_call_watch[of tr _ os Close_Session] 
    by (cases "pam_call os Close_Session tr") (fastforce simp: at_stage_def w tr1_def running_def)
  then obtain st' where "\<not> running st'" "login_watch tr1 = Some (Live st' (creds_established s) False, None)" by blast
  then have "\<exists>st''. \<not> running st'' \<and> login_watch tr2 = Some (Live st'' False False, None)"
    using pam_call_watch[of tr1 _ os Delete_Cred]
    by (cases "pam_call os Delete_Cred tr1") (fastforce simp: tr2_def running_def)
  moreover have "drop_session os w = tr2 @ [Ended]" by (simp add: drop_session_def w tr1_def tr2_def)
  ultimately show ?thesis by auto
qed

definition ready :: "pam_state \<Rightarrow> bool" where
  "ready w \<longleftrightarrow> (\<exists>st. at_stage st w \<and> \<not> running st)"

lemma readyI: "at_stage st w \<Longrightarrow> \<not> running st \<Longrightarrow> ready w"
  by (auto simp: ready_def)

lemma ready_then:
  "ready (snd m) \<Longrightarrow> (\<And>x w. m = (Inr x, w) \<Longrightarrow> ready (snd (f x w))) \<Longrightarrow> ready (snd (then_r m f))"
  by (cases m; cases "fst m") (auto simp: then_r_def)

lemma checked_ready:
  assumes "at_stage (case r of Inl e \<Rightarrow> Refused | Inr _ \<Rightarrow> st) w" "at_stage st w \<Longrightarrow> ready (snd (next w))"
  shows "ready (snd (checked os (r, w) msg next))"
proof (cases r)
  case (Inl e)
  with assms(1) reject_stage[of Refused w os "msg e"] show ?thesis
    by (auto simp: checked_def running_def intro: readyI)
next
  case (Inr x)
  with assms show ?thesis by (simp add: checked_def)
qed

lemma say_fst: "fst (snd (session_say os msg w)) = fst w"
  by (auto simp: session_say_def split: prod.splits)

lemma run_session_ready:
  assumes "at_stage Opened w"
  shows "ready (snd (run_session os cfg tty username w))"
proof -
  have not_running: "\<not> running Opened" "\<not> running Over" "\<not> running Refused" by (simp_all add: running_def)
  have rest: "ready (snd (let pid = lo_fork os tr; tr = tr @ [Forked pid usr (child tr)] in
      (case pid of
         Inl e \<Rightarrow> session_say os (''fork failed: '' @ e) (s, tr)
       | Inr p \<Rightarrow> then_r (session_say os (msg tr) (s, tr @ [Waited p])) (\<lambda>_ w.
           (Inr (), snd (session_delete_cred os (snd (session_close_session os w))))))))"
    if "at_stage Opened (s, tr)" for s tr usr child msg
  proof (cases "lo_fork os tr")
    case (Inl e)
    with that say_stage[of Refused "(s, tr @ [Forked (Inl e) usr (child tr)])" os "''fork failed: '' @ e"] not_running
    show ?thesis by (auto simp: at_stage_def intro: readyI)
  next
    case (Inr p)
    let ?w = "(s, tr @ [Forked (Inr p) usr (child tr), Waited p])"
    have over: "at_stage Over ?w"
      using that login_watch_snoc[of "tr @ [Forked (Inr p) usr (child tr)]" _ "Waited p"] by (auto simp: at_stage_def)
    have said: "at_stage Over w'" "fst w' = s" if "session_say os m ?w = (r, w')" for m r w'
      using say_stage[OF over, of os m] say_fst[of os m ?w] that by simp_all
    have "creds_established s" "session_open s" using that by (auto simp: at_stage_def)
    then have fin: "ready (snd (session_delete_cred os (snd (session_close_session os w'))))"
      if "session_say os m ?w = (r, w')" for m r w'
      using said[OF that] not_running by (intro readyI[of Over] finish_stage) simp_all
    have "ready (snd (session_say os m ?w))" for m
      using say_stage[OF over] not_running by (intro readyI[of Over])
    with fin show ?thesis unfolding Let_def Inr sum.case by (intro ready_then) auto
  qed
  have stay: "at_stage Opened w'" if "session_say os m w = (r, w')" for m r w'
    using say_stage[OF assms, of os m] that by simp
  show ?thesis unfolding run_session_def Let_def[of "or_else _ _"]
  proof (rule ready_then)
    show "ready (snd (session_say os m w))" for m
      using say_stage[OF assms] not_running by (intro readyI[of Opened])
  next
    fix x w' and m :: string
    assume m: "session_say os m w = (Inr x, w')"
    obtain s tr where w': "w' = (s, tr)" by (cases w')
    show "ready (snd ((\<lambda>(s, tr). let pid = lo_fork os tr; tr = tr @ [Forked pid usr (child tr)] in
        (case pid of
           Inl e \<Rightarrow> session_say os (''fork failed: '' @ e) (s, tr)
         | Inr p \<Rightarrow> then_r (session_say os (msg tr) (s, tr @ [Waited p])) (\<lambda>_ w.
             (Inr (), snd (session_delete_cred os (snd (session_close_session os w))))))) w'))" for usr child msg
      unfolding w' prod.case by (rule rest) (use stay[OF m] w' in simp)
  qed
qed

lemma transaction_ready:
  assumes "at_stage Begun w"
  shows "ready (snd (login_transaction os cfg tty username w))"
proof -
  have 1: "ready (snd (checked os (session_open_session os w) msg (run_session os cfg tty username)))"
    if "at_stage Credentialed w" for w msg
    using that by (cases "session_open_session os w") (auto intro!: checked_ready run_session_ready dest: open_stage)
  have 2: "ready (snd (checked os (session_establish_cred os w) msg next))"
    if "at_stage Accepted w" "\<And>w. at_stage Credentialed w \<Longrightarrow> ready (snd (next w))" for w msg "next"
    using that by (cases "session_establish_cred os w") (auto intro!: checked_ready dest: establish_stage)
  have 3: "ready (snd (checked os (session_acct_mgmt os w) msg next))"
    if "at_stage Authenticated w" "\<And>w. at_stage Accepted w \<Longrightarrow> ready (snd (next w))" for w msg "next"
    using that by (cases "session_acct_mgmt os w") (auto intro!: checked_ready dest: step_stage)
  have 4: "ready (snd (checked os (session_authenticate os w) msg next))"
    if "at_stage Begun w" "\<And>w. at_stage Authenticated w \<Longrightarrow> ready (snd (next w))" for w msg "next"
    using that by (cases "session_authenticate os w") (auto intro!: checked_ready dest: step_stage)
  show ?thesis unfolding login_transaction_def by (intro 1 2 3 4 assms)
qed

section \<open>Rounds\<close>

definition idle :: "login_trace \<Rightarrow> bool" where
  "idle tr \<longleftrightarrow> login_watch tr = Some (Idle, None)"

lemma idle_then:
  "idle (snd m) \<Longrightarrow> (\<And>x tr. idle tr \<Longrightarrow> idle (snd (f x tr))) \<Longrightarrow> idle (snd (then_r m f))"
  by (cases m; cases "fst m") (auto simp: then_r_def)

lemma idle_calm: "idle tr \<Longrightarrow> calm.keeps tr m \<Longrightarrow> idle (snd m)"
  unfolding idle_def by (rule watch_calm)

lemmas idle_tty = calm.keeps_tty[THEN idle_calm[rotated]] calm.keeps_read_line[THEN idle_calm[rotated]]

lemma idle_pause: "idle tr \<Longrightarrow> idle (snd (Inr (), pause_login tr))"
  by (simp add: idle_def pause_login_def)

lemma idle_start:
  assumes "idle tr"
  shows "idle (snd (case session_start os sv u tr of
      (Inl e, tr) \<Rightarrow> then_r (tty_say os (msg e) tr) (\<lambda>_ tr. (Inr (), pause_login tr))
    | (Inr s, tr) \<Rightarrow> (case login_transaction os cfg tty u (s, tr) of (r, w) \<Rightarrow> (r, drop_session os w))))"
proof (cases "session_start os sv u tr")
  case (Pair r tr')
  show ?thesis
  proof (cases r)
    case (Inl e)
    with Pair assms have "idle tr'" by (auto simp: session_start_def Let_def idle_def split: if_splits)
    then show ?thesis unfolding Pair Inl by (auto intro!: idle_then idle_tty idle_pause)
  next
    case (Inr s)
    with Pair assms have "at_stage Begun (s, tr')"
      by (auto simp: session_start_def Let_def idle_def at_stage_def split: if_splits)
    from transaction_ready[OF this, of os cfg tty u] show ?thesis unfolding Pair Inr
      by (auto simp: ready_def idle_def intro: drop_watch split: prod.split)
  qed
qed

lemma idle_if: "idle (snd a) \<Longrightarrow> idle (snd b) \<Longrightarrow> idle (snd (if p then a else b))"
  by simp

lemma idle_round: "idle tr \<Longrightarrow> idle (snd (login_round os cfg tty tr))"
  unfolding login_round_def render_banner_def Let_def
  by (intro idle_then idle_if idle_tty idle_start)

lemma idle_loop: "idle tr \<Longrightarrow> idle (snd (login_loop n os cfg tty tr))"
  by (induction n arbitrary: tr) (simp_all add: idle_then idle_round)

lemma idle_run: "idle (snd (login_run os n a []))"
  unfolding login_run_def Let_def by (intro idle_then idle_tty idle_loop) (simp add: idle_def login_watch_def)

lemma idle_main: "idle (snd (login_main os n argv))"
proof (cases "parse_login_args (tl argv) default_login_args")
  case (Inr a)
  with idle_run[of os n a] show ?thesis by (auto simp: login_main_def split: prod.split sum.split)
qed (simp add: login_main_def login_watch_def idle_def)

text \<open>
  C6: whatever PAM, the terminal and the children do, the events of every run of the console login
  are a run of the protocol: authentication, account check, credentials and session in this order,
  a refused step followed only by the clean-up, a session child forked only with all four granted
  and waited for before the session is closed, the session closed, the credentials deleted and the
  transaction ended exactly once each, and the terminal's flags restored around each hidden answer.
  At the end of every round, and when the program exits, no transaction is open.
\<close>

theorem login_protocol: "login_watch (snd (login_main os n argv)) = Some (Idle, None)"
  using idle_main by (simp add: idle_def)

section \<open>Who gets a session\<close>

fun transaction_event :: "login_event \<Rightarrow> bool" where
  "transaction_event (Started s v rc) = True"
| "transaction_event (Pam op rc) = True"
| "transaction_event Ended = True"
| "transaction_event e = False"

text \<open>The calls of PAM that lead to a stage, each successful.\<close>

fun granted :: "stage \<Rightarrow> login_event list option" where
  "granted Begun = Some []"
| "granted Authenticated = Some [Pam Authenticate PAM_SUCCESS]"
| "granted Accepted = Some [Pam Authenticate PAM_SUCCESS, Pam Acct_Mgmt PAM_SUCCESS]"
| "granted Credentialed = Some [Pam Authenticate PAM_SUCCESS, Pam Acct_Mgmt PAM_SUCCESS, Pam Establish_Cred PAM_SUCCESS]"
| "granted Opened = Some [Pam Authenticate PAM_SUCCESS, Pam Acct_Mgmt PAM_SUCCESS, Pam Establish_Cred PAM_SUCCESS,
     Pam Open_Session PAM_SUCCESS]"
| "granted st = None"

lemma granted_after:
  "stage_after op st = Some st' \<Longrightarrow> \<exists>es. granted st = Some es \<and> granted st' = Some (es @ [Pam op PAM_SUCCESS])"
  by (cases "(op, st)" rule: stage_after.cases) auto

definition since_start :: "login_event list \<Rightarrow> login_trace \<Rightarrow> bool" where
  "since_start es tr \<longleftrightarrow>
     (\<exists>zs s v qs. tr = zs @ Started s v PAM_SUCCESS # qs \<and> filter transaction_event qs = es)"

lemma since_start_snoc:
  "since_start es tr \<Longrightarrow> since_start (if transaction_event e then es @ [e] else es) (tr @ [e])"
  unfolding since_start_def by force

lemma watch_hidden: "watch e (p, Some l) = Some (q, h) \<Longrightarrow> q = p \<and> \<not> transaction_event e"
  by (cases e) (auto split: if_splits)

lemma watch_shown:
  "watch e (p, None) = Some (q, h) \<Longrightarrow> (\<exists>a b. e = Tty_Flags a b \<and> q = p) \<or> watch_phase e p = Some q"
  by (cases e) (auto split: if_splits)

lemma history:
  "login_watch tr = Some (Live st c opn, h) \<Longrightarrow> granted st = Some es \<Longrightarrow> since_start es tr"
proof (induction tr arbitrary: st c opn h es rule: rev_induct)
  case (snoc e tr)
  obtain p k where pk: "login_watch tr = Some (p, k)" "watch e (p, k) = Some (Live st c opn, h)"
    using snoc.prems(1) by (auto simp: login_watch_def fold_opt_append split: option.splits)
  have same: "since_start es (tr @ [e])" if "p = Live st c' o'" "\<not> transaction_event e" for c' o'
    using since_start_snoc[OF snoc.IH[of st c' o' k es], of e] pk(1) that snoc.prems(2) by simp
  show ?case
  proof (cases k)
    case (Some l)
    with watch_hidden[of e p l] pk(2) same show ?thesis by auto
  next
    case None
    with watch_shown[of e p] pk(2) consider a b where "e = Tty_Flags a b" "p = Live st c opn"
      | "watch_phase e p = Some (Live st c opn)" by blast
    then show ?thesis
    proof cases
      case 2
      then show ?thesis
      proof (cases e)
        case (Started s v rc)
        with 2 snoc.prems(2) have "e = Started s v PAM_SUCCESS" "es = []" by (auto split: if_splits)
        then show ?thesis unfolding since_start_def by (metis append_Cons append_Nil filter.simps(1))
      next
        case (Pam op rc)
        with 2 obtain st' c' o' where p: "p = Live st' c' o'" by (cases p) auto
        with 2 Pam snoc.prems(2) have "stage_after op st' = Some st" "rc = PAM_SUCCESS"
          by (auto split: if_splits)
        with granted_after[of op st' st] snoc.prems(2) obtain es' where
          "granted st' = Some es'" "es = es' @ [Pam op PAM_SUCCESS]" by auto
        with snoc.IH[of st' c' o' k es'] pk(1) p Pam \<open>rc = PAM_SUCCESS\<close> since_start_snoc[of es' tr e]
        show ?thesis by simp
      next
        case (Forked r u ch)
        with 2 snoc.prems(2) show ?thesis by (auto split: if_splits sum.splits)
      next
        case (Waited pid)
        with 2 snoc.prems(2) show ?thesis by (auto split: phase.splits stage.splits if_splits)
      next
        case Ended
        with 2 show ?thesis by (auto split: phase.splits bool.splits if_splits)
      qed (use 2 same in auto)
    qed (use same in auto)
  qed
qed (simp add: login_watch_def)

definition all_granted :: "login_event list" where
  "all_granted = [Pam Authenticate PAM_SUCCESS, Pam Acct_Mgmt PAM_SUCCESS, Pam Establish_Cred PAM_SUCCESS,
     Pam Open_Session PAM_SUCCESS]"

lemma fork_history:
  assumes "idle (xs @ Forked r usr child # ys)"
  shows "since_start all_granted xs"
proof -
  from assms obtain p k where "login_watch xs = Some (p, k)" "watch (Forked r usr child) (p, k) \<noteq> None"
    by (auto simp: idle_def login_watch_def fold_opt_append split: option.splits)
  then have "login_watch xs = Some (Live Opened True True, None)" by (cases k) (auto split: if_splits)
  then show ?thesis by (rule history) (simp add: all_granted_def)
qed

text \<open>
  C10: whenever the console login forks the child of a session, the transaction that is open then
  has been authenticated, its account checked, its credentials established and its session
  opened, each with success, in this order, and PAM was asked nothing else in it.
\<close>

theorem fork_needs_login:
  assumes "snd (login_main os n argv) = xs @ Forked r usr child # ys"
  shows "since_start [Pam Authenticate PAM_SUCCESS, Pam Acct_Mgmt PAM_SUCCESS, Pam Establish_Cred PAM_SUCCESS,
     Pam Open_Session PAM_SUCCESS] xs"
  using fork_history[of xs r usr child ys] idle_main[of os n argv] unfolding assms all_granted_def by blast

section \<open>An example\<close>

text \<open>A terminal on which one user types a name and a password, and nothing more.\<close>

definition typed :: "login_trace \<Rightarrow> io_error + string" where
  "typed tr =
     (let n = length (filter (\<lambda>e. e = Read_Line) tr) in
      if n = 0 then Inr (''ann'' @ [LF]) else if n = 1 then Inr (''secret'' @ [LF]) else Inl Interrupted)"

definition sample_pw :: passwd_entry where
  "sample_pw = \<lparr>pw_uid = 1000, pw_gid = 100, pw_dir = ''/home/ann'', pw_shell = ''/bin/sh''\<rparr>"

definition sample_login_os :: login_os where
  "sample_login_os =
     \<lparr>lo_file = (\<lambda>tr p. Inl Not_Found), lo_toml = (\<lambda>s. None), lo_open = (\<lambda>tr p w. Inr ()), lo_write = (\<lambda>tr s. Inr ()),
      lo_read = typed, lo_clone = (\<lambda>tr. Inr ()), lo_get_flags = (\<lambda>tr. Inr 0x8A3B), lo_set_flags = (\<lambda>tr f. Inr ()),
      lo_alloc = (\<lambda>tr n. True), lo_start = (\<lambda>tr s u. 0),
      lo_pam = (\<lambda>tr op. if op = Authenticate
        then Pam_Ask [Some \<lparr>pm_style = 1, pm_text = Some ''Password: ''\<rparr>]
          (\<lambda>r. Pam_Return (if r = Answers [Some ''secret''] then 0 else 7))
        else Pam_Return 0),
      lo_pam_user = (\<lambda>tr. Some ''ann''), lo_strerror = (\<lambda>e. None), lo_fork = (\<lambda>tr. Inr 42), lo_wait = (\<lambda>tr. 0),
      lo_getpwnam = (\<lambda>tr u. if u = ''ann'' then Some sample_pw else None), lo_execve = (\<lambda>tr. True)\<rparr>"

lemma split_at: "i < length xs \<Longrightarrow> xs ! i = x \<Longrightarrow> xs = take i xs @ x # drop (Suc i) xs"
  by (metis id_take_nth_drop)

lemma sample_fork:
  "let tr = snd (login_main sample_login_os 1 [''writeonce-login'']) in 23 < length tr \<and>
     (case tr ! 23 of Forked r usr c \<Rightarrow> r = Inr 42 \<and> usr = ''ann'' | _ \<Rightarrow> False)"
  by code_simp

theorem fork_needs_login_witness:
  "\<exists>xs child ys. snd (login_main sample_login_os 1 [''writeonce-login'']) = xs @ Forked (Inr 42) ''ann'' child # ys
    \<and> since_start all_granted xs"
proof -
  let ?tr = "snd (login_main sample_login_os 1 [''writeonce-login''])"
  from sample_fork obtain child where f: "23 < length ?tr" "?tr ! 23 = Forked (Inr 42) ''ann'' child"
    by (auto simp: Let_def split: login_event.splits)
  from fork_needs_login[OF split_at[OF f]] split_at[OF f] show ?thesis
    unfolding all_granted_def by blast
qed

text \<open>
  The conversation: an answer with a NUL byte becomes the empty password, a prompt that cannot be
  read is reported as a success without an answer, and a failed allocation gives up the answers
  before it without freeing them.
\<close>

definition ask :: "string \<Rightarrow> pam_message option" where
  "ask s = Some \<lparr>pm_style = 1, pm_text = Some s\<rparr>"

lemma conversation_edges:
  "fst (conv_trampoline (sample_login_os\<lparr>lo_read := \<lambda>tr. Inr (''sec'' @ [CHR 0x00] @ ''ret'' @ [LF])\<rparr>) [ask ''Password: ''] [])
     = Answers [Some []]"
  "fst (conv_trampoline (sample_login_os\<lparr>lo_read := \<lambda>tr. Inl Interrupted\<rparr>) [ask ''Password: ''] []) = Answers [None]"
  "fst (conv_trampoline (sample_login_os\<lparr>lo_alloc := \<lambda>tr n. length tr < 12\<rparr>) [ask ''Old: '', ask ''New: ''] [])
     = Conv_Error PAM_BUF_ERR [''ann'']"
  by code_simp+

end
