(* ===== verification/Session_Create.thy ===== *)
theory Session_Create
  imports Login_Protocol Logind
begin

text \<open>
  The post-login helper, crates/writeonce-session-create/src/main.rs: its arguments, the
  CreateSession call to the login daemon (the model of theory Logind behind the bus), and the
  system calls that hand over to the user's session, as a trace. The descriptor the reply brings
  has a number of its own in the helper, \<open>so_fd\<close>. A daemon that panics does not answer, and the
  helper waits: the result is then \<open>None\<close>.
\<close>

section \<open>Arguments\<close>

record helper_args =
  ha_user :: string
  ha_uid :: u32
  ha_gid :: u32
  ha_home :: string
  ha_shell :: string
  ha_tty :: string
  ha_vtnr :: u32
  ha_session_script :: string

record helper_options =
  ho_user :: "string option"
  ho_uid :: "u32 option"
  ho_gid :: "u32 option"
  ho_home :: "string option"
  ho_shell :: "string option"
  ho_tty :: string
  ho_vtnr :: u32
  ho_session_script :: "string option"

definition no_options :: helper_options where
  "no_options =
     \<lparr>ho_user = None, ho_uid = None, ho_gid = None, ho_home = None, ho_shell = None,
      ho_tty = ''/dev/tty1'', ho_vtnr = 1, ho_session_script = None\<rparr>"

text \<open>One option with its value; \<open>None\<close> for an argument that is not one, or a number that does not parse.\<close>

definition set_option :: "string \<Rightarrow> string \<Rightarrow> helper_options \<Rightarrow> helper_options option" where
  "set_option x v a =
     (if x = ''--user'' then Some (a\<lparr>ho_user := Some v\<rparr>)
      else if x = ''--uid'' then map_option (\<lambda>n. a\<lparr>ho_uid := Some n\<rparr>) (parse_u32 v)
      else if x = ''--gid'' then map_option (\<lambda>n. a\<lparr>ho_gid := Some n\<rparr>) (parse_u32 v)
      else if x = ''--home'' then Some (a\<lparr>ho_home := Some v\<rparr>)
      else if x = ''--shell'' then Some (a\<lparr>ho_shell := Some v\<rparr>)
      else if x = ''--tty'' then Some (a\<lparr>ho_tty := v\<rparr>)
      else if x = ''--vtnr'' then map_option (\<lambda>n. a\<lparr>ho_vtnr := n\<rparr>) (parse_u32 v)
      else if x = ''--session-script'' then Some (a\<lparr>ho_session_script := Some v\<rparr>)
      else None)"

text \<open>The options, or the code of the exit: 0 after the usage text, 2 after an error.\<close>

fun scan_options :: "string list \<Rightarrow> helper_options \<Rightarrow> nat + helper_options" where
  "scan_options [] a = Inr a"
| "scan_options (x # xs) a =
     (if x = ''-h'' \<or> x = ''--help'' then Inl 0
      else
        case xs of
          [] \<Rightarrow> Inl 2
        | v # ys \<Rightarrow> (case set_option x v a of None \<Rightarrow> Inl 2 | Some b \<Rightarrow> scan_options ys b))"

definition require_options :: "helper_options \<Rightarrow> helper_args option" where
  "require_options a = do {
     usr \<leftarrow> ho_user a; uid \<leftarrow> ho_uid a; gid \<leftarrow> ho_gid a; home \<leftarrow> ho_home a; shell \<leftarrow> ho_shell a;
     script \<leftarrow> ho_session_script a;
     Some \<lparr>ha_user = usr, ha_uid = uid, ha_gid = gid, ha_home = home, ha_shell = shell,
       ha_tty = ho_tty a, ha_vtnr = ho_vtnr a, ha_session_script = script\<rparr> }"

definition parse_helper_args :: "string list \<Rightarrow> nat + helper_args" where
  "parse_helper_args argv =
     bind_r (scan_options (tl argv) no_options) (\<lambda>a. ok_or 2 (require_options a))"

section \<open>The call to the login daemon\<close>

text \<open>The body of the call; the daemon looks at part of it only.\<close>

record create_body =
  cb_uid :: u32
  cb_pid :: u32
  cb_service :: string
  cb_type :: string
  cb_class :: string
  cb_desktop :: string
  cb_seat_id :: string
  cb_vtnr :: u32
  cb_tty :: string
  cb_display :: string
  cb_remote :: bool
  cb_remote_user :: string
  cb_remote_host :: string

definition session_body :: "helper_args \<Rightarrow> u32 \<Rightarrow> create_body" where
  "session_body a pid =
     \<lparr>cb_uid = ha_uid a, cb_pid = pid, cb_service = ''writeonce-login'', cb_type = ''tty'', cb_class = ''user'',
      cb_desktop = '''', cb_seat_id = ''seat0'', cb_vtnr = ha_vtnr a, cb_tty = ha_tty a, cb_display = '''',
      cb_remote = False, cb_remote_user = '''', cb_remote_host = ''''\<rparr>"

definition logind_args :: "create_body \<Rightarrow> create_args" where
  "logind_args b =
     \<lparr>ca_uid = cb_uid b, ca_pid = cb_pid b, ca_service = cb_service b, ca_type = cb_type b, ca_class = cb_class b,
      ca_seat = cb_seat_id b, ca_vtnr = cb_vtnr b, ca_display = cb_display b, ca_remote = cb_remote b\<rparr>"

datatype helper_call =
    Get_Fd_Flags int | Set_Fd_Flags int u32 | Mkdir string nat | Chown_To string u32 u32 | Chmod_To string nat
  | Init_Groups string u32 | Set_Gids u32 u32 u32 | Set_Uids u32 u32 u32 | Chdir_To string
  | Exec_Script string "string list" "string list"

datatype helper_error = No_Bus string | Bus_Error fdo_error | Bad_Reply string | Call_Error helper_call io_error | Nul_Byte string

record helper_os =
  so_bus :: "string option"
  so_reply :: "string option"
  so_logind :: logind_env
  so_fd :: "int \<Rightarrow> int"
  so_flags :: "helper_call list \<Rightarrow> io_error + u32"
  so_call :: "helper_call list \<Rightarrow> helper_call \<Rightarrow> io_error + unit"

record session_reply =
  sr_id :: string
  sr_runtime_path :: string
  sr_fifo_fd :: int

text \<open>Neither a bus that is not there nor a reply that cannot be read or does not arrive is the daemon's.\<close>

definition helper_create_session ::
  "helper_os \<Rightarrow> helper_args \<Rightarrow> u32 \<Rightarrow> logind \<Rightarrow> (helper_error + session_reply) option \<times> logind" where
  "helper_create_session os a pid l =
     (case so_bus os of
        Some e \<Rightarrow> (Some (Inl (No_Bus e)), l)
      | None \<Rightarrow>
          (case create_session (so_logind os) (logind_args (session_body a pid)) l of
             (None, l') \<Rightarrow> (None, l')
           | (Some (Inl e), l') \<Rightarrow> (Some (Inl (Bus_Error e)), l')
           | (Some (Inr (i, path, runtime, fd, uid, seat, vtnr, existing)), l') \<Rightarrow>
               (Some (case so_reply os of
                  Some e \<Rightarrow> Inl (Bad_Reply e)
                | None \<Rightarrow> Inr \<lparr>sr_id = i, sr_runtime_path = runtime, sr_fifo_fd = so_fd os fd\<rparr>), l')))"

section \<open>Handing over\<close>

type_synonym 'a helper = "helper_call list \<Rightarrow> (helper_error + 'a) \<times> helper_call list"

definition perform :: "helper_os \<Rightarrow> helper_call \<Rightarrow> unit helper" where
  "perform os c tr = (map_err (Call_Error c) (so_call os tr c), tr @ [c])"

text \<open>A C string of its argument, or an error.\<close>

definition c_arg :: "string \<Rightarrow> string helper" where
  "c_arg s tr = (ok_or (Nul_Byte s) (c_string s), tr)"

definition FD_CLOEXEC :: u32 where "FD_CLOEXEC = 1"

unbundle bit_operations_syntax

definition clear_cloexec :: "helper_os \<Rightarrow> int \<Rightarrow> unit helper" where
  "clear_cloexec os fd tr =
     then_r (map_err (Call_Error (Get_Fd_Flags fd)) (so_flags os tr), tr @ [Get_Fd_Flags fd])
       (\<lambda>flags. perform os (Set_Fd_Flags fd (flags AND NOT FD_CLOEXEC)))"

text \<open>Modes are octal in the source: 448 is 0700.\<close>

definition make_dir :: "helper_os \<Rightarrow> string \<Rightarrow> unit helper" where
  "make_dir os path tr =
     (case perform os (Mkdir path 448) tr of
        (Inl (Call_Error c Already_Exists), tr') \<Rightarrow> (Inr (), tr')
      | r \<Rightarrow> r)"

definition setup_runtime_dir :: "helper_os \<Rightarrow> string \<Rightarrow> u32 \<Rightarrow> u32 \<Rightarrow> unit helper" where
  "setup_runtime_dir os path uid gid tr =
     then_r (c_arg path tr) (\<lambda>path tr.
     then_r (make_dir os path tr) (\<lambda>_ tr.
     then_r (perform os (Chown_To path uid gid) tr) (\<lambda>_.
       perform os (Chmod_To path 448))))"

definition drop_privileges :: "helper_os \<Rightarrow> string \<Rightarrow> u32 \<Rightarrow> u32 \<Rightarrow> unit helper" where
  "drop_privileges os usr uid gid tr =
     then_r (c_arg usr tr) (\<lambda>usr tr.
     then_r (perform os (Init_Groups usr gid) tr) (\<lambda>_ tr.
     then_r (perform os (Set_Gids gid gid gid) tr) (\<lambda>_.
       perform os (Set_Uids uid uid uid))))"

definition env_pairs :: "helper_args \<Rightarrow> string \<Rightarrow> string \<Rightarrow> string list" where
  "env_pairs a i runtime =
     [''USER='' @ ha_user a, ''LOGNAME='' @ ha_user a, ''HOME='' @ ha_home a, ''SHELL='' @ ha_shell a,
      ''PATH=/run/current-system/sw/bin:/usr/local/bin:/usr/bin:/bin'', ''XDG_SESSION_ID='' @ i,
      ''XDG_RUNTIME_DIR='' @ runtime, ''XDG_SESSION_CLASS=user'', ''XDG_SESSION_TYPE=tty'',
      ''TERM=linux'', ''LANG=C.UTF-8'']"

definition build_env :: "helper_args \<Rightarrow> string \<Rightarrow> string \<Rightarrow> string list helper" where
  "build_env a i runtime tr = (traverse (\<lambda>s. ok_or (Nul_Byte s) (c_string s)) (env_pairs a i runtime), tr)"

text \<open>After \<open>CreateSession\<close>; the value is only reached if \<open>execve\<close> replaced the program.\<close>

definition hand_over :: "helper_os \<Rightarrow> helper_args \<Rightarrow> session_reply \<Rightarrow> unit helper" where
  "hand_over os a s tr =
     then_r (clear_cloexec os (sr_fifo_fd s) tr) (\<lambda>_ tr.
     then_r (setup_runtime_dir os (sr_runtime_path s) (ha_uid a) (ha_gid a) tr) (\<lambda>_ tr.
     then_r (drop_privileges os (ha_user a) (ha_uid a) (ha_gid a) tr) (\<lambda>_ tr.
     then_r (c_arg (ha_home a) tr) (\<lambda>home tr.
     then_r (perform os (Chdir_To home) tr) (\<lambda>_ tr.
     then_r (build_env a (sr_id s) (sr_runtime_path s) tr) (\<lambda>env tr.
     then_r (c_arg (ha_session_script a) tr) (\<lambda>prog.
       perform os (Exec_Script prog [prog] env))))))))"

definition helper_run ::
  "helper_os \<Rightarrow> helper_args \<Rightarrow> u32 \<Rightarrow> logind \<Rightarrow> (helper_error + unit) option \<times> helper_call list \<times> logind" where
  "helper_run os a pid l =
     (case helper_create_session os a pid l of
        (None, l') \<Rightarrow> (None, [], l')
      | (Some (Inl e), l') \<Rightarrow> (Some (Inl e), [], l')
      | (Some (Inr s), l') \<Rightarrow> (case hand_over os a s [] of (r, tr) \<Rightarrow> (Some r, tr, l')))"

text \<open>How the program ends: with an exit code, as the user's session, or waiting for the daemon.\<close>

datatype helper_end = Exited nat | Became_Session | Waits

definition helper_main ::
  "helper_os \<Rightarrow> u32 \<Rightarrow> string list \<Rightarrow> logind \<Rightarrow> helper_end \<times> helper_call list \<times> logind" where
  "helper_main os pid argv l =
     (case parse_helper_args argv of
        Inl code \<Rightarrow> (Exited code, [], l)
      | Inr a \<Rightarrow>
          (case helper_run os a pid l of
             (None, tr, l') \<Rightarrow> (Waits, tr, l')
           | (Some (Inl e), tr, l') \<Rightarrow> (Exited 1, tr, l')
           | (Some (Inr _), tr, l') \<Rightarrow> (Became_Session, tr, l')))"

end
