(* ===== verification/Session_Handover.thy ===== *)
theory Session_Handover
  imports Session_Create Logind_Safety
begin

text \<open>
  From the console login to the user's session: the arguments the login's child starts the helper
  with are read back unchanged, the helper becomes the session only after the login daemon knows
  it and every privilege was given up, and both together register and run the session of the
  user PAM logged in.
\<close>

section \<open>What the login's child is\<close>

text \<open>
  A law that the calls of PAM keep too, and the fork of a session in the state the loop forks it
  in: after the message that names the user.
\<close>

locale login_law = terminal_law law for law :: "login_trace \<Rightarrow> login_trace \<Rightarrow> bool" +
  fixes os :: login_os and cfg :: login_config and tty :: string
  assumes law_pam: "law tr [Pam op rc]" "law tr [Started s v rc]" "law tr [Ended]" "law tr [Waited p]"
    and law_fork: "usr = or_else (authenticated_user os tr) v \<Longrightarrow> tr' = tr @ [Wrote m] \<Longrightarrow>
      law tr' [Forked pid usr (login_child_exec os usr (lc_session_script cfg) tty tr')]"
begin

text \<open>The same for a transaction, whose state has the flags of the session beside the trace.\<close>

definition keeps_session :: "pam_state \<Rightarrow> 'r \<times> pam_state \<Rightarrow> bool" where
  "keeps_session w m \<longleftrightarrow> keeps (snd w) (fst m, snd (snd m))"

lemma keeps_result: "keeps tr (r, tr') \<longleftrightarrow> keeps tr (r', tr')"
  by (simp add: keeps_def)

lemma session_then:
  assumes "keeps_session w m" "\<And>x w'. keeps_session w' (f x w')"
  shows "keeps_session w (then_r m f)"
proof -
  let ?m = "(fst m, snd (snd m))"
  have "keeps (snd w) (then_r ?m (\<lambda>x tr. (fst (f x (fst (snd m), tr)), snd (snd (f x (fst (snd m), tr))))))"
    using assms by (intro keeps_bind) (auto simp: keeps_session_def)
  then show ?thesis
    by (cases m; cases "fst m") (auto simp: keeps_session_def then_r_def keeps_result)
qed

lemma keeps_pam_call: "keeps tr (pam_call os op tr)"
  unfolding pam_call_def by (intro keeps_case keeps_run_pam keeps_event law_pam)

lemma session_say: "keeps_session w (session_say os msg w)"
  using keeps_tty(2)[of "snd w" os msg]
  by (auto simp: keeps_session_def session_say_def keeps_result split: prod.splits)

lemma pam_result: "pam_call os op tr = (rc, tr') \<Longrightarrow> \<exists>ext. tr' = tr @ ext \<and> law tr ext"
  using keeps_pam_call[of tr op] by (simp add: keeps_def)

lemma session_calls:
  "keeps_session w (session_call os op what w)" "keeps_session w (session_open_session os w)"
  "keeps_session w (session_close_session os w)" "keeps_session w (session_establish_cred os w)"
  "keeps_session w (session_delete_cred os w)"
  by (auto simp: keeps_session_def session_call_def session_open_session_def session_close_session_def
      session_establish_cred_def session_delete_cred_def keeps_def dest!: pam_result split: prod.splits)

lemma session_pure: "keeps_session w (r, s, snd w)"
  by (simp add: keeps_session_def keeps_pure)

lemma session_more: "law (snd w) [e] \<Longrightarrow> keeps_session (s, snd w @ [e]) m \<Longrightarrow> keeps_session w m"
  by (auto simp: keeps_session_def intro: keeps_prefix)

lemma session_result: "keeps_session w m \<Longrightarrow> keeps_session w (r, snd m)"
  by (simp add: keeps_session_def keeps_def)

lemma session_next: "keeps_session w m \<Longrightarrow> keeps_session (snd m) m' \<Longrightarrow> keeps_session w m'"
  unfolding keeps_session_def keeps_def by (fastforce intro: law_append)

lemma session_reject: "keeps_session w (reject os msg w)"
  unfolding reject_def pause_login_def
  by (intro session_then session_say) (auto simp: keeps_session_def keeps_event law_plain)

lemma session_checked:
  assumes "keeps_session w (r, w')" "\<And>w. keeps_session w (next w)"
  shows "keeps_session w (checked os (r, w') msg next)"
  by (cases r) (simp_all add: checked_def session_next[OF assms(1)] session_reject assms(2))

lemma session_checked':
  assumes "keeps_session w m" "\<And>w. keeps_session w (next w)"
  shows "keeps_session w (checked os m msg next)"
  using assms by (cases m) (simp add: session_checked)

lemma session_run: "keeps_session w (run_session os cfg tty username w)"
proof -
  obtain s tr where w: "w = (s, tr)" by (cases w)
  define usr where "usr = or_else (authenticated_user os tr) username"
  let ?msg = "''writeonce-login: opening session for '' @ usr"
  let ?tr = "tr @ [Wrote (?msg @ [LF])]"
  let ?fork = "Forked (lo_fork os ?tr) usr (login_child_exec os usr (lc_session_script cfg) tty ?tr)"
  have fork: "law ?tr [?fork]" by (rule law_fork[OF usr_def refl])
  have rest: "keeps_session (s, ?tr)
      (let pid = lo_fork os ?tr; tr = ?tr @ [Forked pid usr (login_child_exec os usr (lc_session_script cfg) tty ?tr)] in
        (case pid of
           Inl e \<Rightarrow> session_say os (''fork failed: '' @ e) (s, tr)
         | Inr p \<Rightarrow>
             then_r (session_say os (msg tr) (s, tr @ [Waited p])) (\<lambda>_ w.
               (Inr (), snd (session_delete_cred os (snd (session_close_session os w)))))))" for msg
  proof -
    have fin: "keeps_session w (Inr (), snd (session_delete_cred os (snd (session_close_session os w))))" for w
      by (rule session_result[OF session_next[OF session_calls(3) session_calls(5)]])
    have "keeps_session (s, tr @ [Waited p])
        (then_r (session_say os m (s, tr @ [Waited p])) (\<lambda>_ w.
           (Inr (), snd (session_delete_cred os (snd (session_close_session os w))))))" for tr p m
      by (intro session_then session_say fin)
    then have wait: "keeps_session (s, tr)
        (then_r (session_say os m (s, tr @ [Waited p])) (\<lambda>_ w.
           (Inr (), snd (session_delete_cred os (snd (session_close_session os w))))))" for tr p m
      by (rule session_more[of "(s, tr)" "Waited p" s, unfolded snd_conv, OF law_pam(4)])
    show ?thesis unfolding Let_def
    proof (rule session_more[of "(s, ?tr)" ?fork s, unfolded snd_conv, OF fork])
      show "keeps_session (s, ?tr @ [?fork]) (case lo_fork os ?tr of
          Inl e \<Rightarrow> session_say os (''fork failed: '' @ e) (s, ?tr @ [?fork])
        | Inr p \<Rightarrow> then_r (session_say os (msg (?tr @ [?fork])) (s, (?tr @ [?fork]) @ [Waited p])) (\<lambda>_ w.
            (Inr (), snd (session_delete_cred os (snd (session_close_session os w))))))"
        by (cases "lo_fork os ?tr") (simp_all only: sum.case session_say wait)
    qed
  qed
  obtain r where said: "session_say os ?msg w = (r, s, ?tr)"
    by (simp add: w session_say_def tty_say_def tty_write_def)
  from session_say[of w ?msg] have 1: "keeps_session w (r, s, ?tr)" by (simp only: said)
  show ?thesis
  proof (cases r)
    case (Inl e)
    with 1 said show ?thesis by (simp add: run_session_def w usr_def[symmetric] then_r_def)
  next
    case (Inr x)
    from session_next[OF 1, unfolded snd_conv, OF rest] show ?thesis
      using said by (simp add: run_session_def w usr_def[symmetric] then_r_def Inr)
  qed
qed

lemma session_transaction: "keeps_session w (login_transaction os cfg tty username w)"
  unfolding login_transaction_def session_authenticate_def session_acct_mgmt_def
  by (intro session_checked' session_calls session_run)

lemma keeps_drop: "keeps (snd w) (r, drop_session os w)"
proof -
  obtain s tr where w: "w = (s, tr)" by (cases w)
  have step: "keeps tr (r', if p then snd (pam_call os op tr) else tr)" for tr r' p op
    using keeps_pam_call[of tr op] by (auto simp: keeps_def law_Nil)
  have "keeps tr (case (case (r, if session_open s then snd (pam_call os Close_Session tr) else tr) of
      (r, tr) \<Rightarrow> (r, if creds_established s then snd (pam_call os Delete_Cred tr) else tr)) of (r, tr) \<Rightarrow> (r, tr @ [Ended]))"
    by (intro keeps_case step keeps_event law_pam)
  then show ?thesis by (simp add: drop_session_def w Let_def)
qed

lemma keeps_start: "keeps tr (session_start os sv u tr)"
  by (simp add: session_start_def Let_def keeps_pure keeps_event law_pam)

lemma keeps_attempt:
  "keeps tr (case session_start os sv u tr of
      (Inl e, tr) \<Rightarrow> then_r (tty_say os (msg e) tr) (\<lambda>_ tr. (Inr (), pause_login tr))
    | (Inr s, tr) \<Rightarrow> (case login_transaction os cfg tty u (s, tr) of (r, w) \<Rightarrow> (r, drop_session os w)))"
proof (rule keeps_case[OF keeps_start])
  fix r tr
  have "keeps tr (case login_transaction os cfg tty u (s, tr) of (r, w) \<Rightarrow> (r, drop_session os w))" for s
  proof -
    obtain r s' tr' where t: "login_transaction os cfg tty u (s, tr) = (r, s', tr')" by (metis prod.collapse)
    with session_transaction[of "(s, tr)" u] have "keeps tr (r, tr')" by (simp add: keeps_session_def)
    have "keeps tr (r, drop_session os (s', tr))" for r tr using keeps_drop[of "(s', tr)"] by simp
    from keeps_case[OF \<open>keeps tr (r, tr')\<close>, of "\<lambda>r tr'. (r, drop_session os (s', tr'))", OF this] show ?thesis
      by (simp add: t)
  qed
  then show "keeps tr (case r of Inl e \<Rightarrow> then_r (tty_say os (msg e) tr) (\<lambda>_ tr. (Inr (), pause_login tr))
      | Inr s \<Rightarrow> (case login_transaction os cfg tty u (s, tr) of (r, w) \<Rightarrow> (r, drop_session os w)))"
    by (cases r) (auto intro!: keeps_bind keeps_tty simp: pause_login_def keeps_event law_plain)
qed

lemma keeps_round: "keeps tr (login_round os cfg tty tr)"
  unfolding login_round_def render_banner_def Let_def
  by (intro keeps_bind keeps_if keeps_tty keeps_read_line keeps_attempt)

lemma keeps_loop: "keeps tr (login_loop n os cfg tty tr)"
  by (induction n arbitrary: tr) (simp_all add: keeps_pure keeps_bind keeps_round)

lemma keeps_run:
  assumes "load_or_default os (la_config a) [] = cfg" "la_tty a = tty"
  shows "keeps [] (login_run os n a [])"
  unfolding login_run_def Let_def assms by (intro keeps_bind keeps_tty keeps_loop)

end

definition fork_ok :: "login_os \<Rightarrow> login_config \<Rightarrow> string \<Rightarrow> login_trace \<Rightarrow> login_event \<Rightarrow> bool" where
  "fork_ok os cfg tty tr e \<longleftrightarrow>
     (case e of
        Forked pid usr child \<Rightarrow>
          child = login_child_exec os usr (lc_session_script cfg) tty tr
          \<and> (\<forall>v. authenticated_user os (butlast tr) = Some v \<longrightarrow> usr = v)
      | _ \<Rightarrow> True)"

interpretation forks: login_law "pointwise (fork_ok os cfg tty)" os cfg tty
proof (rule login_law.intro)
  show "terminal_law (pointwise (fork_ok os cfg tty))"
    by (intro terminal_law.intro pointwise_law terminal_law_axioms.intro)
       (auto simp: fork_ok_def pointwise_def less_Suc_eq nth_Cons split: nat.split)
qed (unfold_locales; auto simp: fork_ok_def or_else_def split: option.splits)

lemma every_fork:
  assumes "login_run os n a [] = (r, xs @ Forked pid usr child # ys)"
  shows "fork_ok os (load_or_default os (la_config a) []) (la_tty a) xs (Forked pid usr child)"
  using forks.keeps_run[OF refl refl, of os a n] assms
  by (auto simp: forks.keeps_def dest: pointwise_at)

section \<open>The helper's arguments\<close>

text \<open>The arguments the login starts the helper with are read back as they were, whatever characters they contain.\<close>

lemma helper_args_of_login:
  "parse_helper_args (session_create_argv usr pw script tty) =
     Inr \<lparr>ha_user = usr, ha_uid = pw_uid pw, ha_gid = pw_gid pw, ha_home = pw_dir pw, ha_shell = pw_shell pw,
       ha_tty = tty, ha_vtnr = vtnr_of_tty tty, ha_session_script = script\<rparr>"
  by (simp add: parse_helper_args_def session_create_argv_def set_option_def no_options_def require_options_def
      show_u32_def parse_u32_show)

section \<open>What the helper does\<close>

text \<open>Everything between the reply of the daemon and the user's session, in order.\<close>

definition handover_calls :: "helper_args \<Rightarrow> session_reply \<Rightarrow> u32 \<Rightarrow> helper_call list" where
  "handover_calls a s flags =
     [Get_Fd_Flags (sr_fifo_fd s), Set_Fd_Flags (sr_fifo_fd s) (flags AND NOT FD_CLOEXEC),
      Mkdir (sr_runtime_path s) 448, Chown_To (sr_runtime_path s) (ha_uid a) (ha_gid a),
      Chmod_To (sr_runtime_path s) 448, Init_Groups (ha_user a) (ha_gid a),
      Set_Gids (ha_gid a) (ha_gid a) (ha_gid a), Set_Uids (ha_uid a) (ha_uid a) (ha_uid a), Chdir_To (ha_home a),
      Exec_Script (ha_session_script a) [ha_session_script a] (env_pairs a (sr_id s) (sr_runtime_path s))]"

text \<open>A call succeeded, or was the creation of a directory that is there.\<close>

definition call_done :: "helper_os \<Rightarrow> helper_call list \<Rightarrow> helper_call \<Rightarrow> bool" where
  "call_done os tr c \<longleftrightarrow>
     (case c of Get_Fd_Flags fd \<Rightarrow> (\<exists>flags. so_flags os tr = Inr flags)
      | Mkdir path m \<Rightarrow> so_call os tr c = Inr () \<or> so_call os tr c = Inl Already_Exists
      | _ \<Rightarrow> so_call os tr c = Inr ())"

text \<open>Every call but the last succeeded.\<close>

fun led_by_success :: "helper_os \<Rightarrow> helper_call list \<Rightarrow> helper_call list \<Rightarrow> bool" where
  "led_by_success os pre (c # d # cs) \<longleftrightarrow> call_done os pre c \<and> led_by_success os (pre @ [c]) (d # cs)"
| "led_by_success os pre cs \<longleftrightarrow> True"

lemma traverse_c_string: "traverse (\<lambda>s. ok_or (Nul_Byte s) (c_string s)) xs = Inr ys \<Longrightarrow> ys = xs"
  by (induction xs arbitrary: ys) (auto simp: bind_r_Inr c_string_def split: if_splits)

lemma make_dir_result:
  "make_dir os path tr =
     (case so_call os tr (Mkdir path 448) of
        Inr _ \<Rightarrow> Inr ()
      | Inl e \<Rightarrow> if e = Already_Exists then Inr () else Inl (Call_Error (Mkdir path 448) e), tr @ [Mkdir path 448])"
  by (cases "so_call os tr (Mkdir path 448)") (auto simp: make_dir_def perform_def split: io_error.split)

lemma hand_over_plan:
  assumes "hand_over os a s [] = (r, tr)"
  shows "\<exists>flags. tr = take (length tr) (handover_calls a s flags) \<and> led_by_success os [] tr
    \<and> (so_flags os [] = Inr flags \<or> length tr = 1)
    \<and> (r = Inr () \<longrightarrow> length tr = 10 \<and> call_done os (butlast tr) (last tr))"
  using assms unfolding hand_over_def clear_cloexec_def setup_runtime_dir_def drop_privileges_def
     make_dir_result perform_def c_arg_def build_env_def then_r_def handover_calls_def
  by (cases "so_flags os []")
     (auto simp: c_string_def call_done_def dest: traverse_c_string[unfolded c_string_def] split: sum.splits if_splits)

lemma led_by_success_nth:
  "led_by_success os pre cs \<Longrightarrow> Suc i < length cs \<Longrightarrow> call_done os (pre @ take i cs) (cs ! i)"
proof (induction os pre cs arbitrary: i rule: led_by_success.induct)
  case (1 os pre c d cs)
  then show ?case by (cases i) auto
qed auto

text \<open>The exec is the last of ten calls, and all the others were done.\<close>

lemma exec_last:
  assumes "hand_over os a s [] = (r, tr)" "Exec_Script prog av env \<in> set tr"
  shows "\<exists>flags. so_flags os [] = Inr flags \<and> tr = handover_calls a s flags
    \<and> (\<forall>i < 9. call_done os (take i tr) (tr ! i))"
proof -
  from hand_over_plan[OF assms(1)] obtain flags where p: "tr = take (length tr) (handover_calls a s flags)"
    "led_by_success os [] tr" "so_flags os [] = Inr flags \<or> length tr = 1" by blast
  have "length tr = 10"
  proof (rule ccontr)
    assume n: "length tr \<noteq> 10"
    have "length tr \<le> 10" using arg_cong[OF p(1), of length] by (simp add: handover_calls_def)
    with n have "set tr \<subseteq> set (take 9 (handover_calls a s flags))"
      by (subst p(1)) (rule set_take_subset_set_take, simp)
    with assms(2) show False by (auto simp: handover_calls_def)
  qed
  moreover have "tr = handover_calls a s flags" using p(1) calculation by (simp add: handover_calls_def)
  ultimately show ?thesis using p(3) led_by_success_nth[OF p(2)] by auto
qed

text \<open>
  C13: the helper becomes the user's session only after the login daemon registered one, and then
  its calls are exactly these, each of them done before the next: the descriptor that keeps the
  session alive is made to survive, the runtime directory belongs to the user with mode 0700, the
  supplementary groups, the group and the user are those of the arguments, in this order, and the
  home directory is entered; only then the script is executed, with itself as its only argument.
\<close>

theorem session_after_privileges:
  assumes "helper_main os pid argv l = (e, tr, l')" "Exec_Script prog av env \<in> set tr"
  shows "\<exists>a s flags. parse_helper_args argv = Inr a \<and> helper_create_session os a pid l = (Some (Inr s), l')
    \<and> so_flags os [] = Inr flags \<and> tr = handover_calls a s flags \<and> (\<forall>i < 9. call_done os (take i tr) (tr ! i))"
proof -
  from assms obtain a where a: "parse_helper_args argv = Inr a"
    by (auto simp: helper_main_def split: sum.splits)
  obtain x l1 where c: "helper_create_session os a pid l = (x, l1)" by force
  with a assms obtain s where s: "x = Some (Inr s)" "l1 = l'" and tr: "tr = snd (hand_over os a s [])"
    by (cases x; cases "the x")
       (auto simp: helper_main_def helper_run_def split: prod.splits sum.splits)
  from exec_last[of os a s _ tr] tr assms(2) obtain flags where
    "so_flags os [] = Inr flags" "tr = handover_calls a s flags" "\<forall>i < 9. call_done os (take i tr) (tr ! i)"
    by (metis prod.collapse)
  with a c s show ?thesis by blast
qed

section \<open>From the login to the registered session\<close>

lemma create_session_registers:
  assumes "create_session env a l = (Some (Inr (i, path, runtime, w, rest)), l')"
  shows "map_of (sessions (app l')) i = Some (new_session env a i)"
    and "runtime = ''/run/user/'' @ show_nat (unat (ca_uid a))"
proof -
  have np: "\<not> poisoned l"
    using assms by (auto simp: create_session_def register_session_def locked_def ans_then_def)
  have i: "i = session_name (unat (next_session_id (app l)))"
    and r: "runtime = ''/run/user/'' @ show_nat (unat (ca_uid a))"
    using assms np
    by (auto simp: create_session_def register_session_def locked_def allocate_session_id_def Let_def
        ans_then_def object_path_def failing_def make_pipe_def emit_def session_name_def
        split: option.splits sum.splits if_splits prod.splits)
  show "map_of (sessions (app l')) i = Some (new_session env a i)"
    using table_create[OF np, of env a] assms by (simp add: table_of_def Let_def i)
  show "runtime = ''/run/user/'' @ show_nat (unat (ca_uid a))" by (rule r)
qed

text \<open>The session the daemon holds for a user that logged in on a terminal.\<close>

definition registered_for :: "passwd_entry \<Rightarrow> u32 \<Rightarrow> string \<Rightarrow> session_info \<Rightarrow> bool" where
  "registered_for pw pid tty s \<longleftrightarrow>
     si_uid s = pw_uid pw \<and> si_leader_pid s = pid \<and> si_vtnr s = vtnr_of_tty tty \<and> si_seat s = ''seat0''
     \<and> si_class s = ''user'' \<and> si_type s = ''tty'' \<and> si_state s = ''active'' \<and> \<not> si_remote s"

lemma helper_registers:
  assumes "helper_create_session os a pid l = (Some (Inr s), l')"
  shows "\<exists>i. sr_id s = i \<and> sr_runtime_path s = ''/run/user/'' @ show_nat (unat (ha_uid a))
    \<and> map_of (sessions (app l')) i = Some (new_session (so_logind os) (logind_args (session_body a pid)) i)"
  using assms create_session_registers[of "so_logind os" "logind_args (session_body a pid)" l]
  by (auto simp: helper_create_session_def logind_args_def session_body_def
      split: option.splits sum.splits prod.splits)

text \<open>
  C7: a session child that the console login forks and that becomes the user's session runs for
  the user PAM named: PAM granted all four steps of the open transaction, the login daemon holds
  an active session with the child's process as its leader and the user and terminal of the
  login, and the script of the configuration is executed with that user's name and session in its
  environment, after the groups, the group and the user were set to those of the password entry.
\<close>

theorem login_to_session:
  assumes "login_run los n la [] = (r, xs @ Forked (Inr p) usr (Some (Execve path argv henv # rest)) # ys)"
    and "helper_main os (of_int p) argv l = (Became_Session, tr, l')"
  shows "\<exists>pw i s. lo_getpwnam los xs usr = Some pw
    \<and> since_start all_granted xs \<and> (\<forall>v. authenticated_user los (butlast xs) = Some v \<longrightarrow> usr = v)
    \<and> map_of (sessions (app l')) i = Some s \<and> registered_for pw (of_int p) (la_tty la) s
    \<and> (\<exists>pre prog env. tr = pre @ [Exec_Script prog [prog] env]
        \<and> prog = lc_session_script (load_or_default los (la_config la) [])
        \<and> [Init_Groups usr (pw_gid pw), Set_Gids (pw_gid pw) (pw_gid pw) (pw_gid pw),
            Set_Uids (pw_uid pw) (pw_uid pw) (pw_uid pw), Chdir_To (pw_dir pw)] = drop 5 pre
        \<and> {''USER='' @ usr, ''XDG_SESSION_ID='' @ i} \<subseteq> set env)"
proof -
  let ?script = "lc_session_script (load_or_default los (la_config la) [])" and ?tty = "la_tty la"
  have since: "since_start all_granted xs"
    using idle_run[of los n la] fork_history unfolding assms(1) by simp
  from every_fork[OF assms(1)] have
    child: "Some (Execve path argv henv # rest) = login_child_exec los usr ?script ?tty xs"
    and named: "\<forall>v. authenticated_user los (butlast xs) = Some v \<longrightarrow> usr = v"
    by (simp_all add: fork_ok_def)
  from child obtain pw where pw: "lo_getpwnam los xs usr = Some pw" and argv: "argv = session_create_argv usr pw ?script ?tty"
    by (auto simp: login_child_exec_def Let_def split: if_splits option.splits)
  let ?a = "\<lparr>ha_user = usr, ha_uid = pw_uid pw, ha_gid = pw_gid pw, ha_home = pw_dir pw, ha_shell = pw_shell pw,
       ha_tty = ?tty, ha_vtnr = vtnr_of_tty ?tty, ha_session_script = ?script\<rparr>"
  have args: "parse_helper_args argv = Inr ?a" by (simp only: argv helper_args_of_login)
  from assms(2) obtain s where c: "helper_create_session os ?a (of_int p) l = (Some (Inr s), l')"
    and h: "hand_over os ?a s [] = (Inr (), tr)"
    by (auto simp: helper_main_def helper_run_def args split: prod.splits sum.splits option.splits)
  from helper_registers[OF c] obtain i where i: "sr_id s = i"
    "map_of (sessions (app l')) i = Some (new_session (so_logind os) (logind_args (session_body ?a (of_int p))) i)"
    by blast
  have reg: "registered_for pw (of_int p) ?tty (new_session (so_logind os) (logind_args (session_body ?a (of_int p))) i)"
    by (simp add: registered_for_def new_session_def logind_args_def session_body_def or_default_def)
  from hand_over_plan[OF h] obtain flags where "tr = handover_calls ?a s flags" by (auto simp: handover_calls_def)
  then have tr: "tr = butlast tr @ [Exec_Script ?script [?script] (env_pairs ?a i (sr_runtime_path s))]"
    and pre: "[Init_Groups usr (pw_gid pw), Set_Gids (pw_gid pw) (pw_gid pw) (pw_gid pw),
      Set_Uids (pw_uid pw) (pw_uid pw) (pw_uid pw), Chdir_To (pw_dir pw)] = drop 5 (butlast tr)"
    by (simp_all add: handover_calls_def i(1))
  have "{''USER='' @ usr, ''XDG_SESSION_ID='' @ i} \<subseteq> set (env_pairs ?a i (sr_runtime_path s))"
    by (simp add: env_pairs_def)
  with pw since named i(2) reg tr pre show ?thesis by blast
qed

section \<open>An example\<close>

definition sample_helper_os :: helper_os where
  "sample_helper_os =
     \<lparr>so_bus = None, so_reply = None, so_logind = sample_env, so_fd = (\<lambda>fd. fd), so_flags = (\<lambda>tr. Inr 1),
      so_call = (\<lambda>tr c. case c of Mkdir p m \<Rightarrow> Inl Already_Exists | _ \<Rightarrow> Inr ())\<rparr>"

definition sample_argv :: "string list" where
  "sample_argv = session_create_argv ''ann'' sample_pw ''/etc/writeonce/session-start.sh'' ''/dev/tty1''"

lemma sample_helper:
  "fst (helper_main sample_helper_os 42 sample_argv new_logind) = Became_Session"
  "list_ex (\<lambda>c. case c of Exec_Script p av e \<Rightarrow> True | _ \<Rightarrow> False)
     (fst (snd (helper_main sample_helper_os 42 sample_argv new_logind)))"
  by code_simp+

theorem session_after_privileges_witness:
  "\<exists>s flags. fst (snd (helper_main sample_helper_os 42 sample_argv new_logind))
     = handover_calls \<lparr>ha_user = ''ann'', ha_uid = 1000, ha_gid = 100, ha_home = ''/home/ann'', ha_shell = ''/bin/sh'',
         ha_tty = ''/dev/tty1'', ha_vtnr = 1, ha_session_script = ''/etc/writeonce/session-start.sh''\<rparr> s flags"
proof -
  obtain e tr l' where h: "helper_main sample_helper_os 42 sample_argv new_logind = (e, tr, l')" by (metis prod.collapse)
  with sample_helper(2) obtain c where c: "c \<in> set tr" "case c of Exec_Script p av e \<Rightarrow> True | _ \<Rightarrow> False"
    by (auto simp: list_ex_iff)
  from c(2) obtain p av env where "c = Exec_Script p av env" by (auto split: helper_call.splits)
  with c(1) have "Exec_Script p av env \<in> set tr" by simp
  from session_after_privileges[OF h this] obtain a s flags where
    "parse_helper_args sample_argv = Inr a" "tr = handover_calls a s flags" by blast
  moreover have "vtnr_of_tty ''/dev/tty1'' = 1" by code_simp
  ultimately show ?thesis by (simp only: h fst_conv snd_conv) (auto simp: sample_argv_def helper_args_of_login sample_pw_def)
qed

lemma sample_run:
  "let tr = snd (login_run sample_login_os 1 default_login_args []) in 23 < length tr \<and>
     tr ! 23 = Forked (Inr 42) ''ann'' (Some [Execve ''/usr/sbin/writeonce-session-create'' sample_argv helper_env])"
  by code_simp

theorem login_to_session_witness:
  "\<exists>tr l' i s. helper_main sample_helper_os 42 sample_argv new_logind = (Became_Session, tr, l')
    \<and> map_of (sessions (app l')) i = Some s \<and> registered_for sample_pw 42 ''/dev/tty1'' s"
proof -
  let ?tr = "snd (login_run sample_login_os 1 default_login_args [])"
  have f: "23 < length ?tr"
    "?tr ! 23 = Forked (Inr 42) ''ann'' (Some [Execve ''/usr/sbin/writeonce-session-create'' sample_argv helper_env])"
    using sample_run by (simp_all add: Let_def)
  obtain r where "login_run sample_login_os 1 default_login_args [] = (r, ?tr)" by (metis prod.collapse)
  then have r: "login_run sample_login_os 1 default_login_args [] = (r, take 23 ?tr @
      Forked (Inr 42) ''ann'' (Some [Execve ''/usr/sbin/writeonce-session-create'' sample_argv helper_env]) # drop (Suc 23) ?tr)"
    using split_at[OF f] by metis
  obtain e tr l' where h: "helper_main sample_helper_os 42 sample_argv new_logind = (e, tr, l')" by (metis prod.collapse)
  with sample_helper(1) have e: "e = Became_Session" by simp
  have "(of_int 42 :: u32) = 42" by simp
  with h e have h': "helper_main sample_helper_os (of_int 42) sample_argv new_logind = (Became_Session, tr, l')" by simp
  from login_to_session[OF r h'] obtain pw i s where
    "lo_getpwnam sample_login_os (take 23 ?tr) ''ann'' = Some pw"
    "map_of (sessions (app l')) i = Some s" "registered_for pw (of_int 42) (la_tty default_login_args) s" by blast
  with h e show ?thesis by (auto simp: sample_login_os_def default_login_args_def)
qed

end
