(* ===== verification/Installer_Form.thy ===== *)
theory Installer_Form
  imports Kernel
begin

text \<open>
  What the installer asks: the specification file and the plan (crates/writeonce-installer/src/
  spec.rs), the line prompts (prompt.rs) and the form on the terminal (tui.rs). Text is its UTF-8
  bytes, so a typed character is a short string and deleting one drops its bytes. openssl, the
  JSON reader and the terminal are arguments; printing and drawing are left out.
\<close>

section \<open>Specification and plan\<close>

record partitions_spec =
  sp_esp_mib :: "u32 option"
  sp_root_gib :: "u32 option"

record user_spec =
  su_name :: "string option"
  su_real_name :: "string option"
  su_password_hash :: "string option"
  su_shell :: "string option"
  su_groups :: "string list option"

record keyboard_spec =
  sk_layout :: "string option"
  sk_variant :: "string option"

record target_os_spec =
  ts_schema_version :: "string option"
  ts_partitions :: "partitions_spec option"
  ts_user :: "user_spec option"
  ts_keyboard :: "keyboard_spec option"
  ts_network :: "bool option option"

definition default_spec :: target_os_spec where
  "default_spec =
     \<lparr>ts_schema_version = None, ts_partitions = None, ts_user = None, ts_keyboard = None, ts_network = None\<rparr>"

record partition_plan =
  pp_esp_mib :: u32
  pp_root_gib :: "u32 option"

record resolved_user =
  ru_name :: string
  ru_real_name :: string
  ru_password_hash :: string
  ru_shell :: string
  ru_groups :: "string list"
  ru_uid :: u32
  ru_gid :: u32

record resolved_keyboard =
  rk_layout :: string
  rk_variant :: "string option"

record installation_plan =
  ip_partition :: partition_plan
  ip_user :: resolved_user
  ip_keyboard :: resolved_keyboard
  ip_enabled_at_boot :: bool

record usb_device =
  ud_path :: string
  ud_size :: u64
  ud_vendor :: string
  ud_model :: string
  ud_removable :: bool

definition DEFAULT_ESP_MIB :: u32 where "DEFAULT_ESP_MIB = 512"
definition DEFAULT_SHELL :: string where "DEFAULT_SHELL = ''/bin/bash''"
definition DEFAULT_GROUPS :: "string list" where
  "DEFAULT_GROUPS = [''wheel'', ''video'', ''audio'', ''input'', ''plugdev'']"
definition DEFAULT_KEYBOARD :: string where "DEFAULT_KEYBOARD = ''us''"

section \<open>Checks both flows share\<close>

datatype plan_error =
    Not_Removable string | Esp_Number | Root_Number | Root_Too_Big u32 u32
  | Name_Unset | Name_Chars | Password_Short | Password_Mismatch | Layout_Empty | Layout_Chars | Variant_Chars
  | Esp_Range u32 | Input_Required | Bad_Hash | Openssl_Failed | Terminal io_error | Password_Eof | No_Devices

definition name_char :: "char \<Rightarrow> bool" where
  "name_char c \<longleftrightarrow> is_lower c \<or> is_digit c \<or> c = CHR ''_''"

text \<open>What sgdisk can be asked for: 8 MiB are left for the partition tables.\<close>

definition disk_mib :: "usb_device \<Rightarrow> u32" where
  "disk_mib d = ucast (ud_size d div 1048576)"

definition max_root_gib :: "u32 \<Rightarrow> usb_device \<Rightarrow> u32" where
  "max_root_gib esp d = saturating_sub (disk_mib d) (esp + 8) div 1024"

definition validate_hash :: "string \<Rightarrow> plan_error + unit" where
  "validate_hash h = (if \<not> starts_with ''$6$'' h \<or> length h < 20 then Inl Bad_Hash else Inr ())"

text \<open>openssl gets its input and gives an error, or its success and its output.\<close>

type_synonym openssl = "string \<Rightarrow> io_error + bool \<times> string"

definition hash_password_sha512 :: "openssl \<Rightarrow> string \<Rightarrow> plan_error + string" where
  "hash_password_sha512 openssl plaintext =
     (case openssl (plaintext @ [LF]) of
        Inl e \<Rightarrow> Inl Openssl_Failed
      | Inr (success, out) \<Rightarrow>
          if \<not> success \<or> \<not> utf8_valid (map of_char out) then Inl Openssl_Failed
          else bind_r (validate_hash (trim out)) (\<lambda>_. Inr (trim out)))"

section \<open>The line prompts\<close>

text \<open>
  Standard input by line, each possibly an error, and the answers to the password prompts; a line
  past the last is empty, a password past the last an error.
\<close>

record console =
  cs_lines :: "(io_error + string) list"
  cs_passwords :: "(io_error + string) list"

definition read_line :: "console \<Rightarrow> (plan_error + string) \<times> console" where
  "read_line c =
     (case cs_lines c of
        [] \<Rightarrow> (Inr [], c)
      | r # rs \<Rightarrow> (map_err Terminal r, c\<lparr>cs_lines := rs\<rparr>))"

definition prompt_u32 :: "u32 \<Rightarrow> console \<Rightarrow> (plan_error + u32) \<times> console" where
  "prompt_u32 dflt c =
     (case read_line c of
        (Inl e, c') \<Rightarrow> (Inl e, c')
      | (Inr line, c') \<Rightarrow> (if trim line = [] then Inr dflt else ok_or Root_Number (parse_u32 (trim line)), c'))"

definition prompt_string :: "string option \<Rightarrow> console \<Rightarrow> (plan_error + string) \<times> console" where
  "prompt_string dflt c =
     (case read_line c of
        (Inl e, c') \<Rightarrow> (Inl e, c')
      | (Inr line, c') \<Rightarrow> (if trim line = [] then ok_or Input_Required dflt else Inr (trim line), c'))"

definition ask_root :: "u32 \<Rightarrow> u32 \<Rightarrow> console \<Rightarrow> (plan_error + partition_plan) \<times> console" where
  "ask_root esp most c =
     then_r (prompt_u32 most c) (\<lambda>chosen c.
       (Inr \<lparr>pp_esp_mib = esp, pp_root_gib = (if chosen = most \<or> chosen = 0 then None else Some chosen)\<rparr>, c))"

definition gather_partition ::
  "partitions_spec option \<Rightarrow> usb_device \<Rightarrow> console \<Rightarrow> (plan_error + partition_plan) \<times> console" where
  "gather_partition spec d c =
     then_r (case Option.bind spec sp_esp_mib of
                 Some v \<Rightarrow> (Inr v, c) | None \<Rightarrow> prompt_u32 DEFAULT_ESP_MIB c) (\<lambda>esp c.
       if esp < 100 \<or> 4096 < esp then (Inl (Esp_Range esp), c)
       else
         let most = max_root_gib esp d in
         case Option.bind spec sp_root_gib of
           Some v \<Rightarrow>
             if v \<noteq> 0
             then (if most < v then Inl (Root_Too_Big v most)
                   else Inr \<lparr>pp_esp_mib = esp, pp_root_gib = Some v\<rparr>, c)
             else ask_root esp most c
         | None \<Rightarrow> ask_root esp most c)"

text \<open>Asks until two entries of at least six bytes agree.\<close>

fun ask_password :: "(io_error + string) list \<Rightarrow> (plan_error + string) \<times> (io_error + string) list" where
  "ask_password [] = (Inl Password_Eof, [])"
| "ask_password (Inl e # r) = (Inl (Terminal e), r)"
| "ask_password [Inr p1] = (Inl Password_Eof, [])"
| "ask_password (Inr p1 # Inl e # r) =
     (if length p1 < 6 then ask_password (Inl e # r) else (Inl (Terminal e), r))"
| "ask_password (Inr p1 # Inr p2 # r) =
     (if length p1 < 6 then ask_password (Inr p2 # r)
      else if p1 \<noteq> p2 then ask_password r else (Inr p1, r))"

definition prompt_password_and_hash :: "openssl \<Rightarrow> console \<Rightarrow> (plan_error + string) \<times> console" where
  "prompt_password_and_hash openssl c =
     (case ask_password (cs_passwords c) of
        (r, ps) \<Rightarrow> (bind_r r (hash_password_sha512 openssl), c\<lparr>cs_passwords := ps\<rparr>))"

definition gather_user :: "openssl \<Rightarrow> user_spec option \<Rightarrow> console \<Rightarrow> (plan_error + resolved_user) \<times> console" where
  "gather_user openssl spec c =
     then_r (case Option.bind spec su_name of Some n \<Rightarrow> (Inr n, c) | None \<Rightarrow> prompt_string None c) (\<lambda>name c.
       if name = ''root'' \<or> name = [] then (Inl Name_Unset, c)
       else if \<not> list_all name_char name then (Inl Name_Chars, c)
       else
         then_r (case Option.bind spec su_real_name of
                     Some n \<Rightarrow> (Inr n, c) | None \<Rightarrow> prompt_string (Some []) c) (\<lambda>real_name c.
         then_r (prompt_password_and_hash openssl c) (\<lambda>hash c.
           (Inr \<lparr>ru_name = name, ru_real_name = real_name, ru_password_hash = hash,
              ru_shell = (case Option.bind spec su_shell of Some s \<Rightarrow> s | None \<Rightarrow> DEFAULT_SHELL),
              ru_groups = (case Option.bind spec su_groups of Some g \<Rightarrow> g | None \<Rightarrow> DEFAULT_GROUPS),
              ru_uid = 1000, ru_gid = 1000\<rparr>, c))))"

definition validate_keymap :: "string \<Rightarrow> plan_error + unit" where
  "validate_keymap s = (if list_all name_char s then Inr () else Inl Layout_Chars)"

definition prompt_keymap :: "string \<Rightarrow> console \<Rightarrow> (plan_error + string) \<times> console" where
  "prompt_keymap dflt c =
     then_r (prompt_string (Some dflt) c) (\<lambda>s c.
       (if s = [] then Inr s else bind_r (validate_keymap s) (\<lambda>_. Inr s), c))"

definition gather_keyboard ::
  "keyboard_spec option \<Rightarrow> console \<Rightarrow> (plan_error + resolved_keyboard) \<times> console" where
  "gather_keyboard spec c =
     then_r (case Option.bind spec sk_layout of
                 Some l \<Rightarrow> (Inr l, c) | None \<Rightarrow> prompt_keymap DEFAULT_KEYBOARD c) (\<lambda>layout c.
     then_r (case Option.bind spec sk_variant of
                 Some v \<Rightarrow> if v \<noteq> [] then (Inr v, c) else prompt_keymap [] c
               | None \<Rightarrow> prompt_keymap [] c) (\<lambda>v c.
       (Inr \<lparr>rk_layout = layout, rk_variant = (if v = [] then None else Some v)\<rparr>, c)))"

definition gather_plan ::
  "openssl \<Rightarrow> target_os_spec \<Rightarrow> usb_device \<Rightarrow> console \<Rightarrow> (plan_error + installation_plan) \<times> console" where
  "gather_plan openssl spec d c =
     then_r (gather_partition (ts_partitions spec) d c) (\<lambda>partition c.
     then_r (gather_user openssl (ts_user spec) c) (\<lambda>user c.
     then_r (gather_keyboard (ts_keyboard spec) c) (\<lambda>keyboard c.
       (Inr \<lparr>ip_partition = partition, ip_user = user, ip_keyboard = keyboard,
          ip_enabled_at_boot = (case Option.bind (ts_network spec) id of Some b \<Rightarrow> b | None \<Rightarrow> False)\<rparr>, c))))"

section \<open>The form\<close>

datatype screen = Device_Select | Partition_Screen | User_Screen | Keyboard_Screen | Summary
datatype outcome = Confirmed | Cancelled

text \<open>A typed character is the bytes of its encoding.\<close>

datatype key_code =
    Key_Esc | Key_Enter | Key_Tab | Key_Back_Tab | Key_Up | Key_Down | Key_Left | Key_Backspace
  | Key_F nat | Key_Char string | Key_Other

record key_event =
  ke_code :: key_code
  ke_control :: bool
  ke_press :: bool

record app =
  ap_screen :: screen
  ap_outcome :: "outcome option"
  ap_error :: "plan_error option"
  ap_devices :: "usb_device list"
  ap_selected :: "nat option"
  ap_device_idx :: nat
  ap_partition_focus :: nat
  ap_esp :: string
  ap_root :: string
  ap_user_focus :: nat
  ap_user_name :: string
  ap_user_realname :: string
  ap_password :: string
  ap_password_confirm :: string
  ap_show_passwords :: bool
  ap_keyboard_focus :: nat
  ap_layout :: string
  ap_variant :: string
  ap_spec_shell :: "string option"
  ap_spec_groups :: "string list option"

definition or_else :: "'a \<Rightarrow> 'a option \<Rightarrow> 'a" where
  "or_else d r = (case r of None \<Rightarrow> d | Some x \<Rightarrow> x)"

definition new_app :: "target_os_spec \<Rightarrow> usb_device list \<Rightarrow> app" where
  "new_app spec devices =
     (let p = ts_partitions spec; u = ts_user spec; k = ts_keyboard spec in
      \<lparr>ap_screen = Device_Select, ap_outcome = None, ap_error = None, ap_devices = devices,
       ap_selected = Some 0, ap_device_idx = 0, ap_partition_focus = 0,
       ap_esp = show_nat (unat (or_else DEFAULT_ESP_MIB (Option.bind p sp_esp_mib))),
       ap_root = or_else ''0'' (map_option (\<lambda>v. show_nat (unat v)) (Option.bind p sp_root_gib)),
       ap_user_focus = 0,
       ap_user_name = or_else [] (Option.bind u su_name),
       ap_user_realname = or_else [] (Option.bind u su_real_name),
       ap_password = [], ap_password_confirm = [], ap_show_passwords = False, ap_keyboard_focus = 0,
       ap_layout = or_else DEFAULT_KEYBOARD (Option.bind k sk_layout),
       ap_variant = or_else [] (Option.bind k sk_variant),
       ap_spec_shell = Option.bind u su_shell, ap_spec_groups = Option.bind u su_groups\<rparr>)"

text \<open>\<open>String::pop\<close>: the last character with all its bytes.\<close>

definition pop_char :: "string \<Rightarrow> string" where
  "pop_char s = rev (tl (dropWhile (\<lambda>c. cont_byte (of_char c)) (rev s)))"

definition current_device :: "app \<Rightarrow> usb_device" where
  "current_device a = ap_devices a ! ap_device_idx a"

definition select_device :: "nat \<Rightarrow> app \<Rightarrow> app" where
  "select_device i a = a\<lparr>ap_device_idx := i, ap_selected := Some i\<rparr>"

definition handle_devices :: "app \<Rightarrow> key_event \<Rightarrow> app" where
  "handle_devices a k =
     (if ke_code k = Key_Up \<or> ke_code k = Key_Char ''k''
      then (if 0 < ap_device_idx a then select_device (ap_device_idx a - 1) a else a)
      else if ke_code k = Key_Down \<or> ke_code k = Key_Char ''j''
      then (if ap_device_idx a + 1 < length (ap_devices a) then select_device (ap_device_idx a + 1) a else a)
      else if ke_code k = Key_Enter
      then (if ud_removable (current_device a) then a\<lparr>ap_screen := Partition_Screen\<rparr>
            else a\<lparr>ap_error := Some (Not_Removable (ud_path (current_device a)))\<rparr>)
      else a)"

definition edit_partition :: "(string \<Rightarrow> string) \<Rightarrow> app \<Rightarrow> app" where
  "edit_partition f a =
     (if ap_partition_focus a = 0 then a\<lparr>ap_esp := f (ap_esp a)\<rparr> else a\<lparr>ap_root := f (ap_root a)\<rparr>)"

definition is_digit_key :: "string \<Rightarrow> bool" where
  "is_digit_key c \<longleftrightarrow> length c = 1 \<and> is_digit (hd c)"

definition submit_partition :: "app \<Rightarrow> app" where
  "submit_partition a =
     (case parse_u32 (trim (ap_esp a)) of
        None \<Rightarrow> a\<lparr>ap_error := Some Esp_Number\<rparr>
      | Some esp \<Rightarrow>
          if esp < 64 \<or> 8192 < esp then a\<lparr>ap_error := Some Esp_Number\<rparr>
          else
            (case parse_u32 (trim (ap_root a)) of
               None \<Rightarrow> a\<lparr>ap_error := Some Root_Number\<rparr>
             | Some r \<Rightarrow>
                 let most = max_root_gib esp (current_device a) in
                 if r \<noteq> 0 \<and> most < r then a\<lparr>ap_error := Some (Root_Too_Big r most)\<rparr>
                 else a\<lparr>ap_screen := User_Screen\<rparr>))"

fun handle_partition :: "app \<Rightarrow> key_event \<Rightarrow> app" where
  "handle_partition a k =
     (case ke_code k of
        Key_Tab \<Rightarrow> a\<lparr>ap_partition_focus := (ap_partition_focus a + 1) mod 2\<rparr>
      | Key_Down \<Rightarrow> a\<lparr>ap_partition_focus := (ap_partition_focus a + 1) mod 2\<rparr>
      | Key_Back_Tab \<Rightarrow> a\<lparr>ap_partition_focus := (ap_partition_focus a + 1) mod 2\<rparr>
      | Key_Up \<Rightarrow> a\<lparr>ap_partition_focus := (ap_partition_focus a + 1) mod 2\<rparr>
      | Key_Char c \<Rightarrow>
          if is_digit_key c then edit_partition (\<lambda>s. if length s < 10 then s @ c else s) a else a
      | Key_Backspace \<Rightarrow> edit_partition pop_char a
      | Key_Enter \<Rightarrow> submit_partition a
      | Key_Left \<Rightarrow> a\<lparr>ap_screen := Device_Select\<rparr>
      | _ \<Rightarrow> a)"

definition submit_user :: "app \<Rightarrow> app" where
  "submit_user a =
     (if ap_user_name a = [] \<or> ap_user_name a = ''root'' then a\<lparr>ap_error := Some Name_Unset\<rparr>
      else if \<not> list_all name_char (ap_user_name a) then a\<lparr>ap_error := Some Name_Chars\<rparr>
      else if length (ap_password a) < 6 then a\<lparr>ap_error := Some Password_Short\<rparr>
      else if ap_password a \<noteq> ap_password_confirm a then a\<lparr>ap_error := Some Password_Mismatch\<rparr>
      else a\<lparr>ap_screen := Keyboard_Screen\<rparr>)"

definition edit_user :: "(string \<Rightarrow> string) \<Rightarrow> app \<Rightarrow> app" where
  "edit_user f a =
     (if ap_user_focus a = 0 then a\<lparr>ap_user_name := f (ap_user_name a)\<rparr>
      else if ap_user_focus a = 1 then a\<lparr>ap_user_realname := f (ap_user_realname a)\<rparr>
      else if ap_user_focus a = 2 then a\<lparr>ap_password := f (ap_password a)\<rparr>
      else a\<lparr>ap_password_confirm := f (ap_password_confirm a)\<rparr>)"

fun handle_user :: "app \<Rightarrow> key_event \<Rightarrow> app" where
  "handle_user a k =
     (case ke_code k of
        Key_F n \<Rightarrow> if n = 2 then a\<lparr>ap_show_passwords := \<not> ap_show_passwords a\<rparr> else a
      | Key_Tab \<Rightarrow> a\<lparr>ap_user_focus := (ap_user_focus a + 1) mod 4\<rparr>
      | Key_Down \<Rightarrow> a\<lparr>ap_user_focus := (ap_user_focus a + 1) mod 4\<rparr>
      | Key_Back_Tab \<Rightarrow> a\<lparr>ap_user_focus := (ap_user_focus a + 3) mod 4\<rparr>
      | Key_Up \<Rightarrow> a\<lparr>ap_user_focus := (ap_user_focus a + 3) mod 4\<rparr>
      | Key_Left \<Rightarrow> a\<lparr>ap_screen := Partition_Screen\<rparr>
      | Key_Enter \<Rightarrow> submit_user a
      | Key_Char c \<Rightarrow> edit_user (\<lambda>s. s @ c) a
      | Key_Backspace \<Rightarrow> edit_user pop_char a
      | _ \<Rightarrow> a)"

definition valid_keymap :: "string \<Rightarrow> bool" where
  "valid_keymap s \<longleftrightarrow> s \<noteq> [] \<and> list_all name_char s"

definition submit_keyboard :: "app \<Rightarrow> app" where
  "submit_keyboard a =
     (if ap_layout a = [] then a\<lparr>ap_error := Some Layout_Empty\<rparr>
      else if \<not> valid_keymap (ap_layout a) then a\<lparr>ap_error := Some Layout_Chars\<rparr>
      else if ap_variant a \<noteq> [] \<and> \<not> valid_keymap (ap_variant a) then a\<lparr>ap_error := Some Variant_Chars\<rparr>
      else a\<lparr>ap_screen := Summary\<rparr>)"

definition edit_keyboard :: "(string \<Rightarrow> string) \<Rightarrow> app \<Rightarrow> app" where
  "edit_keyboard f a =
     (if ap_keyboard_focus a = 0 then a\<lparr>ap_layout := f (ap_layout a)\<rparr> else a\<lparr>ap_variant := f (ap_variant a)\<rparr>)"

fun handle_keyboard :: "app \<Rightarrow> key_event \<Rightarrow> app" where
  "handle_keyboard a k =
     (case ke_code k of
        Key_Tab \<Rightarrow> a\<lparr>ap_keyboard_focus := (ap_keyboard_focus a + 1) mod 2\<rparr>
      | Key_Down \<Rightarrow> a\<lparr>ap_keyboard_focus := (ap_keyboard_focus a + 1) mod 2\<rparr>
      | Key_Back_Tab \<Rightarrow> a\<lparr>ap_keyboard_focus := (ap_keyboard_focus a + 1) mod 2\<rparr>
      | Key_Up \<Rightarrow> a\<lparr>ap_keyboard_focus := (ap_keyboard_focus a + 1) mod 2\<rparr>
      | Key_Left \<Rightarrow> a\<lparr>ap_screen := User_Screen\<rparr>
      | Key_Enter \<Rightarrow> submit_keyboard a
      | Key_Char c \<Rightarrow> edit_keyboard (\<lambda>s. s @ c) a
      | Key_Backspace \<Rightarrow> edit_keyboard pop_char a
      | _ \<Rightarrow> a)"

fun handle_summary :: "app \<Rightarrow> key_event \<Rightarrow> app" where
  "handle_summary a k =
     (case ke_code k of
        Key_Enter \<Rightarrow> a\<lparr>ap_outcome := Some Confirmed\<rparr>
      | Key_Left \<Rightarrow> a\<lparr>ap_screen := Keyboard_Screen\<rparr>
      | Key_Backspace \<Rightarrow> a\<lparr>ap_screen := Keyboard_Screen\<rparr>
      | _ \<Rightarrow> a)"

definition handle_key :: "app \<Rightarrow> key_event \<Rightarrow> app" where
  "handle_key a k =
     (if ke_code k = Key_Esc \<or> (ke_code k = Key_Char ''c'' \<and> ke_control k)
      then a\<lparr>ap_outcome := Some Cancelled\<rparr>
      else let a = a\<lparr>ap_error := None\<rparr> in
        (case ap_screen a of
           Device_Select \<Rightarrow> handle_devices a k
         | Partition_Screen \<Rightarrow> handle_partition a k
         | User_Screen \<Rightarrow> handle_user a k
         | Keyboard_Screen \<Rightarrow> handle_keyboard a k
         | Summary \<Rightarrow> handle_summary a k))"

text \<open>
  The loop over the terminal's events, \<open>None\<close> an event that is no key; a failed drawing or
  reading ends it. It is still open when the events are used up.
\<close>

datatype loop_end = Form_Open | Form_Failed io_error | Form_Done

fun tui_loop :: "app \<Rightarrow> (io_error + key_event option) list \<Rightarrow> loop_end \<times> app" where
  "tui_loop a [] = (Form_Open, a)"
| "tui_loop a (Inl e # r) = (Form_Failed e, a)"
| "tui_loop a (Inr None # r) = tui_loop a r"
| "tui_loop a (Inr (Some k) # r) =
     (if \<not> ke_press k then tui_loop a r
      else let a' = handle_key a k in
        if ap_outcome a' \<noteq> None then (Form_Done, a') else tui_loop a' r)"

definition build_plan :: "openssl \<Rightarrow> app \<Rightarrow> plan_error + installation_plan" where
  "build_plan openssl a =
     bind_r (ok_or Esp_Number (parse_u32 (trim (ap_esp a)))) (\<lambda>esp.
     bind_r (ok_or Root_Number (parse_u32 (trim (ap_root a)))) (\<lambda>r.
     bind_r (hash_password_sha512 openssl (ap_password a)) (\<lambda>hash.
     bind_r (validate_hash hash) (\<lambda>_.
       Inr \<lparr>ip_partition = \<lparr>pp_esp_mib = esp, pp_root_gib = (if r = 0 then None else Some r)\<rparr>,
            ip_user = \<lparr>ru_name = ap_user_name a, ru_real_name = ap_user_realname a, ru_password_hash = hash,
              ru_shell = or_else DEFAULT_SHELL (ap_spec_shell a),
              ru_groups = or_else DEFAULT_GROUPS (ap_spec_groups a), ru_uid = 1000, ru_gid = 1000\<rparr>,
            ip_keyboard = \<lparr>rk_layout = ap_layout a,
              rk_variant = (if ap_variant a = [] then None else Some (ap_variant a))\<rparr>,
            ip_enabled_at_boot = False\<rparr>))))"

text \<open>\<open>None\<close>: the form is still open.\<close>

definition run_tui ::
  "openssl \<Rightarrow> (plan_error + unit) \<Rightarrow> (plan_error + unit) \<Rightarrow> target_os_spec \<Rightarrow> usb_device list
     \<Rightarrow> (io_error + key_event option) list \<Rightarrow> (plan_error + (usb_device \<times> installation_plan) option) option" where
  "run_tui openssl setup teardown spec devices events =
     (if devices = [] then Some (Inl No_Devices)
      else case setup of
        Inl e \<Rightarrow> Some (Inl e)
      | Inr _ \<Rightarrow>
          (case tui_loop (new_app spec devices) events of
             (Form_Open, a) \<Rightarrow> None
           | (Form_Failed e, a) \<Rightarrow> Some (bind_r teardown (\<lambda>_. Inl (Terminal e)))
           | (Form_Done, a) \<Rightarrow>
               Some (bind_r teardown (\<lambda>_.
                 if ap_outcome a = Some Confirmed
                 then bind_r (build_plan openssl a) (\<lambda>plan. Inr (Some (current_device a, plan)))
                 else Inr None))))"

end
