(* ===== verification/Installer_Safety.thy ===== *)
theory Installer_Safety
  imports Installer_Form
begin

text \<open>
  The form keeps its shape under any keys, and a plan that leaves it, or the line prompts, has
  passed the checks of its screens.
\<close>

section \<open>Text fields\<close>

lemma pop_char_prefix: "\<exists>r. s = pop_char s @ r"
proof -
  let ?r = "rev s" let ?d = "dropWhile (\<lambda>c. cont_byte (of_char c)) ?r"
  obtain u where "?r = u @ ?d" by (metis takeWhile_dropWhile_id)
  moreover have "\<exists>v. d = v @ tl d" for d :: string by (cases d) auto
  ultimately obtain v where "?r = v @ tl ?d" by (metis append.assoc)
  then have "s = rev (tl ?d) @ rev v" by (metis rev_append rev_rev_ident)
  then show ?thesis unfolding pop_char_def by (rule exI)
qed

lemma pop_char_length: "length (pop_char s) \<le> length s"
  using pop_char_prefix[of s] by (metis length_append le_add1)

lemma pop_char_set: "list_all P s \<Longrightarrow> list_all P (pop_char s)"
  using pop_char_prefix[of s] by (metis list_all_append)

text \<open>What the number fields hold: at most ten digits, as many as a 32-bit number needs.\<close>

definition number_text :: "string \<Rightarrow> bool" where
  "number_text s \<longleftrightarrow> list_all is_digit s \<and> length s \<le> 10"

lemma show_nat_length: "n < 10 ^ Suc k \<Longrightarrow> length (show_nat n) \<le> Suc k"
proof (induction k arbitrary: n)
  case 0
  then show ?case by (subst show_nat.simps) simp
next
  case (Suc k)
  then have "n div 10 < 10 ^ Suc k" by (simp add: less_mult_imp_div_less mult.commute)
  with Suc.IH[of "n div 10"] show ?case by (subst show_nat.simps) simp
qed

lemma number_text_show: "number_text (show_nat (unat (w :: u32)))"
proof -
  have "unat w < 10 ^ Suc 9" using unsigned_less[of w, where ?'a = nat] by simp
  from show_nat_length[OF this] show ?thesis
    by (auto simp: number_text_def list_all_iff dest: show_nat_chars)
qed

lemma number_text_edit:
  "number_text s \<Longrightarrow> number_text (pop_char s)"
  "number_text s \<Longrightarrow> is_digit_key c \<Longrightarrow> number_text (if length s < 10 then s @ c else s)"
  using pop_char_length[of s] pop_char_set[of is_digit s]
  by (auto simp: number_text_def is_digit_key_def length_Suc_conv)

section \<open>The shape of the form\<close>

definition app_typed :: "app \<Rightarrow> bool" where
  "app_typed a \<longleftrightarrow> ap_device_idx a < length (ap_devices a) \<and> ap_selected a = Some (ap_device_idx a)
     \<and> ap_partition_focus a < 2 \<and> ap_user_focus a < 4 \<and> ap_keyboard_focus a < 2
     \<and> number_text (ap_esp a) \<and> number_text (ap_root a)"

lemma app_typed_new: "devices \<noteq> [] \<Longrightarrow> app_typed (new_app spec devices)"
  by (auto simp: app_typed_def new_app_def Let_def or_else_def number_text_show split: option.splits)
     (simp add: number_text_def is_digit_def)

text \<open>What the keys of a screen do, in the terms the invariants need.\<close>

lemma handle_devices_cases:
  "handle_devices a k = a
   \<or> (\<exists>i. (i < length (ap_devices a) \<or> \<not> ap_device_idx a < length (ap_devices a)) \<and> handle_devices a k = select_device i a)
   \<or> (\<exists>e. handle_devices a k = a\<lparr>ap_error := Some e\<rparr>)
   \<or> (ud_removable (current_device a) \<and> handle_devices a k = a\<lparr>ap_screen := Partition_Screen\<rparr>)"
proof -
  have "ap_device_idx a - 1 < length (ap_devices a) \<or> \<not> ap_device_idx a < length (ap_devices a)" by linarith
  then show ?thesis unfolding handle_devices_def by (auto split: if_splits)
qed

lemma handle_devices_typed: "app_typed a \<Longrightarrow> app_typed (handle_devices a k)"
  using handle_devices_cases[of a k] by (elim disjE exE conjE) (simp_all add: app_typed_def select_device_def)

lemma edit_partition_typed:
  "(\<And>s. number_text s \<Longrightarrow> number_text (f s)) \<Longrightarrow> app_typed a \<Longrightarrow> app_typed (edit_partition f a)"
  by (simp add: app_typed_def edit_partition_def)

lemma submits_typed:
  assumes "app_typed a"
  shows "app_typed (submit_partition a)" "app_typed (submit_user a)" "app_typed (submit_keyboard a)"
  using assms
  by (auto simp: app_typed_def submit_partition_def submit_user_def submit_keyboard_def Let_def
      split: option.splits)

lemma handle_partition_typed: "app_typed a \<Longrightarrow> app_typed (handle_partition a k)"
  using edit_partition_typed[of pop_char a] submits_typed(1)[of a] number_text_edit
    edit_partition_typed[of "\<lambda>s. if length s < 10 then s @ c else s" a for c]
  by (auto simp: app_typed_def split: key_code.split)

lemma edit_text_typed:
  "app_typed a \<Longrightarrow> app_typed (edit_user f a)" "app_typed a \<Longrightarrow> app_typed (edit_keyboard f a)"
  by (simp_all add: app_typed_def edit_user_def edit_keyboard_def)

lemma handle_text_typed:
  "app_typed a \<Longrightarrow> app_typed (handle_user a k)"
  "app_typed a \<Longrightarrow> app_typed (handle_keyboard a k)"
  "app_typed a \<Longrightarrow> app_typed (handle_summary a k)"
  using submits_typed(2,3)[of a] edit_text_typed[of a]
  by (auto simp: app_typed_def split: key_code.split)

lemma handle_key_typed: "app_typed a \<Longrightarrow> app_typed (handle_key a k)"
proof -
  assume a: "app_typed a"
  have "app_typed (a\<lparr>ap_error := None\<rparr>)" "app_typed (a\<lparr>ap_outcome := Some Cancelled\<rparr>)"
    using a by (simp_all add: app_typed_def)
  then show ?thesis
    unfolding handle_key_def Let_def
    by (simp add: handle_devices_typed handle_partition_typed handle_text_typed
        del: handle_partition.simps handle_user.simps handle_keyboard.simps handle_summary.simps
        split: screen.split)
qed

section \<open>What each screen has checked\<close>

definition removable_chosen :: "app \<Rightarrow> bool" where
  "removable_chosen a \<longleftrightarrow> ud_removable (current_device a)"

definition partition_fits :: "app \<Rightarrow> bool" where
  "partition_fits a \<longleftrightarrow>
     (\<exists>esp r. parse_u32 (trim (ap_esp a)) = Some esp \<and> 64 \<le> esp \<and> esp \<le> 8192
       \<and> parse_u32 (trim (ap_root a)) = Some r \<and> r \<le> max_root_gib esp (current_device a))"

definition user_valid :: "app \<Rightarrow> bool" where
  "user_valid a \<longleftrightarrow> ap_user_name a \<noteq> [] \<and> ap_user_name a \<noteq> ''root'' \<and> list_all name_char (ap_user_name a)
     \<and> 6 \<le> length (ap_password a) \<and> ap_password a = ap_password_confirm a"

definition keyboard_valid :: "app \<Rightarrow> bool" where
  "keyboard_valid a \<longleftrightarrow> valid_keymap (ap_layout a) \<and> (ap_variant a \<noteq> [] \<longrightarrow> valid_keymap (ap_variant a))"

fun stage :: "screen \<Rightarrow> nat" where
  "stage Device_Select = 0"
| "stage Partition_Screen = 1"
| "stage User_Screen = 2"
| "stage Keyboard_Screen = 3"
| "stage Summary = 4"

definition form_ok :: "app \<Rightarrow> bool" where
  "form_ok a \<longleftrightarrow> app_typed a
     \<and> (1 \<le> stage (ap_screen a) \<longrightarrow> removable_chosen a)
     \<and> (2 \<le> stage (ap_screen a) \<longrightarrow> partition_fits a)
     \<and> (3 \<le> stage (ap_screen a) \<longrightarrow> user_valid a)
     \<and> (4 \<le> stage (ap_screen a) \<longrightarrow> keyboard_valid a)"

lemmas checks = removable_chosen_def partition_fits_def user_valid_def keyboard_valid_def current_device_def

lemma submits:
  "ap_screen (submit_partition a) = ap_screen a \<or> submit_partition a = a\<lparr>ap_screen := User_Screen\<rparr> \<and> partition_fits a"
  "ap_screen (submit_user a) = ap_screen a \<or> submit_user a = a\<lparr>ap_screen := Keyboard_Screen\<rparr> \<and> user_valid a"
  "ap_screen (submit_keyboard a) = ap_screen a \<or> submit_keyboard a = a\<lparr>ap_screen := Summary\<rparr> \<and> keyboard_valid a"
  by (auto simp: submit_partition_def submit_user_def submit_keyboard_def checks Let_def not_less not_le valid_keymap_def
      split: option.splits)

lemma submits_frame:
  "\<exists>s e. submit_partition a = a\<lparr>ap_screen := s, ap_error := e\<rparr>"
  "\<exists>s e. submit_user a = a\<lparr>ap_screen := s, ap_error := e\<rparr>"
  "\<exists>s e. submit_keyboard a = a\<lparr>ap_screen := s, ap_error := e\<rparr>"
proof -
  have same: "\<exists>s e. a = a\<lparr>ap_screen := s, ap_error := e\<rparr>"
    "\<exists>s e. a\<lparr>ap_screen := t\<rparr> = a\<lparr>ap_screen := s, ap_error := e\<rparr>"
    "\<exists>s e. a\<lparr>ap_error := r\<rparr> = a\<lparr>ap_screen := s, ap_error := e\<rparr>" for t r
    by (rule exI[of _ "ap_screen a"], rule exI[of _ "ap_error a"], simp)
       (rule exI[of _ t], rule exI[of _ "ap_error a"], simp,
        rule exI[of _ "ap_screen a"], rule exI[of _ r], simp)
  show "\<exists>s e. submit_partition a = a\<lparr>ap_screen := s, ap_error := e\<rparr>"
    "\<exists>s e. submit_user a = a\<lparr>ap_screen := s, ap_error := e\<rparr>"
    "\<exists>s e. submit_keyboard a = a\<lparr>ap_screen := s, ap_error := e\<rparr>"
    by (auto simp: submit_partition_def submit_user_def submit_keyboard_def Let_def
        split: option.split intro: same)
qed


lemma checks_frame [simp]:
  "removable_chosen (a\<lparr>ap_screen := s\<rparr>) = removable_chosen a" "removable_chosen (a\<lparr>ap_error := e\<rparr>) = removable_chosen a"
  "partition_fits (a\<lparr>ap_screen := s\<rparr>) = partition_fits a" "partition_fits (a\<lparr>ap_error := e\<rparr>) = partition_fits a"
  "user_valid (a\<lparr>ap_screen := s\<rparr>) = user_valid a" "user_valid (a\<lparr>ap_error := e\<rparr>) = user_valid a"
  "keyboard_valid (a\<lparr>ap_screen := s\<rparr>) = keyboard_valid a" "keyboard_valid (a\<lparr>ap_error := e\<rparr>) = keyboard_valid a"
  "removable_chosen (a\<lparr>ap_outcome := o'\<rparr>) = removable_chosen a" "partition_fits (a\<lparr>ap_outcome := o'\<rparr>) = partition_fits a"
  "user_valid (a\<lparr>ap_outcome := o'\<rparr>) = user_valid a" "keyboard_valid (a\<lparr>ap_outcome := o'\<rparr>) = keyboard_valid a"
  by (simp_all add: checks)

lemma submits_ok:
  "form_ok a \<Longrightarrow> ap_screen a = Partition_Screen \<Longrightarrow> form_ok (submit_partition a)"
  "form_ok a \<Longrightarrow> ap_screen a = User_Screen \<Longrightarrow> form_ok (submit_user a)"
  "form_ok a \<Longrightarrow> ap_screen a = Keyboard_Screen \<Longrightarrow> form_ok (submit_keyboard a)"
proof -
  obtain s e s' e' s'' e'' where f: "submit_partition a = a\<lparr>ap_screen := s, ap_error := e\<rparr>"
    "submit_user a = a\<lparr>ap_screen := s', ap_error := e'\<rparr>" "submit_keyboard a = a\<lparr>ap_screen := s'', ap_error := e''\<rparr>"
    using submits_frame[of a] by blast
  show "form_ok a \<Longrightarrow> ap_screen a = Partition_Screen \<Longrightarrow> form_ok (submit_partition a)"
    using submits(1)[of a] submits_typed(1)[of a] by (elim disjE conjE) (simp_all add: form_ok_def f(1))
  show "form_ok a \<Longrightarrow> ap_screen a = User_Screen \<Longrightarrow> form_ok (submit_user a)"
    using submits(2)[of a] submits_typed(2)[of a] by (elim disjE conjE) (simp_all add: form_ok_def f(2))
  show "form_ok a \<Longrightarrow> ap_screen a = Keyboard_Screen \<Longrightarrow> form_ok (submit_keyboard a)"
    using submits(3)[of a] submits_typed(3)[of a] by (elim disjE conjE) (simp_all add: form_ok_def f(3))
qed

lemma edits_frame [simp]:
  "ap_screen (edit_partition f a) = ap_screen a" "removable_chosen (edit_partition f a) = removable_chosen a"
  "ap_screen (edit_user f a) = ap_screen a" "removable_chosen (edit_user f a) = removable_chosen a"
  "partition_fits (edit_user f a) = partition_fits a"
  "ap_screen (edit_keyboard f a) = ap_screen a" "removable_chosen (edit_keyboard f a) = removable_chosen a"
  "partition_fits (edit_keyboard f a) = partition_fits a" "user_valid (edit_keyboard f a) = user_valid a"
  by (simp_all add: edit_partition_def edit_user_def edit_keyboard_def checks)

lemma focus_frame [simp]:
  "removable_chosen (a\<lparr>ap_partition_focus := n\<rparr>) = removable_chosen a"
  "removable_chosen (a\<lparr>ap_user_focus := n\<rparr>) = removable_chosen a"
  "removable_chosen (a\<lparr>ap_keyboard_focus := n\<rparr>) = removable_chosen a"
  "removable_chosen (a\<lparr>ap_show_passwords := b\<rparr>) = removable_chosen a"
  "partition_fits (a\<lparr>ap_user_focus := n\<rparr>) = partition_fits a"
  "partition_fits (a\<lparr>ap_keyboard_focus := n\<rparr>) = partition_fits a"
  "partition_fits (a\<lparr>ap_show_passwords := b\<rparr>) = partition_fits a"
  "user_valid (a\<lparr>ap_keyboard_focus := n\<rparr>) = user_valid a"
  by (simp_all add: checks)

lemma typed_frame [simp]:
  "app_typed (a\<lparr>ap_screen := s\<rparr>) = app_typed a" "app_typed (a\<lparr>ap_error := e\<rparr>) = app_typed a"
  "app_typed (a\<lparr>ap_outcome := r\<rparr>) = app_typed a" "app_typed (a\<lparr>ap_show_passwords := b\<rparr>) = app_typed a"
  "app_typed a \<Longrightarrow> n < 2 \<Longrightarrow> app_typed (a\<lparr>ap_partition_focus := n\<rparr>)"
  "app_typed a \<Longrightarrow> n < 4 \<Longrightarrow> app_typed (a\<lparr>ap_user_focus := n\<rparr>)"
  "app_typed a \<Longrightarrow> n < 2 \<Longrightarrow> app_typed (a\<lparr>ap_keyboard_focus := n\<rparr>)"
  by (simp_all add: app_typed_def)

text \<open>The ways a key can be handled.\<close>

lemma handle_partition_elim:
  assumes "P a" "\<And>n. n < 2 \<Longrightarrow> P (a\<lparr>ap_partition_focus := n\<rparr>)" "P (submit_partition a)"
    and "\<And>f. (\<And>s. number_text s \<Longrightarrow> number_text (f s)) \<Longrightarrow> P (edit_partition f a)" "P (a\<lparr>ap_screen := Device_Select\<rparr>)"
  shows "P (handle_partition a k)"
  using assms(1-3) assms(4)[OF number_text_edit(1)] assms(4)[OF number_text_edit(2)] assms(5)
  by (simp split: key_code.split)

lemma handle_user_elim:
  assumes "P a" "\<And>n. n < 4 \<Longrightarrow> P (a\<lparr>ap_user_focus := n\<rparr>)" "P (submit_user a)"
    and "\<And>f. P (edit_user f a)" "P (a\<lparr>ap_screen := Partition_Screen\<rparr>)" "\<And>b. P (a\<lparr>ap_show_passwords := b\<rparr>)"
  shows "P (handle_user a k)"
  using assms by (simp split: key_code.split)

lemma handle_keyboard_elim:
  assumes "P a" "\<And>n. n < 2 \<Longrightarrow> P (a\<lparr>ap_keyboard_focus := n\<rparr>)" "P (submit_keyboard a)"
    and "\<And>f. P (edit_keyboard f a)" "P (a\<lparr>ap_screen := User_Screen\<rparr>)"
  shows "P (handle_keyboard a k)"
  using assms by (simp split: key_code.split)

lemma handle_devices_ok: "form_ok a \<Longrightarrow> ap_screen a = Device_Select \<Longrightarrow> form_ok (handle_devices a k)"
  using handle_devices_cases[of a k] handle_devices_typed[of a k]
  by (elim disjE exE conjE) (simp_all add: form_ok_def select_device_def removable_chosen_def[symmetric])

lemma handle_partition_ok: "form_ok a \<Longrightarrow> ap_screen a = Partition_Screen \<Longrightarrow> form_ok (handle_partition a k)"
  by (rule handle_partition_elim)
     (simp_all add: submits_ok edit_partition_typed form_ok_def[of "edit_partition f a" for f]
       form_ok_def[of "a\<lparr>ap_partition_focus := n\<rparr>" for n] form_ok_def[of "a\<lparr>ap_screen := s\<rparr>" for s] form_ok_def[of a])

lemma handle_user_ok: "form_ok a \<Longrightarrow> ap_screen a = User_Screen \<Longrightarrow> form_ok (handle_user a k)"
  by (rule handle_user_elim)
     (simp_all add: submits_ok edit_text_typed form_ok_def[of "edit_user f a" for f]
       form_ok_def[of "a\<lparr>ap_user_focus := n\<rparr>" for n] form_ok_def[of "a\<lparr>ap_show_passwords := b\<rparr>" for b]
       form_ok_def[of "a\<lparr>ap_screen := s\<rparr>" for s] form_ok_def[of a])

lemma handle_keyboard_ok: "form_ok a \<Longrightarrow> ap_screen a = Keyboard_Screen \<Longrightarrow> form_ok (handle_keyboard a k)"
  by (rule handle_keyboard_elim)
     (simp_all add: submits_ok edit_text_typed form_ok_def[of "edit_keyboard f a" for f]
       form_ok_def[of "a\<lparr>ap_keyboard_focus := n\<rparr>" for n] form_ok_def[of "a\<lparr>ap_screen := s\<rparr>" for s] form_ok_def[of a])

lemma handle_summary_ok: "form_ok a \<Longrightarrow> ap_screen a = Summary \<Longrightarrow> form_ok (handle_summary a k)"
  by (auto simp: form_ok_def app_typed_def split: key_code.split)

lemmas handlers_simps = handle_partition.simps handle_user.simps handle_keyboard.simps handle_summary.simps

lemma handle_key_ok: "form_ok a \<Longrightarrow> form_ok (handle_key a k)"
proof -
  assume a: "form_ok a"
  have "form_ok (a\<lparr>ap_error := None\<rparr>)" "form_ok (a\<lparr>ap_outcome := Some Cancelled\<rparr>)"
    using a by (simp_all add: form_ok_def app_typed_def)
  then show ?thesis
    unfolding handle_key_def Let_def
    by (simp add: handle_devices_ok handle_partition_ok handle_user_ok handle_keyboard_ok handle_summary_ok
        del: handlers_simps split: screen.split)
qed

section \<open>The outcome\<close>

lemma handlers_frame:
  "ap_devices (handle_devices a k) = ap_devices a" "ap_outcome (handle_devices a k) = ap_outcome a"
  "ap_devices (handle_partition a k) = ap_devices a" "ap_outcome (handle_partition a k) = ap_outcome a"
  "ap_devices (handle_user a k) = ap_devices a" "ap_outcome (handle_user a k) = ap_outcome a"
  "ap_devices (handle_keyboard a k) = ap_devices a" "ap_outcome (handle_keyboard a k) = ap_outcome a"
  "ap_devices (handle_summary a k) = ap_devices a"
proof -
  show "ap_devices (handle_devices a k) = ap_devices a" "ap_outcome (handle_devices a k) = ap_outcome a"
    by (simp_all add: handle_devices_def select_device_def)
  obtain s e s' e' s'' e'' where f: "submit_partition a = a\<lparr>ap_screen := s, ap_error := e\<rparr>"
    "submit_user a = a\<lparr>ap_screen := s', ap_error := e'\<rparr>" "submit_keyboard a = a\<lparr>ap_screen := s'', ap_error := e''\<rparr>"
    using submits_frame[of a] by blast
  show "ap_devices (handle_partition a k) = ap_devices a" "ap_outcome (handle_partition a k) = ap_outcome a"
    "ap_devices (handle_user a k) = ap_devices a" "ap_outcome (handle_user a k) = ap_outcome a"
    "ap_devices (handle_keyboard a k) = ap_devices a" "ap_outcome (handle_keyboard a k) = ap_outcome a"
    "ap_devices (handle_summary a k) = ap_devices a"
    by (simp_all add: f edit_partition_def edit_user_def edit_keyboard_def split: key_code.split)
qed

lemma handle_key_devices: "ap_devices (handle_key a k) = ap_devices a"
  unfolding handle_key_def Let_def
  by (simp add: handlers_frame del: handlers_simps split: screen.split)

lemma handle_summary_outcome: "ap_outcome (handle_summary a k) = ap_outcome a \<or> ap_outcome (handle_summary a k) = Some Confirmed \<and> ap_screen (handle_summary a k) = ap_screen a"
  by (simp split: key_code.split)

lemma handle_key_outcome: "ap_outcome a \<noteq> None \<Longrightarrow> ap_outcome (handle_key a k) \<noteq> None"
  using handle_summary_outcome[of "a\<lparr>ap_error := None\<rparr>" k] unfolding handle_key_def Let_def
  by (auto simp: handlers_frame simp del: handlers_simps split: screen.split)

lemma handle_key_confirms:
  assumes "ap_outcome a = None" "ap_outcome (handle_key a k) = Some Confirmed"
  shows "ap_screen (handle_key a k) = Summary"
  using assms handle_summary_outcome[of "a\<lparr>ap_error := None\<rparr>" k] unfolding handle_key_def Let_def
  by (auto simp: handlers_frame simp del: handlers_simps split: screen.splits if_splits)

text \<open>The form is a machine whose flag is that the operator has decided.\<close>

interpretation form: latched_machine handle_key form_ok "\<lambda>_. True" "\<lambda>a. ap_outcome a \<noteq> None"
  by unfold_locales (erule handle_key_ok, erule handle_key_outcome)

lemma form_ok_new: "devices \<noteq> [] \<Longrightarrow> form_ok (new_app spec devices)"
  using app_typed_new[of devices spec] by (simp add: form_ok_def new_app_def Let_def)

lemma form_run: "devices \<noteq> [] \<Longrightarrow> form_ok (foldl handle_key (new_app spec devices) ks)"
  by (rule form.run_inv[OF form_ok_new]) (simp_all add: list_all_iff)

lemma run_devices: "ap_devices (foldl handle_key a ks) = ap_devices a"
  by (induction ks arbitrary: a) (simp_all add: handle_key_devices)

text \<open>The loop is a run of the machine, and ends with the first decision.\<close>

fun pressed :: "(io_error + key_event option) list \<Rightarrow> key_event list" where
  "pressed [] = []"
| "pressed (Inr (Some k) # r) = (if ke_press k then k # pressed r else pressed r)"
| "pressed (_ # r) = pressed r"

lemma tui_loop_run:
  assumes "tui_loop a es = (e, a')" "ap_outcome a = None"
  shows "\<exists>ks ks'. pressed es = ks @ ks' \<and> a' = foldl handle_key a ks
    \<and> (e = Form_Done \<longleftrightarrow> ap_outcome a' \<noteq> None) \<and> (e = Form_Open \<longrightarrow> ks' = [])
    \<and> (ap_outcome a' = Some Confirmed \<longrightarrow> ap_screen a' = Summary)"
  using assms
proof (induction a es rule: tui_loop.induct)
  case (2 a e r)
  then show ?case by (intro exI[of _ "[]"] exI[of _ "pressed r"]) auto
next
  case (4 a k r)
  show ?case
  proof (cases "ke_press k")
    case press: True
    show ?thesis
    proof (cases "ap_outcome (handle_key a k) = None")
      case True
      with 4 press obtain ks ks' where "pressed r = ks @ ks'" "a' = foldl handle_key (handle_key a k) ks"
        "e = Form_Done \<longleftrightarrow> ap_outcome a' \<noteq> None" "e = Form_Open \<longrightarrow> ks' = []"
        "ap_outcome a' = Some Confirmed \<longrightarrow> ap_screen a' = Summary" by (auto simp: Let_def)
      then show ?thesis using press by (intro exI[of _ "k # ks"] exI[of _ ks']) simp
    next
      case False
      then show ?thesis using 4(3,4) press handle_key_confirms[of a k]
        by (intro exI[of _ "[k]"] exI[of _ "pressed r"]) (auto simp: Let_def)
    qed
  qed (use 4 in auto)
qed auto

text \<open>Without errors, the loop ends exactly when the keys, taken together, decide.\<close>

lemma tui_loop_ends:
  assumes "list_all (\<lambda>e. \<exists>k. e = Inr k) es" "form_ok a" "ap_outcome a = None"
  shows "fst (tui_loop a es) = Form_Done \<longleftrightarrow> ap_outcome (foldl handle_key a (pressed es)) \<noteq> None"
proof -
  obtain e a' where r: "tui_loop a es = (e, a')" by fastforce
  have "e \<noteq> Form_Failed x" for x
    using r assms(1) by (induction a es rule: tui_loop.induct) (auto simp: Let_def split: if_splits)
  then have e: "e = Form_Done \<or> e = Form_Open" by (cases e) auto
  from tui_loop_run[OF r assms(3)] obtain ks ks' where k: "pressed es = ks @ ks'" "a' = foldl handle_key a ks"
    "e = Form_Done \<longleftrightarrow> ap_outcome a' \<noteq> None" "e = Form_Open \<longrightarrow> ks' = []" by blast
  have "form_ok a'" using assms(2) unfolding k(2) by (intro form.run_inv) (simp_all add: list_all_iff)
  then have "ap_outcome a' \<noteq> None \<Longrightarrow> ap_outcome (foldl handle_key a' ks') \<noteq> None"
    by (intro form.latch_run) (simp_all add: list_all_iff)
  with k e r show ?thesis by auto
qed


section \<open>The plan\<close>

text \<open>The partitions and the 8 MiB that are left for the tables fit on the disk.\<close>

definition fits_disk :: "u32 \<Rightarrow> u32 \<Rightarrow> usb_device \<Rightarrow> bool" where
  "fits_disk esp g d \<longleftrightarrow> (unat esp + 8 + 1024 * unat g) * 1048576 \<le> unat (ud_size d)"

lemma max_root_fits:
  assumes "esp \<le> 8192" "g \<noteq> 0" "g \<le> max_root_gib esp d"
  shows "fits_disk esp g d"
proof -
  let ?esp = "unat esp" and ?g = "unat g" and ?disk = "unat (disk_mib d)"
  have esp: "?esp \<le> 8192" using assms(1) by (simp add: word_le_nat_alt)
  have "unat (esp + 8) = ?esp + 8" using esp by (simp add: unat_word_ariths)
  then have "unat (max_root_gib esp d) = (?disk - (?esp + 8)) div 1024"
    by (simp add: max_root_gib_def unat_div unat_saturating_sub)
  moreover have "?g \<le> unat (max_root_gib esp d)" using assms(3) by (simp add: word_le_nat_alt)
  moreover have "0 < ?g" using assms(2) by (simp add: unat_gt_0)
  ultimately have "?esp + 8 + 1024 * ?g \<le> ?disk" by linarith
  moreover have "?disk \<le> unat (ud_size d) div 1048576"
    by (simp add: disk_mib_def unsigned_ucast_eq unat_div take_bit_eq_mod)
  ultimately have "?esp + 8 + 1024 * ?g \<le> unat (ud_size d) div 1048576" by (rule le_trans)
  from mult_le_mono1[OF this, of 1048576] show ?thesis
    unfolding fits_disk_def by (rule le_trans) (rule div_times_less_eq_dividend)
qed

definition sound_user :: "openssl \<Rightarrow> resolved_user \<Rightarrow> bool" where
  "sound_user openssl u \<longleftrightarrow> ru_name u \<noteq> [] \<and> ru_name u \<noteq> ''root'' \<and> list_all name_char (ru_name u)
     \<and> ru_uid u = 1000 \<and> ru_gid u = 1000 \<and> starts_with ''$6$'' (ru_password_hash u)
     \<and> (\<exists>pw. 6 \<le> length pw \<and> hash_password_sha512 openssl pw = Inr (ru_password_hash u))"

lemma hash_starts: "hash_password_sha512 openssl p = Inr h \<Longrightarrow> starts_with ''$6$'' h"
  by (auto simp: hash_password_sha512_def validate_hash_def bind_r_Inr split: sum.splits prod.splits if_splits)

lemma ok_or_eq: "ok_or e r = Inr y \<Longrightarrow> r = Some y"
  by simp

lemma build_plan_ok:
  assumes "form_ok a" "ap_screen a = Summary" "build_plan openssl a = Inr plan"
  shows "sound_user openssl (ip_user plan)"
    and "64 \<le> pp_esp_mib (ip_partition plan) \<and> pp_esp_mib (ip_partition plan) \<le> 8192"
    and "pp_root_gib (ip_partition plan) = Some g \<Longrightarrow> fits_disk (pp_esp_mib (ip_partition plan)) g (current_device a)"
    and "valid_keymap (rk_layout (ip_keyboard plan))"
    and "rk_variant (ip_keyboard plan) = Some v \<Longrightarrow> valid_keymap v"
proof -
  from assms(1,2) have checks: "partition_fits a" "user_valid a" "keyboard_valid a" by (simp_all add: form_ok_def)
  from assms(3) obtain esp r hash where b: "parse_u32 (trim (ap_esp a)) = Some esp" "parse_u32 (trim (ap_root a)) = Some r"
    "hash_password_sha512 openssl (ap_password a) = Inr hash"
    and plan: "ip_partition plan = \<lparr>pp_esp_mib = esp, pp_root_gib = (if r = 0 then None else Some r)\<rparr>"
      "ip_keyboard plan = \<lparr>rk_layout = ap_layout a, rk_variant = (if ap_variant a = [] then None else Some (ap_variant a))\<rparr>"
      "ru_name (ip_user plan) = ap_user_name a" "ru_password_hash (ip_user plan) = hash"
      "ru_uid (ip_user plan) = 1000" "ru_gid (ip_user plan) = 1000"
    unfolding build_plan_def by (auto simp: bind_r_Inr)
  from checks(1) b have p: "64 \<le> esp" "esp \<le> 8192" "r \<le> max_root_gib esp (current_device a)" by (auto simp: partition_fits_def)
  show "sound_user openssl (ip_user plan)"
    using checks(2) b(3) hash_starts[OF b(3)] by (auto simp: sound_user_def plan user_valid_def)
  show "64 \<le> pp_esp_mib (ip_partition plan) \<and> pp_esp_mib (ip_partition plan) \<le> 8192" using p by (simp add: plan)
  show "pp_root_gib (ip_partition plan) = Some g \<Longrightarrow> fits_disk (pp_esp_mib (ip_partition plan)) g (current_device a)"
    using max_root_fits[OF p(2) _ p(3)] by (simp add: plan split: if_splits)
  show "valid_keymap (rk_layout (ip_keyboard plan))"
    "rk_variant (ip_keyboard plan) = Some v \<Longrightarrow> valid_keymap v"
    using checks(3) by (auto simp: plan keyboard_valid_def split: if_splits)
qed

lemma run_tui_form:
  assumes "run_tui openssl setup teardown spec devices events = Some (Inr (Some (d, plan)))"
  obtains a where "form_ok a" "ap_screen a = Summary" "ap_devices a = devices" "d = current_device a"
    "build_plan openssl a = Inr plan"
proof -
  from assms obtain a where ne: "devices \<noteq> []" and r: "tui_loop (new_app spec devices) events = (Form_Done, a)"
    and c: "ap_outcome a = Some Confirmed" "build_plan openssl a = Inr plan" "d = current_device a"
    by (auto simp: run_tui_def bind_r_Inr split: if_splits sum.splits prod.splits loop_end.splits)
  have "ap_outcome (new_app spec devices) = None" by (simp add: new_app_def Let_def)
  from tui_loop_run[OF r this] obtain ks where ks: "a = foldl handle_key (new_app spec devices) ks"
    "ap_screen a = Summary" using c(1) by blast
  show ?thesis
    by (rule that[of a])
       (use ks(2) c form_run[OF ne, of spec ks] run_devices[of "new_app spec devices" ks] in
         \<open>simp_all add: ks(1) new_app_def Let_def\<close>)
qed

lemma form_plan_checked:
  assumes "run_tui openssl setup teardown spec devices events = Some (Inr (Some (d, plan)))"
  shows "d \<in> set devices \<and> ud_removable d
    \<and> 64 \<le> pp_esp_mib (ip_partition plan) \<and> pp_esp_mib (ip_partition plan) \<le> 8192
    \<and> (\<forall>g. pp_root_gib (ip_partition plan) = Some g \<longrightarrow> fits_disk (pp_esp_mib (ip_partition plan)) g d)
    \<and> sound_user openssl (ip_user plan)
    \<and> valid_keymap (rk_layout (ip_keyboard plan))
    \<and> (\<forall>v. rk_variant (ip_keyboard plan) = Some v \<longrightarrow> valid_keymap v)"
proof -
  from run_tui_form[OF assms] obtain a where a: "form_ok a" "ap_screen a = Summary" "ap_devices a = devices"
    "d = current_device a" "build_plan openssl a = Inr plan" .
  have "d \<in> set devices" using a(1,3,4) by (auto simp: form_ok_def app_typed_def current_device_def)
  moreover have "ud_removable d" using a(1,2,4) by (simp add: form_ok_def removable_chosen_def)
  ultimately show ?thesis using build_plan_ok[OF a(1,2,5)] a(4) by simp
qed


text \<open>
  C9: whatever keys are pressed in whatever order, going back, changing the disk and correcting
  fields included, a plan that leaves the form names a removable disk that was offered, an ESP of
  64 to 8192 MiB and a root that fits on that disk beside it, an account that is not root with a
  name of the allowed characters and the hash of a password of at least six bytes, and a keyboard
  layout and variant of the allowed characters.
\<close>

theorem form_plan_sound:
  assumes "run_tui openssl setup teardown spec devices events = Some (Inr (Some (d, plan)))"
  shows "d \<in> set devices \<and> ud_removable d
    \<and> 64 \<le> pp_esp_mib (ip_partition plan) \<and> pp_esp_mib (ip_partition plan) \<le> 8192
    \<and> (\<forall>g. pp_root_gib (ip_partition plan) = Some g \<longrightarrow> fits_disk (pp_esp_mib (ip_partition plan)) g d)
    \<and> sound_user openssl (ip_user plan)
    \<and> valid_keymap (rk_layout (ip_keyboard plan))
    \<and> (\<forall>v. rk_variant (ip_keyboard plan) = Some v \<longrightarrow> valid_keymap v)"
  by (rule form_plan_checked[OF assms])

text \<open>A disk of 8 GiB, a name from the specification, a password typed twice.\<close>

definition sample_disk :: usb_device where
  "sample_disk = \<lparr>ud_path = ''/dev/sdb'', ud_size = 8589934592, ud_vendor = [], ud_model = [], ud_removable = True\<rparr>"

definition sample_spec :: target_os_spec where
  "sample_spec = default_spec\<lparr>ts_user := Some \<lparr>su_name = Some ''ann'', su_real_name = None, su_password_hash = None,
     su_shell = None, su_groups = None\<rparr>\<rparr>"

definition sample_openssl :: openssl where
  "sample_openssl = (\<lambda>_. Inr (True, ''$6$saltsaltsalthashhash''))"

definition key_press :: "key_code \<Rightarrow> io_error + key_event option" where
  "key_press c = Inr (Some \<lparr>ke_code = c, ke_control = False, ke_press = True\<rparr>)"

definition sample_keys :: "(io_error + key_event option) list" where
  "sample_keys =
     (let pw = map (\<lambda>c. Key_Char [c]) ''secret'' in
      map key_press ([Key_Enter, Key_Enter, Key_Tab, Key_Tab] @ pw @ [Key_Tab] @ pw @ [Key_Enter, Key_Enter, Key_Enter]))"

definition sample_plan :: installation_plan where
  "sample_plan = \<lparr>ip_partition = \<lparr>pp_esp_mib = 512, pp_root_gib = None\<rparr>,
     ip_user = \<lparr>ru_name = ''ann'', ru_real_name = [], ru_password_hash = ''$6$saltsaltsalthashhash'',
       ru_shell = DEFAULT_SHELL, ru_groups = DEFAULT_GROUPS, ru_uid = 1000, ru_gid = 1000\<rparr>,
     ip_keyboard = \<lparr>rk_layout = ''us'', rk_variant = None\<rparr>, ip_enabled_at_boot = False\<rparr>"

lemma sample_form: "run_tui sample_openssl (Inr ()) (Inr ()) sample_spec [sample_disk] sample_keys
  = Some (Inr (Some (sample_disk, sample_plan)))"
  by code_simp


theorem form_plan_sound_witness:
  "sample_disk \<in> set [sample_disk] \<and> ud_removable sample_disk
    \<and> 64 \<le> pp_esp_mib (ip_partition sample_plan) \<and> sound_user sample_openssl (ip_user sample_plan)
    \<and> valid_keymap (rk_layout (ip_keyboard sample_plan))"
  using form_plan_sound[OF sample_form] by (elim conjE) (intro conjI; assumption)

text \<open>
  C25: after any keys the form is well-formed: it still offers the same disks, the highlighted
  row is the chosen disk and is one of them, so that looking it up cannot panic, each field
  cursor is on a field of its screen, and the number fields hold at most ten digits.
\<close>

theorem form_stays_typed:
  assumes "devices \<noteq> []"
  shows "app_typed (foldl handle_key (new_app spec devices) ks)
    \<and> ap_devices (foldl handle_key (new_app spec devices) ks) = devices
    \<and> current_device (foldl handle_key (new_app spec devices) ks) \<in> set devices"
proof -
  let ?a = "foldl handle_key (new_app spec devices) ks"
  have "app_typed ?a" using form_run[OF assms] by (simp add: form_ok_def)
  moreover have "ap_devices ?a = devices" by (simp add: run_devices new_app_def Let_def)
  ultimately show ?thesis by (metis app_typed_def current_device_def nth_mem)
qed

theorem form_stays_typed_witness:
  "app_typed (foldl handle_key (new_app sample_spec [sample_disk]) [\<lparr>ke_code = Key_Down, ke_control = False, ke_press = True\<rparr>])"
  using form_stays_typed[of "[sample_disk]" sample_spec "[\<lparr>ke_code = Key_Down, ke_control = False, ke_press = True\<rparr>]"] by simp

section \<open>The plan of the line prompts\<close>

lemma ask_password_length: "ask_password ps = (Inr p, r) \<Longrightarrow> 6 \<le> length p"
  by (induction ps rule: ask_password.induct) (auto split: if_splits)

lemma prompt_password_sound:
  "prompt_password_and_hash openssl c = (Inr h, c') \<Longrightarrow> \<exists>pw. 6 \<le> length pw \<and> hash_password_sha512 openssl pw = Inr h"
  using ask_password_length by (auto simp: prompt_password_and_hash_def bind_r_Inr split: prod.splits)

lemma gather_user_sound:
  "gather_user openssl spec c = (Inr u, c') \<Longrightarrow> sound_user openssl u"
  using prompt_password_sound hash_starts
  by (fastforce simp: gather_user_def then_r_Inr sound_user_def simp del: split_paired_Ex split: if_splits)

lemma gather_partition_sound:
  assumes "gather_partition spec d c = (Inr p, c')"
  shows "100 \<le> pp_esp_mib p \<and> pp_esp_mib p \<le> 4096"
    and "Option.bind spec sp_root_gib = Some v \<Longrightarrow> v \<noteq> 0 \<Longrightarrow> pp_root_gib p = Some v \<and> fits_disk (pp_esp_mib p) v d"
proof -
  have range: "100 \<le> pp_esp_mib p \<and> pp_esp_mib p \<le> 4096"
    using assms by (auto simp: gather_partition_def then_r_Inr ask_root_def Let_def not_less
        simp del: split_paired_Ex split: if_splits option.splits)
  then show "100 \<le> pp_esp_mib p \<and> pp_esp_mib p \<le> 4096" .
  have "pp_esp_mib p \<le> 8192" using range by (auto intro: order_trans)
  moreover assume "Option.bind spec sp_root_gib = Some v" "v \<noteq> 0"
  ultimately show "pp_root_gib p = Some v \<and> fits_disk (pp_esp_mib p) v d"
    using assms max_root_fits[of "pp_esp_mib p" v d]
    by (auto simp: gather_partition_def then_r_Inr Let_def not_less simp del: split_paired_Ex split: if_splits)
qed

lemma prompt_keymap_valid: "prompt_keymap dflt c = (Inr s, c') \<Longrightarrow> s = [] \<or> valid_keymap s"
  by (auto simp: prompt_keymap_def then_r_Inr valid_keymap_def validate_keymap_def simp del: split_paired_Ex split: if_splits)

lemma prompt_layout: "prompt_keymap DEFAULT_KEYBOARD c = (Inr s, c') \<Longrightarrow> valid_keymap s"
  using prompt_keymap_valid[of DEFAULT_KEYBOARD c s c']
  by (auto simp: prompt_keymap_def prompt_string_def then_r_Inr bind_r_Inr DEFAULT_KEYBOARD_def simp del: split_paired_Ex
      split: if_splits prod.splits sum.splits)

text \<open>
  A plan of the line prompts has an ESP of 100 to 4096 MiB, an account as the form would
  accept it, and the network setting of the specification; a root size that the specification
  gives fits on the disk, and a layout that it does not give is one of the allowed characters.
\<close>

lemma prompts_plan_checked:
  assumes "gather_plan openssl spec d c = (Inr plan, c')"
  shows "100 \<le> pp_esp_mib (ip_partition plan) \<and> pp_esp_mib (ip_partition plan) \<le> 4096
    \<and> (\<forall>v. Option.bind (ts_partitions spec) sp_root_gib = Some v \<longrightarrow> v \<noteq> 0 \<longrightarrow>
         pp_root_gib (ip_partition plan) = Some v \<and> fits_disk (pp_esp_mib (ip_partition plan)) v d)
    \<and> sound_user openssl (ip_user plan)
    \<and> (Option.bind (ts_keyboard spec) sk_layout = None \<longrightarrow> valid_keymap (rk_layout (ip_keyboard plan)))
    \<and> (ip_enabled_at_boot plan \<longleftrightarrow> ts_network spec = Some (Some True))"
proof -
  from assms obtain p u k c1 c2 c3 where g: "gather_partition (ts_partitions spec) d c = (Inr p, c1)"
    "gather_user openssl (ts_user spec) c1 = (Inr u, c2)" "gather_keyboard (ts_keyboard spec) c2 = (Inr k, c3)"
    and plan: "ip_partition plan = p" "ip_user plan = u" "ip_keyboard plan = k"
      "ip_enabled_at_boot plan \<longleftrightarrow> ts_network spec = Some (Some True)"
    by (auto simp: gather_plan_def then_r_Inr simp del: split_paired_Ex split: option.splits Option.bind_splits)
  have "Option.bind (ts_keyboard spec) sk_layout = None \<longrightarrow> valid_keymap (rk_layout k)"
    using g(3) prompt_layout by (auto simp: gather_keyboard_def then_r_Inr simp del: split_paired_Ex)
  with gather_partition_sound[OF g(1)] gather_user_sound[OF g(2)] show ?thesis by (simp add: plan)
qed

definition sample_console :: "string \<Rightarrow> console" where
  "sample_console root = \<lparr>cs_lines = [Inr [], Inr root, Inr [], Inr [], Inr []],
     cs_passwords = [Inr ''secret'', Inr ''secret'']\<rparr>"

text \<open>A root size that is typed is not compared with the disk: 500 GiB on 8 GiB.\<close>

lemma prompted_root_unchecked:
  "map_sum id (\<lambda>p. pp_root_gib (ip_partition p))
     (fst (gather_plan sample_openssl sample_spec sample_disk (sample_console ''500''))) = Inr (Some 500)"
  by code_simp

end
