(* ===== verification/Installer_Image.thy ===== *)
theory Installer_Image
  imports Installer_Form
begin

text \<open>
  What the installer reads and what it writes as text: the removable disks of sysfs and the
  safety check (crates/writeonce-installer/src/detect.rs), the artifact manifest (manifest.rs),
  partition names (partition.rs), and the account and keyboard files it rewrites in the new
  root (customize.rs), with what a login then finds in them.
\<close>

section \<open>Disks\<close>

text \<open>Files of /sys and /proc, and which paths exist.\<close>

record host_files =
  hf_text :: "string \<Rightarrow> io_error + string"
  hf_exists :: "string \<Rightarrow> bool"
  hf_block :: "io_error + string list"

definition read_trimmed :: "host_files \<Rightarrow> string \<Rightarrow> string option" where
  "read_trimmed h p = (case hf_text h p of Inl _ \<Rightarrow> None | Inr s \<Rightarrow> Some (trim s))"

definition read_one :: "host_files \<Rightarrow> string \<Rightarrow> string \<Rightarrow> usb_device option" where
  "read_one h dir name = do {
     sectors \<leftarrow> Option.bind (read_trimmed h (dir @ ''/size'')) parse_u64;
     Some \<lparr>ud_path = ''/dev/'' @ name, ud_size = sectors * 512,
       ud_vendor = or_else [] (read_trimmed h (dir @ ''/device/vendor'')),
       ud_model = or_else [] (read_trimmed h (dir @ ''/device/model'')),
       ud_removable = (read_trimmed h (dir @ ''/removable'') = Some ''1'')\<rparr> }"

definition skipped_disk :: "string \<Rightarrow> bool" where
  "skipped_disk name \<longleftrightarrow> starts_with ''ram'' name \<or> starts_with ''loop'' name \<or> starts_with ''dm-'' name
     \<or> starts_with ''sr'' name \<or> starts_with ''zram'' name"

definition list_removable :: "host_files \<Rightarrow> io_error + usb_device list" where
  "list_removable h =
     bind_r (hf_block h) (\<lambda>names. Inr (sort_key ud_path
       (filter ud_removable
         (List.map_filter (\<lambda>n. if skipped_disk n then None else read_one h (''/sys/block/'' @ n) n) names))))"

definition lookup :: "host_files \<Rightarrow> string \<Rightarrow> usb_device option" where
  "lookup h p = do {
     name \<leftarrow> path_file_name p;
     if hf_exists h (''/sys/block/'' @ name) then read_one h (''/sys/block/'' @ name) name else None }"

datatype device_error = No_Such_Device string | Fixed_Disk string | Mounts_Unreadable io_error | Mounted string

definition names_disk :: "string \<Rightarrow> string \<Rightarrow> bool" where
  "names_disk p line \<longleftrightarrow>
     starts_with (p @ '' '') line \<or> starts_with (p @ ''1 '') line \<or> starts_with (p @ ''2 '') line"

definition safety_check :: "host_files \<Rightarrow> usb_device \<Rightarrow> device_error + unit" where
  "safety_check h d =
     (if \<not> hf_exists h (ud_path d) then Inl (No_Such_Device (ud_path d))
      else if \<not> ud_removable d then Inl (Fixed_Disk (ud_path d))
      else
        (case hf_text h ''/proc/mounts'' of
           Inl e \<Rightarrow> Inl (Mounts_Unreadable e)
         | Inr mounts \<Rightarrow>
             if list_ex (names_disk (ud_path d)) (lines mounts) then Inl (Mounted (ud_path d)) else Inr ()))"

section \<open>The artifacts\<close>

record manifest =
  mf_schema_version :: string
  mf_kernel :: string
  mf_initramfs :: string
  mf_bootloader :: string
  mf_sysroot :: string
  mf_cmdline :: string
  mf_kernel_sha256 :: string
  mf_initramfs_sha256 :: string
  mf_bootloader_sha256 :: string
  mf_sysroot_sha256 :: string

record artifacts =
  ar_kernel :: string
  ar_initramfs :: string
  ar_bootloader :: string
  ar_sysroot :: string
  ar_cmdline :: string
  ar_kernel_sha :: string
  ar_initramfs_sha :: string
  ar_bootloader_sha :: string
  ar_sysroot_sha :: string

definition resolve :: "manifest \<Rightarrow> string \<Rightarrow> artifacts" where
  "resolve m dir =
     \<lparr>ar_kernel = path_join dir (mf_kernel m), ar_initramfs = path_join dir (mf_initramfs m),
      ar_bootloader = path_join dir (mf_bootloader m), ar_sysroot = path_join dir (mf_sysroot m),
      ar_cmdline = mf_cmdline m, ar_kernel_sha = mf_kernel_sha256 m, ar_initramfs_sha = mf_initramfs_sha256 m,
      ar_bootloader_sha = mf_bootloader_sha256 m, ar_sysroot_sha = mf_sysroot_sha256 m\<rparr>"

text \<open>The digest of a file, by path, is an argument; the first mismatch or error ends the check.\<close>

datatype verify_error = Unreadable io_error | Sha_Mismatch string

fun verify_shas :: "(string \<Rightarrow> io_error + string) \<Rightarrow> (string \<times> string \<times> string) list \<Rightarrow> verify_error + unit" where
  "verify_shas sha [] = Inr ()"
| "verify_shas sha ((label, path, expected) # r) =
     bind_r (map_err Unreadable (sha path)) (\<lambda>actual.
       if eq_ignore_ascii_case actual expected then verify_shas sha r else Inl (Sha_Mismatch label))"

definition verify_against_manifest :: "(string \<Rightarrow> io_error + string) \<Rightarrow> artifacts \<Rightarrow> verify_error + unit" where
  "verify_against_manifest sha a =
     verify_shas sha
       [(''kernel'', ar_kernel a, ar_kernel_sha a), (''initramfs'', ar_initramfs a, ar_initramfs_sha a),
        (''bootloader'', ar_bootloader a, ar_bootloader_sha a), (''sysroot'', ar_sysroot a, ar_sysroot_sha a)]"

section \<open>Partitions\<close>

text \<open>The arguments of sgdisk that lay out the disk.\<close>

definition gpt_args :: "string \<Rightarrow> partition_plan \<Rightarrow> string list" where
  "gpt_args device plan =
     [''--new=1:0:+'' @ show_nat (unat (pp_esp_mib plan)) @ ''M'',
      ''--typecode=1:EF00'', ''--change-name=1:WRITEONCE-ESP'',
      (case pp_root_gib plan of
         None \<Rightarrow> ''--new=2:0:0'' | Some g \<Rightarrow> ''--new=2:0:+'' @ show_nat (unat g) @ ''G''),
      ''--typecode=2:8300'', ''--change-name=2:writeonce-root'', device]"

definition partition_paths :: "string \<Rightarrow> string \<times> string" where
  "partition_paths device =
     (if device \<noteq> [] \<and> is_digit (last device) then (device @ ''p1'', device @ ''p2'')
      else (device @ ''1'', device @ ''2''))"

section \<open>The account files\<close>

abbreviation colon :: string where
  "colon \<equiv> '':''"

definition unlines :: "string list \<Rightarrow> string" where
  "unlines ls = concat (map (\<lambda>l. l @ [LF]) ls)"

definition placeholder :: "string \<Rightarrow> bool" where
  "placeholder line \<longleftrightarrow> starts_with ''writeonce:'' line"

text \<open>Every placeholder line becomes the new one, which is added at the end if there is none.\<close>

definition replace_line :: "string \<Rightarrow> string \<Rightarrow> string" where
  "replace_line new raw =
     (let ls = lines raw; ls' = map (\<lambda>l. if placeholder l then new else l) ls
      in unlines (if list_ex placeholder ls then ls' else ls' @ [new]))"

definition passwd_fields :: "resolved_user \<Rightarrow> string list" where
  "passwd_fields u =
     [ru_name u, ''x'', show_nat (unat (ru_uid u)), show_nat (unat (ru_gid u)), ru_real_name u,
      ''/home/'' @ ru_name u, ru_shell u]"

definition rewrite_passwd :: "resolved_user \<Rightarrow> string \<Rightarrow> string" where
  "rewrite_passwd u raw = replace_line (join colon (passwd_fields u)) raw"

definition shadow_fields :: "nat \<Rightarrow> resolved_user \<Rightarrow> string list" where
  "shadow_fields lastchange u =
     [ru_name u, ru_password_hash u, show_nat lastchange, ''0'', ''99999'', ''7'', '''', '''', '''']"

definition rewrite_shadow :: "nat \<Rightarrow> resolved_user \<Rightarrow> string \<Rightarrow> string" where
  "rewrite_shadow lastchange u raw = replace_line (join colon (shadow_fields lastchange u)) raw"

text \<open>The members of a group without the placeholder.\<close>

definition members :: "string \<Rightarrow> string list" where
  "members f = filter (\<lambda>s. s \<noteq> [] \<and> s \<noteq> ''writeonce'') (split_on (CHR '','') f)"

definition group_line :: "resolved_user \<Rightarrow> string \<Rightarrow> string" where
  "group_line u line =
     (case splitn 4 (CHR '':'') line of
        [gname, pw, gid, ms] \<Rightarrow>
          if gname = ''writeonce'' then ru_name u @ '':x:'' @ show_nat (unat (ru_gid u)) @ colon
          else
            let keep = members ms in
            join colon [gname, pw, gid,
              join '','' (if gname \<in> set (ru_groups u) \<and> ru_name u \<notin> set keep then keep @ [ru_name u] else keep)]
      | _ \<Rightarrow> line)"

definition primary_group :: "string \<Rightarrow> bool" where
  "primary_group line \<longleftrightarrow>
     (case splitn 4 (CHR '':'') line of [gname, _, _, _] \<Rightarrow> gname = ''writeonce'' | _ \<Rightarrow> False)"

definition rewrite_group :: "resolved_user \<Rightarrow> string \<Rightarrow> string" where
  "rewrite_group u raw =
     unlines (map (group_line u) (lines raw)
       @ (if list_ex primary_group (lines raw) then []
          else [ru_name u @ '':x:'' @ show_nat (unat (ru_gid u)) @ colon]))"

section \<open>The keyboard\<close>

definition setxkbmap :: "resolved_keyboard \<Rightarrow> string" where
  "setxkbmap k =
     (case rk_variant k of
        Some v \<Rightarrow> ''setxkbmap -layout '' @ rk_layout k @ '' -variant '' @ v
      | None \<Rightarrow> ''setxkbmap '' @ rk_layout k)"

definition patch_xinitrc_text :: "resolved_keyboard \<Rightarrow> string \<Rightarrow> string" where
  "patch_xinitrc_text k raw =
     join [LF] (map (\<lambda>l. if starts_with ''setxkbmap '' (trim_start l) then setxkbmap k else l) (lines raw)) @ [LF]"

definition vconsole_conf :: "resolved_keyboard \<Rightarrow> string" where
  "vconsole_conf k =
     (case rk_variant k of
        Some v \<Rightarrow> ''KEYMAP='' @ rk_layout k @ ''-'' @ v @ [LF]
      | None \<Rightarrow> ''KEYMAP='' @ rk_layout k @ [LF])"


section \<open>What a login finds\<close>

text \<open>The first entry of a name in a colon-separated file.\<close>

definition account :: "string \<Rightarrow> string \<Rightarrow> string list option" where
  "account name text' = find (\<lambda>fs. hd fs = name) (map (split_on (CHR '':'')) (lines text'))"

definition clean_field :: "string \<Rightarrow> bool" where
  "clean_field s \<longleftrightarrow> CHR '':'' \<notin> set s \<and> LF \<notin> set s \<and> CR \<notin> set s"

lemma split_on_set: "p \<in> set (split_on c s) \<Longrightarrow> set p \<subseteq> set s"
  by (induction s arbitrary: p) (fastforce split: if_splits list.splits)+

lemma lines_chars: "l \<in> set (lines s) \<Longrightarrow> set l \<subseteq> set s \<and> LF \<notin> set l"
proof -
  assume l: "l \<in> set (lines s)"
  have cr: "set (strip_cr p) \<subseteq> set p" for p
    by (auto simp: strip_cr_def strip_suffix_iff split: option.splits)
  from l have "(\<exists>p \<in> set (split_on LF s). l = strip_cr p) \<or> l = last (split_on LF s)"
    by (auto simp: lines_def Let_def dest: in_set_butlastD split: if_splits)
  then obtain p where "p \<in> set (split_on LF s)" "l = strip_cr p \<or> l = p"
    using last_in_set[OF split_on_nonempty, of LF s] by blast
  then show ?thesis using split_on_set[of p LF s] split_on_no_sep[of p LF s] cr[of p] by blast
qed

lemma lines_unlines: "\<forall>l \<in> set ls. LF \<notin> set l \<and> CR \<notin> set l \<Longrightarrow> lines (unlines ls) = ls"
proof (induction ls)
  case (Cons l ls)
  then have "\<not> ends_with [CR] l" by (auto simp: ends_with_iff)
  with Cons lines_append_LF[of l "unlines ls"] show ?case by (simp add: unlines_def)
qed (simp add: unlines_def)

lemma lines_replace:
  assumes "CR \<notin> set raw" "LF \<notin> set new" "CR \<notin> set new"
  shows "lines (replace_line new raw) =
    map (\<lambda>l. if placeholder l then new else l) (lines raw) @ (if list_ex placeholder (lines raw) then [] else [new])"
proof -
  have "\<forall>l \<in> set (lines raw). LF \<notin> set l \<and> CR \<notin> set l" using assms(1) lines_chars by blast
  then show ?thesis unfolding replace_line_def Let_def
    using assms by (subst lines_unlines) auto
qed

lemma placeholder_name: "placeholder l \<Longrightarrow> hd (split_on (CHR '':'') l) = ''writeonce''"
proof -
  assume "placeholder l"
  then obtain r where l: "l = ''writeonce'' @ CHR '':'' # r" by (auto simp: placeholder_def starts_with_iff)
  have "CHR '':'' \<notin> set ''writeonce''" by simp
  from split_on_append[OF this, of r] show ?thesis unfolding l by simp
qed

lemma find_replaced:
  assumes "\<forall>l \<in> set ls. \<not> placeholder l \<longrightarrow> hd (split_on c l) \<noteq> name" "split_on c new = fs" "hd fs = name"
  shows "find (\<lambda>fs. hd fs = name) (map (split_on c) (map (\<lambda>l. if placeholder l then new else l) ls))
    = (if list_ex placeholder ls then Some fs else None)"
  using assms by (induction ls) auto

lemma find_others:
  assumes "n \<noteq> ''writeonce''" "hd (split_on (CHR '':'') new) \<noteq> n"
  shows "find (\<lambda>fs. hd fs = n) (map (split_on (CHR '':'')) (map (\<lambda>l. if placeholder l then new else l) ls))
    = find (\<lambda>fs. hd fs = n) (map (split_on (CHR '':'')) ls)"
  using assms by (induction ls) (auto simp: placeholder_name)

lemma find_append_None: "find P xs = None \<Longrightarrow> find P (xs @ ys) = find P ys"
  by (induction xs) (auto split: if_splits)

lemma find_append_Some: "find P xs = Some x \<Longrightarrow> find P (xs @ ys) = Some x"
  by (induction xs) (auto split: if_splits)

lemma join_fields: "set (join [c] fs) \<subseteq> insert c (\<Union>f \<in> set fs. set f)"
  by (induction "[c]" fs rule: join.induct) auto

lemma account_replaced:
  assumes raw: "CR \<notin> set raw" and fields: "fs \<noteq> []" "hd fs = name" "\<forall>f \<in> set fs. clean_field f"
    and fresh: "\<forall>l \<in> set (lines raw). \<not> placeholder l \<longrightarrow> hd (split_on (CHR '':'') l) \<noteq> name"
  shows "account name (replace_line (join colon fs) raw) = Some fs"
    and "n \<noteq> name \<Longrightarrow> n \<noteq> ''writeonce'' \<Longrightarrow> account n (replace_line (join colon fs) raw) = account n raw"
proof -
  let ?new = "join colon fs"
  have parts: "split_on (CHR '':'') ?new = fs"
    using fields by (intro split_on_join) (auto simp: clean_field_def)
  have "LF \<notin> set ?new" "CR \<notin> set ?new"
    using join_fields[of "CHR '':''" fs] fields(3) by (auto simp: clean_field_def)
  note ls = lines_replace[OF raw this]
  show "account name (replace_line ?new raw) = Some fs"
    using find_replaced[OF fresh parts fields(2)] fields(2)
    by (cases "list_ex placeholder (lines raw)")
       (simp_all add: account_def ls find_append_None parts del: map_map)
  assume n: "n \<noteq> name" "n \<noteq> ''writeonce''"
  have "hd (split_on (CHR '':'') ?new) \<noteq> n" using n parts fields by simp
  from find_others[OF n(2) this, of "lines raw"] n(1) fields(2) show "account n (replace_line ?new raw) = account n raw"
    by (cases "find (\<lambda>fs. hd fs = n) (map (split_on (CHR '':'')) (lines raw))")
       (simp_all add: account_def ls find_append_None find_append_Some parts del: map_map)
qed

lemma name_char_clean: "list_all name_char s \<Longrightarrow> clean_field s"
  by (auto simp: clean_field_def list_all_iff name_char_def is_lower_def is_digit_def)

lemma show_nat_clean: "clean_field (show_nat n)"
  by (fastforce simp: clean_field_def is_digit_def dest: show_nat_chars)

lemma append_clean: "clean_field (a @ b) \<longleftrightarrow> clean_field a \<and> clean_field b"
  by (auto simp: clean_field_def)



definition sample_user :: resolved_user where
  "sample_user = \<lparr>ru_name = ''ann'', ru_real_name = ''Ann'', ru_password_hash = ''$6$salt$hash'',
     ru_shell = ''/bin/bash'', ru_groups = [''wheel''], ru_uid = 1000, ru_gid = 1000\<rparr>"

definition sample_passwd :: string where
  "sample_passwd = unlines [''root:x:0:0::/root:/bin/bash'', ''writeonce:x:1000:1000::/home/writeonce:/bin/sh'']"

definition sample_shadow :: string where
  "sample_shadow = unlines [''root:*:1:0:99999:7:::'']"


text \<open>No flow refuses a colon in the real name, which shifts the home directory and the shell.\<close>

lemma colon_in_real_name:
  "map_option (\<lambda>fs. (fs ! 5, fs ! 6)) (account ''ann'' (rewrite_passwd (sample_user\<lparr>ru_real_name := ''A:B''\<rparr>) sample_passwd))
    = Some (''B'', ''/home/ann'')"
  by code_simp

section \<open>What the safety check lets through\<close>

text \<open>A third partition, and the first of a card reader's disk, may be mounted.\<close>

lemma mounted_unnoticed:
  "\<not> names_disk ''/dev/sdb'' ''/dev/sdb3 / ext4 rw 0 0''"
  "\<not> names_disk ''/dev/mmcblk0'' (fst (partition_paths ''/dev/mmcblk0'') @ '' /media vfat rw 0 0'')"
  by code_simp+

text \<open>A disk that is not removable is refused whatever \<open>select_target\<close> was told.\<close>

lemma forced_disk_refused: "\<not> ud_removable d \<Longrightarrow> \<exists>e. safety_check h d = Inl e"
  by (simp add: safety_check_def)

end
