(* ===== verification/Pid1.thy ===== *)
theory Pid1
  imports Kernel
begin

text \<open>
  The first process, crates/writeonce-pid1/src: its configuration, the mounts it makes, the
  placeholder child, and the signal loop that reaps orphans and turns SIGTERM or SIGINT into a
  reboot. The epoll call, the mount call and the final sync and reboot are arguments. As the
  loop need not end it is run for at most \<open>n\<close> turns.
\<close>

section \<open>Configuration\<close>

record pid1_config =
  p1_tty :: string
  p1_child :: string
  p1_child_args :: "string list"
  p1_grace_seconds :: u64

definition default_pid1_config :: pid1_config where
  "default_pid1_config =
     \<lparr>p1_tty = ''/dev/tty1'', p1_child = ''/bin/sh'', p1_child_args = [''sh''], p1_grace_seconds = 10\<rparr>"

definition de_u64 :: "toml \<Rightarrow> string + u64" where
  "de_u64 v =
     (case v of
        TInteger i \<Rightarrow> if 0 \<le> i \<and> i < 2 ^ 63 then Inr (word_of_int i) else Inl (type_error ''u64'')
      | _ \<Rightarrow> Inl (type_error ''u64''))"

definition de_pid1_config :: "toml \<Rightarrow> string + pid1_config" where
  "de_pid1_config v = bind_r (de_table v) (\<lambda>t.
     bind_r (field de_string (p1_tty default_pid1_config) t ''tty'') (\<lambda>tty.
     bind_r (field de_string (p1_child default_pid1_config) t ''child'') (\<lambda>c.
     bind_r (field de_strings (p1_child_args default_pid1_config) t ''child_args'') (\<lambda>as.
     bind_r (field de_u64 (p1_grace_seconds default_pid1_config) t ''shutdown_grace_seconds'') (\<lambda>g.
     Inr \<lparr>p1_tty = tty, p1_child = c, p1_child_args = as, p1_grace_seconds = g\<rparr>)))))"

definition load_pid1_from :: "'w kernel \<Rightarrow> (string \<Rightarrow> string + toml) \<Rightarrow> string \<Rightarrow> 'w \<Rightarrow> pid1_config option \<times> 'w" where
  "load_pid1_from k parse path w =
     (case k_read_file k path w of
        (Inl _, w') \<Rightarrow> (None, w')
      | (Inr body, w') \<Rightarrow>
          ((case bind_r (parse body) de_pid1_config of Inl _ \<Rightarrow> None | Inr c \<Rightarrow> Some c), w'))"

definition load_pid1_or_default :: "'w kernel \<Rightarrow> (string \<Rightarrow> string + toml) \<Rightarrow> 'w \<Rightarrow> pid1_config \<times> 'w" where
  "load_pid1_or_default k parse w =
     (case load_pid1_from k parse ''/etc/writeonce/pid1.toml'' w of
        (None, w') \<Rightarrow> (default_pid1_config, w')
      | (Some c, w') \<Rightarrow> (c, w'))"

text \<open>In nanoseconds.\<close>

definition shutdown_grace :: "pid1_config \<Rightarrow> nat" where
  "shutdown_grace c = unat (p1_grace_seconds c) * 1000000000"

section \<open>Mounts\<close>

record mount_spec =
  ms_source :: string
  ms_target :: string
  ms_fstype :: string
  ms_flags :: u64
  ms_data :: "string option"

definition MS_RDONLY :: u64 where "MS_RDONLY = 1"
definition MS_NOSUID :: u64 where "MS_NOSUID = 2"
definition MS_NODEV :: u64 where "MS_NODEV = 4"
definition MS_NOEXEC :: u64 where "MS_NOEXEC = 8"
definition MS_NOATIME :: u64 where "MS_NOATIME = 1024"
definition MS_MOVE :: u64 where "MS_MOVE = 8192"

definition MOUNTS :: "mount_spec list" where
  "MOUNTS =
     [\<lparr>ms_source = ''proc'', ms_target = ''/proc'', ms_fstype = ''proc'',
       ms_flags = MS_NOSUID OR MS_NOEXEC OR MS_NODEV, ms_data = None\<rparr>,
      \<lparr>ms_source = ''sysfs'', ms_target = ''/sys'', ms_fstype = ''sysfs'',
       ms_flags = MS_NOSUID OR MS_NOEXEC OR MS_NODEV, ms_data = None\<rparr>,
      \<lparr>ms_source = ''devtmpfs'', ms_target = ''/dev'', ms_fstype = ''devtmpfs'',
       ms_flags = MS_NOSUID, ms_data = Some ''mode=755''\<rparr>,
      \<lparr>ms_source = ''devpts'', ms_target = ''/dev/pts'', ms_fstype = ''devpts'',
       ms_flags = MS_NOSUID OR MS_NOEXEC, ms_data = Some ''gid=5,mode=620''\<rparr>,
      \<lparr>ms_source = ''tmpfs'', ms_target = ''/run'', ms_fstype = ''tmpfs'',
       ms_flags = MS_NOSUID OR MS_NODEV, ms_data = Some ''mode=755''\<rparr>,
      \<lparr>ms_source = ''cgroup2'', ms_target = ''/sys/fs/cgroup'', ms_fstype = ''cgroup2'',
       ms_flags = MS_NOSUID OR MS_NOEXEC OR MS_NODEV, ms_data = None\<rparr>]"

definition EBUSY :: nat where "EBUSY = 16"

text \<open>The mount call: an error number, if it fails.\<close>

type_synonym 'w mounter = "mount_spec \<Rightarrow> 'w \<Rightarrow> nat option \<times> 'w"

definition do_mount :: "'w mounter \<Rightarrow> mount_spec \<Rightarrow> 'w \<Rightarrow> (nat + unit) \<times> 'w" where
  "do_mount mnt spec w =
     (case mnt spec w of
        (None, w') \<Rightarrow> (Inr (), w')
      | (Some e, w') \<Rightarrow> (if e = EBUSY then Inr () else Inl e, w'))"

fun mount_all :: "'w kernel \<Rightarrow> 'w mounter \<Rightarrow> mount_spec list \<Rightarrow> 'w \<Rightarrow> (nat + unit) \<times> 'w" where
  "mount_all k mnt [] w = (Inr (), w)"
| "mount_all k mnt (m # ms) w =
     then_r (do_mount mnt m (snd (k_create_dir_all k (ms_target m) w))) (\<lambda>_ w. mount_all k mnt ms w)"

definition mount_essentials :: "'w kernel \<Rightarrow> 'w mounter \<Rightarrow> 'w \<Rightarrow> (nat + unit) \<times> 'w" where
  "mount_essentials k mnt w = mount_all k mnt MOUNTS w"

section \<open>The placeholder child\<close>

definition pid1_env :: "string list" where
  "pid1_env = [''PATH=/usr/bin:/usr/sbin:/bin:/sbin'', ''HOME=/root'', ''TERM=linux'']"

definition exec_placeholder :: "pid1_config \<Rightarrow> child_call list" where
  "exec_placeholder cfg =
     (case c_string (p1_child cfg) of
        None \<Rightarrow> [Exit 127]
      | Some prog \<Rightarrow>
          (case those (map c_string (p1_child_args cfg)) of
             None \<Rightarrow> [Exit 127]
           | Some argv \<Rightarrow> [Execve prog argv pid1_env, Exit 127]))"

definition pid1_child :: "pid1_config \<Rightarrow> child" where
  "pid1_child cfg succeeds fd =
     Setsid #
     (case c_string (p1_tty cfg) of
        None \<Rightarrow> [Exit 127]
      | Some tty \<Rightarrow>
          Open_Tty tty #
          (if 0 \<le> fd
           then [Dup2 fd 0, Dup2 fd 1, Dup2 fd 2] @ (if 3 \<le> fd then [Close_Fd fd] else []) @ [Take_Tty]
           else []) @ Unblock_Signals # exec_placeholder cfg)"

definition spawn_placeholder :: "'w kernel \<Rightarrow> pid1_config \<Rightarrow> 'w \<Rightarrow> (io_error + int) \<times> 'w" where
  "spawn_placeholder k cfg w = k_fork k (pid1_child cfg) w"

section \<open>The signal loop\<close>

record pid1_state =
  p1_child_pid :: int
  p1_shutdown :: "nat option"

text \<open>What a reaped process and a request to shut down do to the state.\<close>

definition reaped :: "int \<Rightarrow> pid1_state \<Rightarrow> pid1_state" where
  "reaped pid s = (if pid = p1_child_pid s then s\<lparr>p1_child_pid := 0\<rparr> else s)"

partial_function (option) reap_children ::
  "'w kernel \<Rightarrow> pid1_state \<times> 'w \<Rightarrow> (pid1_state \<times> 'w) option" where
  "reap_children k sw =
     (case k_waitpid k (-1) True (snd sw) of ((pid, status), w1) \<Rightarrow>
        if pid \<le> 0 then Some (fst sw, w1)
        else reap_children k (reaped pid (fst sw), w1))"

declare reap_children.simps [code]

definition request_shutdown :: "'w kernel \<Rightarrow> pid1_state \<times> 'w \<Rightarrow> pid1_state \<times> 'w" where
  "request_shutdown k sw = (case sw of (s, w) \<Rightarrow>
     if p1_shutdown s \<noteq> None then (s, w)
     else
       case k_now k (if 0 < p1_child_pid s then k_kill k (p1_child_pid s) SIGTERM w else w) of
         (now, w1) \<Rightarrow> (s\<lparr>p1_shutdown := Some now\<rparr>, w1))"

definition pid1_signal :: "'w kernel \<Rightarrow> nat \<Rightarrow> pid1_state \<times> 'w \<Rightarrow> (pid1_state \<times> 'w) option" where
  "pid1_signal k sig sw =
     (if sig = SIGCHLD then reap_children k sw
      else if sig = SIGHUP then Some sw
      else if sig = SIGTERM \<or> sig = SIGINT then Some (request_shutdown k sw)
      else Some sw)"

fun pid1_drain ::
  "'w kernel \<Rightarrow> (io_error + nat option) list \<Rightarrow> pid1_state \<times> 'w \<Rightarrow> ((io_error + unit) \<times> pid1_state \<times> 'w) option" where
  "pid1_drain k [] sw = Some (Inr (), sw)"
| "pid1_drain k (Inl e # rs) sw = Some (if e = Would_Block then Inr () else Inl e, sw)"
| "pid1_drain k (Inr None # rs) sw = Some (Inr (), sw)"
| "pid1_drain k (Inr (Some sig) # rs) sw =
     (case pid1_signal k sig sw of None \<Rightarrow> None | Some sw' \<Rightarrow> pid1_drain k rs sw')"

fun pid1_drains ::
  "'w kernel \<Rightarrow> (io_error + nat option) list list \<Rightarrow> pid1_state \<times> 'w
     \<Rightarrow> ((io_error + unit) \<times> pid1_state \<times> 'w) option" where
  "pid1_drains k [] sw = Some (Inr (), sw)"
| "pid1_drains k (rs # rss) sw =
     (case pid1_drain k rs sw of
        None \<Rightarrow> None
      | Some (Inl e, sw') \<Rightarrow> Some (Inl e, sw')
      | Some (Inr _, sw') \<Rightarrow> pid1_drains k rss sw')"

text \<open>The timeout, or \<open>None\<close> when the grace is over; the cast to a C int may wrap around.\<close>

definition pid1_timeout :: "nat \<Rightarrow> nat option \<Rightarrow> nat \<Rightarrow> int option" where
  "pid1_timeout grace start now =
     (case start of
        None \<Rightarrow> Some (-1)
      | Some t \<Rightarrow>
          let elapsed = now - t in
          if grace \<le> elapsed then None
          else Some (max 1 (sint (of_nat ((grace - elapsed) div 1000000) :: 32 word))))"

datatype pid1_turn = P1_Again | P1_Rebooting bool | P1_Failed io_error

type_synonym 'w pid1_epoll = "int \<Rightarrow> 'w \<Rightarrow> (io_error + (io_error + nat option) list list) \<times> 'w"

text \<open>\<open>halt\<close> is sync(2) and reboot(2); it says whether the call succeeded.\<close>

definition finish_shutdown :: "'w kernel \<Rightarrow> ('w \<Rightarrow> bool \<times> 'w) \<Rightarrow> pid1_state \<times> 'w \<Rightarrow> pid1_turn \<times> pid1_state \<times> 'w" where
  "finish_shutdown k halt sw = (case sw of (s, w) \<Rightarrow>
     (case halt (if 0 < p1_child_pid s then k_kill k (p1_child_pid s) SIGKILL w else w) of
        (ok, w1) \<Rightarrow> (P1_Rebooting ok, s, w1)))"

definition pid1_loop_turn ::
  "'w kernel \<Rightarrow> 'w pid1_epoll \<Rightarrow> ('w \<Rightarrow> bool \<times> 'w) \<Rightarrow> nat \<Rightarrow> pid1_state \<times> 'w \<Rightarrow> (pid1_turn \<times> pid1_state \<times> 'w) option" where
  "pid1_loop_turn k epoll halt grace sw = (case sw of (s, w) \<Rightarrow>
     (case (case p1_shutdown s of None \<Rightarrow> (0, w) | Some _ \<Rightarrow> k_now k w) of (now, w1) \<Rightarrow>
     (case pid1_timeout grace (p1_shutdown s) now of
        None \<Rightarrow> Some (finish_shutdown k halt (s, w1))
      | Some t \<Rightarrow>
          (case epoll t w1 of
             (Inl e, w2) \<Rightarrow> Some (if e = Interrupted then P1_Again else P1_Failed e, s, w2)
           | (Inr rss, w2) \<Rightarrow>
               map_option (\<lambda>(r, sw3). (case r of Inl e \<Rightarrow> P1_Failed e | Inr _ \<Rightarrow> P1_Again, sw3))
                 (pid1_drains k rss (s, w2))))))"

fun pid1_event_loop ::
  "nat \<Rightarrow> 'w kernel \<Rightarrow> 'w pid1_epoll \<Rightarrow> ('w \<Rightarrow> bool \<times> 'w) \<Rightarrow> nat \<Rightarrow> pid1_state \<times> 'w
     \<Rightarrow> (pid1_turn \<times> pid1_state \<times> 'w) option" where
  "pid1_event_loop 0 k epoll halt grace sw = Some (P1_Again, sw)"
| "pid1_event_loop (Suc n) k epoll halt grace sw =
     (case pid1_loop_turn k epoll halt grace sw of
        None \<Rightarrow> None
      | Some (P1_Again, sw') \<Rightarrow> pid1_event_loop n k epoll halt grace sw'
      | Some r \<Rightarrow> Some r)"

section \<open>The program\<close>

text \<open>How the program ends: \<open>P1_Paused\<close> keeps the machine up for a diagnosis.\<close>

datatype pid1_end = P1_Running | P1_Exit nat | P1_Paused

definition pid1_fatal :: "int \<Rightarrow> pid1_end" where
  "pid1_fatal own_pid = (if own_pid = 1 then P1_Paused else P1_Exit 1)"

definition pid1_main ::
  "nat \<Rightarrow> 'w kernel \<Rightarrow> (string \<Rightarrow> string + toml) \<Rightarrow> 'w mounter \<Rightarrow> (io_error + unit) \<Rightarrow> 'w pid1_epoll
     \<Rightarrow> ('w \<Rightarrow> bool \<times> 'w) \<Rightarrow> bool \<Rightarrow> int \<Rightarrow> 'w \<Rightarrow> pid1_end option" where
  "pid1_main n k parse mnt install epoll halt fake_run own_pid w =
     (if \<not> fake_run \<and> own_pid \<noteq> 1 then Some (pid1_fatal own_pid)
      else
        (case load_pid1_or_default k parse w of (cfg, w1) \<Rightarrow>
        (case (if fake_run then (Inr (), w1) else mount_essentials k mnt w1) of
           (Inl _, _) \<Rightarrow> Some (pid1_fatal own_pid)
         | (Inr _, w2) \<Rightarrow>
             (case install of
                Inl _ \<Rightarrow> Some (pid1_fatal own_pid)
              | Inr _ \<Rightarrow>
                  (case spawn_placeholder k cfg w2 of
                     (Inl _, _) \<Rightarrow> Some (pid1_fatal own_pid)
                   | (Inr pid, w3) \<Rightarrow>
                       map_option (\<lambda>(r, _). case r of P1_Again \<Rightarrow> P1_Running | P1_Rebooting _ \<Rightarrow> P1_Exit 0
                                            | P1_Failed _ \<Rightarrow> pid1_fatal own_pid)
                         (pid1_event_loop n k epoll halt (shutdown_grace cfg)
                            (\<lparr>p1_child_pid = pid, p1_shutdown = None\<rparr>, w3)))))))"

section \<open>The loop tracks its child and keeps its deadline\<close>

text \<open>
  The tracked child is none or an unreaped child of the process; \<open>start\<close> is when a shutdown
  began. Signals sent to the tracked child therefore never reach a process that took its number.
\<close>

definition pid1_ok :: "('w \<Rightarrow> int set) \<Rightarrow> pid1_state \<times> 'w \<Rightarrow> bool" where
  "pid1_ok ch sw \<longleftrightarrow> p1_child_pid (fst sw) = 0 \<or> p1_child_pid (fst sw) \<in> ch (snd sw)"

definition keeps_start :: "pid1_state \<Rightarrow> pid1_state \<Rightarrow> bool" where
  "keeps_start s s' \<longleftrightarrow> (\<forall>t. p1_shutdown s = Some t \<longrightarrow> p1_shutdown s' = Some t)"

lemma keeps_start_trans: "keeps_start s s' \<Longrightarrow> keeps_start s' s'' \<Longrightarrow> keeps_start s s''"
  by (simp add: keeps_start_def)

lemma keeps_start_refl [simp]: "keeps_start s s"
  by (simp add: keeps_start_def)

lemma reap_children_step:
  "k_waitpid k (-1) True w = ((pid, status), w1) \<Longrightarrow>
     reap_children k (s, w) = (if pid \<le> 0 then Some (s, w1) else reap_children k (reaped pid s, w1))"
  by (subst reap_children.simps) simp

lemma reap_children_total:
  assumes k: "kernel_ok k ch"
  shows "pid1_ok ch (s, w) \<Longrightarrow> \<exists>s' w'. reap_children k (s, w) = Some (s', w') \<and> pid1_ok ch (s', w')
    \<and> p1_shutdown s' = p1_shutdown s \<and> (clock_ok k clock \<longrightarrow> clock w \<le> clock w')"
proof (induction "card (ch w)" arbitrary: s w rule: less_induct)
  case less
  obtain pid status w1 where w1: "k_waitpid k (-1) True w = ((pid, status), w1)" by (metis surj_pair)
  have c: "clock_ok k clock \<longrightarrow> clock w \<le> clock w1"
    using clock_laws(4)[of k clock w "-1" True] w1 by simp
  show ?case
  proof (cases "0 < pid")
    case False
    with kernel_waitpid(2)[OF k w1] less.prems c show ?thesis
      by (simp add: reap_children_step[OF w1] pid1_ok_def)
  next
    case True
    with kernel_waitpid(1)[OF k w1] have p: "pid \<in> ch w" "ch w1 = ch w - {pid}" by auto
    have "card (ch w1) < card (ch w)"
      unfolding p(2) by (rule card_Diff1_less[OF kernel_finite[OF k] p(1)])
    moreover have "pid1_ok ch (reaped pid s, w1)"
      using less.prems by (auto simp: pid1_ok_def reaped_def p(2))
    ultimately obtain s' w' where r: "reap_children k (reaped pid s, w1) = Some (s', w')" "pid1_ok ch (s', w')"
      "p1_shutdown s' = p1_shutdown (reaped pid s)" "clock_ok k clock \<longrightarrow> clock w1 \<le> clock w'"
      using less.hyps by blast
    have "reap_children k (s, w) = Some (s', w')" using reap_children_step[OF w1] True r(1) by simp
    moreover have "p1_shutdown s' = p1_shutdown s" by (simp add: r(3) reaped_def)
    ultimately show ?thesis using r(2,4) c by (meson order_trans)
  qed
qed

text \<open>What a piece of the loop keeps, together: the tracked child, the start, the clock.\<close>

definition good_step ::
  "'w kernel \<Rightarrow> ('w \<Rightarrow> int set) \<Rightarrow> ('w \<Rightarrow> nat) \<Rightarrow> pid1_state \<times> 'w \<Rightarrow> pid1_state \<times> 'w \<Rightarrow> bool" where
  "good_step k ch clock sw sw' \<longleftrightarrow> pid1_ok ch sw' \<and> keeps_start (fst sw) (fst sw')
     \<and> (clock_ok k clock \<longrightarrow> clock (snd sw) \<le> clock (snd sw'))"

lemma good_step_trans:
  "good_step k ch clock a b \<Longrightarrow> good_step k ch clock b c \<Longrightarrow> good_step k ch clock a c"
  by (auto simp: good_step_def intro: keeps_start_trans)

lemma good_step_refl: "pid1_ok ch sw \<Longrightarrow> good_step k ch clock sw sw"
  by (simp add: good_step_def)

lemma good_step_ok: "good_step k ch clock a b \<Longrightarrow> pid1_ok ch b"
  by (simp add: good_step_def)

lemma request_shutdown_good:
  assumes k: "kernel_ok k ch" and ok: "pid1_ok ch sw"
  shows "good_step k ch clock sw (request_shutdown k sw)"
proof -
  obtain s w where sw: "sw = (s, w)" by fastforce
  define w0 where "w0 = (if 0 < p1_child_pid s then k_kill k (p1_child_pid s) SIGTERM w else w)"
  obtain now w1 where n: "k_now k w0 = (now, w1)" by fastforce
  have "ch w1 = ch w" using kernel_step(1)[OF k n] kernel_children(3)[OF k] by (simp add: w0_def)
  moreover have "clock w \<le> clock w1" if "clock_ok k clock"
  proof -
    have "clock w \<le> clock w0" using clock_laws(5)[OF that] by (simp add: w0_def)
    with clock_laws(1,2)[OF that n] show ?thesis by simp
  qed
  ultimately show ?thesis
    using ok sw n
    by (auto simp: request_shutdown_def good_step_def pid1_ok_def keeps_start_def w0_def[symmetric])
qed

lemma pid1_signal_good:
  assumes k: "kernel_ok k ch" and ok: "pid1_ok ch sw"
  shows "\<exists>sw'. pid1_signal k sig sw = Some sw' \<and> good_step k ch clock sw sw'"
proof -
  obtain s w where sw: "sw = (s, w)" by fastforce
  with reap_children_total[OF k, of s w clock] ok
  have "\<exists>sw'. reap_children k sw = Some sw' \<and> good_step k ch clock sw sw'"
    by (auto simp: good_step_def keeps_start_def)
  then show ?thesis
    using request_shutdown_good[OF k ok] good_step_refl[OF ok]
    by (simp add: pid1_signal_def del: split_paired_Ex)
qed

lemma pid1_drain_good:
  assumes k: "kernel_ok k ch"
  shows "pid1_ok ch sw \<Longrightarrow> \<exists>r sw'. pid1_drain k rs sw = Some (r, sw') \<and> good_step k ch clock sw sw'"
proof (induction rs arbitrary: sw)
  case (Cons e rs)
  show ?case
  proof (cases "\<exists>sig. e = Inr (Some sig)")
    case True
    then obtain sig where e: "e = Inr (Some sig)" by blast
    from pid1_signal_good[OF k Cons.prems, of sig clock] obtain sw1 where
      s: "pid1_signal k sig sw = Some sw1" "good_step k ch clock sw sw1" by blast
    from Cons.IH[OF good_step_ok[OF s(2)]] obtain r sw' where
      "pid1_drain k rs sw1 = Some (r, sw')" "good_step k ch clock sw1 sw'" by blast
    with s e good_step_trans show ?thesis by fastforce
  next
    case False
    with good_step_refl[OF Cons.prems] show ?thesis by (cases e; cases "projr e") auto
  qed
qed (auto intro: good_step_refl)

lemma pid1_drains_good:
  assumes k: "kernel_ok k ch"
  shows "pid1_ok ch sw \<Longrightarrow> \<exists>r sw'. pid1_drains k rss sw = Some (r, sw') \<and> good_step k ch clock sw sw'"
proof (induction rss arbitrary: sw)
  case (Cons rs rss)
  from pid1_drain_good[OF k Cons.prems, of rs clock] obtain r sw1 where
    s: "pid1_drain k rs sw = Some (r, sw1)" "good_step k ch clock sw sw1" by blast
  show ?case
  proof (cases r)
    case (Inl e)
    with s show ?thesis by auto
  next
    case (Inr u)
    from Cons.IH[OF good_step_ok[OF s(2)]] obtain r' sw' where
      "pid1_drains k rss sw1 = Some (r', sw')" "good_step k ch clock sw1 sw'" by blast
    with s Inr good_step_trans show ?thesis by fastforce
  qed
qed (auto intro: good_step_refl)

text \<open>Epoll leaves the children alone and takes at least \<open>d\<close> nanoseconds.\<close>

definition pid1_epoll_ok :: "'w pid1_epoll \<Rightarrow> ('w \<Rightarrow> int set) \<Rightarrow> ('w \<Rightarrow> nat) \<Rightarrow> nat \<Rightarrow> bool" where
  "pid1_epoll_ok epoll ch clock d \<longleftrightarrow>
     (\<forall>t w. ch (snd (epoll t w)) = ch w \<and> clock w + d \<le> clock (snd (epoll t w)))"

lemma pid1_turn_good:
  assumes k: "kernel_ok k ch" and c: "clock_ok k clock" and e: "pid1_epoll_ok epoll ch clock d"
    and ok: "pid1_ok ch (s, w)"
  shows "\<exists>r s' w'. pid1_loop_turn k epoll halt grace (s, w) = Some (r, s', w')
    \<and> (r = P1_Again \<longrightarrow> pid1_ok ch (s', w') \<and> keeps_start s s' \<and> clock w + d \<le> clock w')
    \<and> (\<forall>t. p1_shutdown s = Some t \<longrightarrow> t + grace \<le> clock w \<longrightarrow> (\<exists>b. r = P1_Rebooting b))"
proof -
  obtain now w1 where n: "(case p1_shutdown s of None \<Rightarrow> (0, w) | Some _ \<Rightarrow> k_now k w) = (now, w1)" by fastforce
  have w1: "ch w1 = ch w" "clock w \<le> clock w1" "p1_shutdown s \<noteq> None \<Longrightarrow> clock w \<le> now"
  proof -
    have "ch w1 = ch w \<and> clock w \<le> clock w1 \<and> (p1_shutdown s \<noteq> None \<longrightarrow> clock w \<le> now)"
    proof (cases "p1_shutdown s")
      case (Some t)
      with n have "k_now k w = (now, w1)" by simp
      with kernel_step(1)[OF k this] clock_laws(1,2)[OF c this] show ?thesis by simp
    qed (use n in simp)
    then show "ch w1 = ch w" "clock w \<le> clock w1" "p1_shutdown s \<noteq> None \<Longrightarrow> clock w \<le> now" by blast+
  qed
  show ?thesis
  proof (cases "pid1_timeout grace (p1_shutdown s) now")
    case None
    then show ?thesis
      by (auto simp: pid1_loop_turn_def n finish_shutdown_def split: prod.split)
  next
    case (Some t)
    then have late: "\<not> (\<exists>t. p1_shutdown s = Some t \<and> t + grace \<le> clock w)"
      using w1(3) by (auto simp: pid1_timeout_def Let_def split: if_splits option.splits)
    obtain x w2 where x: "epoll t w1 = (x, w2)" by fastforce
    have w2: "ch w2 = ch w" "clock w + d \<le> clock w2"
      using e w1(1,2) x unfolding pid1_epoll_ok_def
      by (metis snd_conv, metis add_le_mono1 order_trans snd_conv)
    have ok2: "pid1_ok ch (s, w2)" using ok w2(1) by (simp add: pid1_ok_def)
    show ?thesis
    proof (cases x)
      case (Inl e)
      with Some x n late ok2 w2 show ?thesis by (auto simp: pid1_loop_turn_def)
    next
      case (Inr rss)
      from pid1_drains_good[OF k ok2, of rss clock] obtain r s' w' where
        r: "pid1_drains k rss (s, w2) = Some (r, s', w')" "good_step k ch clock (s, w2) (s', w')" by auto
      then have "clock w2 \<le> clock w'" using c by (simp add: good_step_def)
      then have "clock w + d \<le> clock w'" using w2(2) by simp
      with r Some x n late Inr show ?thesis by (auto simp: pid1_loop_turn_def good_step_def)
    qed
  qed
qed

lemma pid1_loop_good:
  assumes k: "kernel_ok k ch" and c: "clock_ok k clock" and e: "pid1_epoll_ok epoll ch clock d"
  shows "pid1_ok ch (s, w) \<Longrightarrow> \<exists>r s' w'. pid1_event_loop n k epoll halt grace (s, w) = Some (r, s', w')
    \<and> (r = P1_Again \<longrightarrow> pid1_ok ch (s', w') \<and> keeps_start s s')
    \<and> (\<forall>t. p1_shutdown s = Some t \<longrightarrow> 0 < n \<longrightarrow> t + grace \<le> clock w + (n - 1) * d \<longrightarrow> r \<noteq> P1_Again)"
proof (induction n arbitrary: s w)
  case (Suc n)
  from pid1_turn_good[OF k c e Suc.prems, of halt grace] obtain r s1 w1 where
    one: "pid1_loop_turn k epoll halt grace (s, w) = Some (r, s1, w1)"
    "r = P1_Again \<longrightarrow> pid1_ok ch (s1, w1) \<and> keeps_start s s1 \<and> clock w + d \<le> clock w1"
    "\<forall>t. p1_shutdown s = Some t \<longrightarrow> t + grace \<le> clock w \<longrightarrow> (\<exists>b. r = P1_Rebooting b)"
    by (elim exE conjE) (rule that)
  show ?case
  proof (cases "r = P1_Again")
    case False
    with one(1) show ?thesis by (cases r) auto
  next
    case True
    with one(2) have s1: "pid1_ok ch (s1, w1)" "keeps_start s s1" "clock w + d \<le> clock w1" by auto
    from Suc.IH[OF s1(1)] obtain r' s' w' where
      rest: "pid1_event_loop n k epoll halt grace (s1, w1) = Some (r', s', w')"
      "r' = P1_Again \<longrightarrow> pid1_ok ch (s', w') \<and> keeps_start s1 s'"
      "\<forall>t. p1_shutdown s1 = Some t \<longrightarrow> 0 < n \<longrightarrow> t + grace \<le> clock w1 + (n - 1) * d \<longrightarrow> r' \<noteq> P1_Again"
      by (elim exE conjE) (rule that)
    have "r' \<noteq> P1_Again" if t: "p1_shutdown s = Some t" "t + grace \<le> clock w + n * d" for t
    proof -
      have n: "0 < n" using one(3) t True by (cases n) auto
      then have "n * d = d + (n - 1) * d" by (cases n) simp_all
      with t(2) s1(3) have "t + grace \<le> clock w1 + (n - 1) * d" by simp
      with rest(3) s1(2) t(1) n show ?thesis by (simp add: keeps_start_def)
    qed
    with one(1) rest(1,2) s1(2) True keeps_start_trans show ?thesis by fastforce
  qed
qed simp


text \<open>
  The wait for the rest of the grace period is at least a millisecond, so the loop never
  spins, and at most the rest in whole milliseconds (or that one); it is exactly the rest as
  long as that fits in a C int, and shorter, never longer, when the cast wraps around.
\<close>

lemma pid1_timeout_bounds:
  assumes "pid1_timeout grace (Some start) now = Some t"
  shows "1 \<le> t \<and> t \<le> max 1 (int ((grace - (now - start)) div 1000000))
    \<and> ((grace - (now - start)) div 1000000 < 2 ^ 31 \<longrightarrow>
         t = max 1 (int ((grace - (now - start)) div 1000000)))"
proof -
  let ?m = "(grace - (now - start)) div 1000000"
  have t: "t = max 1 (sint (of_nat ?m :: 32 word))"
    using assms by (simp add: pid1_timeout_def Let_def split: if_splits)
  have "sint (of_nat ?m :: 32 word) = signed_take_bit 31 (int ?m)" by (simp add: signed_of_nat)
  then have "sint (of_nat ?m :: 32 word) \<le> int ?m" by (simp add: signed_take_bit_int_less_eq_self_iff)
  moreover have "sint (of_nat ?m :: 32 word) = int ?m" if "?m < 2 ^ 31"
    using that by (simp add: signed_of_nat signed_take_bit_int_eq_self_iff)
  ultimately show ?thesis by (auto simp: t le_max_iff_disj)
qed

section \<open>Witnesses\<close>

definition idle_kernel :: "nat kernel" where
  "idle_kernel =
     \<lparr>k_now = (\<lambda>w. (w, w)), k_sleep = (\<lambda>d w. w + d), k_fork = (\<lambda>_ w. (Inl (Other_Error ''EAGAIN''), w)),
      k_clone_into = (\<lambda>_ _ w. (Inl (Other_Error ''EAGAIN''), w)), k_waitpid = (\<lambda>_ _ w. ((-1, 0), w)),
      k_kill = (\<lambda>_ _ w. w), k_getpwnam = (\<lambda>_ w. (None, w)), k_getgrnam = (\<lambda>_ w. (None, w)),
      k_open = (\<lambda>_ _ w. (Inl Not_Found, w)), k_close = (\<lambda>_ w. w), k_create_dir_all = (\<lambda>_ w. (Inr (), w)),
      k_remove_dir = (\<lambda>_ w. (Inr (), w)), k_write_file = (\<lambda>_ _ w. (Inr (), w)),
      k_read_file = (\<lambda>_ w. (Inl Not_Found, w)), k_remove_file = (\<lambda>_ w. (Inl Not_Found, w)),
      k_read_dir = (\<lambda>_ w. (Inl Not_Found, w))\<rparr>"

text \<open>A machine without processes whose epoll reports a signal every second.\<close>

definition second_epoll :: "nat pid1_epoll" where
  "second_epoll t w = (Inr [[Inr (Some SIGTERM), Inl Would_Block]], w + 1000000000)"

lemma idle_kernel_ok: "kernel_ok idle_kernel (\<lambda>_. {})" "clock_ok idle_kernel id"
  by (simp_all add: kernel_ok_def same_children_def clock_ok_def idle_kernel_def)


theorem pid1_timeout_bounds_witness:
  "pid1_timeout 10000000000 (Some 5) 2000000005 = Some 8000"
proof -
  have "pid1_timeout 10000000000 (Some 5) 2000000005 \<noteq> None" by (simp add: pid1_timeout_def)
  then obtain t where t: "pid1_timeout 10000000000 (Some 5) 2000000005 = Some t" by blast
  from pid1_timeout_bounds[OF t] have "t = 8000" by simp
  with t show ?thesis by simp
qed

end
