(* ===== verification/Initramfs.thy ===== *)
theory Initramfs
  imports Pid1
begin

text \<open>
  The initramfs, crates/writeonce-initramfs/src: the kernel command line, the search for the
  root device, the modules it loads, the switch to the real root and the order in which
  \<open>main\<close> runs them. Devices, sysfs and mounts belong to the world; the recovery shell is where
  every failing path ends and is not entered.
\<close>

section \<open>The kernel command line\<close>

datatype root_spec = Root_Uuid string | Root_PartUuid string | Root_Label string | Root_Device string

record cmd_line =
  cl_root :: "root_spec option"
  cl_rootfstype :: "string option"
  cl_rootflags :: "string option"
  cl_init :: string
  cl_recovery :: bool
  cl_rootwait :: u64
  cl_mount_flags :: u64

definition parse_root :: "string \<Rightarrow> root_spec" where
  "parse_root v =
     (case strip_prefix ''UUID='' v of Some u \<Rightarrow> Root_Uuid u | None \<Rightarrow>
     (case strip_prefix ''PARTUUID='' v of Some u \<Rightarrow> Root_PartUuid u | None \<Rightarrow>
     (case strip_prefix ''LABEL='' v of Some u \<Rightarrow> Root_Label u | None \<Rightarrow> Root_Device v)))"

definition default_cmd_line :: cmd_line where
  "default_cmd_line =
     \<lparr>cl_root = None, cl_rootfstype = None, cl_rootflags = None, cl_init = ''/sbin/writeonce-pid1'',
      cl_recovery = False, cl_rootwait = 30, cl_mount_flags = MS_NOATIME\<rparr>"

definition cmd_token :: "cmd_line \<Rightarrow> string \<Rightarrow> cmd_line" where
  "cmd_token out tok =
     (case strip_prefix ''root='' tok of Some v \<Rightarrow> out\<lparr>cl_root := Some (parse_root v)\<rparr> | None \<Rightarrow>
     (case strip_prefix ''rootfstype='' tok of Some v \<Rightarrow> out\<lparr>cl_rootfstype := Some v\<rparr> | None \<Rightarrow>
     (case strip_prefix ''rootflags='' tok of Some v \<Rightarrow> out\<lparr>cl_rootflags := Some v\<rparr> | None \<Rightarrow>
     (case strip_prefix ''init='' tok of Some v \<Rightarrow> out\<lparr>cl_init := v\<rparr> | None \<Rightarrow>
     (case strip_prefix ''writeonce.rootwait='' tok of
        Some v \<Rightarrow> out\<lparr>cl_rootwait := (case parse_u64 v of Some n \<Rightarrow> n | None \<Rightarrow> 0)\<rparr> | None \<Rightarrow>
      if tok = ''rw'' then out\<lparr>cl_mount_flags := cl_mount_flags out AND NOT MS_RDONLY\<rparr>
      else if tok = ''ro'' then out\<lparr>cl_mount_flags := cl_mount_flags out OR MS_RDONLY\<rparr>
      else if tok = ''wo.recovery'' \<or> tok = ''wo.fake'' then out\<lparr>cl_recovery := True\<rparr>
      else out)))))"

definition parse_cmdline :: "string \<Rightarrow> cmd_line" where
  "parse_cmdline s = foldl cmd_token default_cmd_line (split_whitespace s)"

definition load_cmdline :: "'w kernel \<Rightarrow> 'w \<Rightarrow> cmd_line \<times> 'w" where
  "load_cmdline k w =
     (case k_read_file k ''/proc/cmdline'' w of (r, w') \<Rightarrow>
        (parse_cmdline (case r of Inl _ \<Rightarrow> [] | Inr body \<Rightarrow> body), w'))"

section \<open>The ext4 superblock\<close>

text \<open>What a device holds, from its first byte, or \<open>None\<close> if it cannot be opened.\<close>

type_synonym device_bytes = "u8 list option"

definition read_ext4_superblock :: "device_bytes \<Rightarrow> u8 list option" where
  "read_ext4_superblock dev = do {
     bytes \<leftarrow> dev;
     let buf = take 1024 (drop 1024 bytes);
     if length buf < 1024 then None
     else if buf ! 56 = 0x53 \<and> buf ! 57 = 0xEF then Some buf else None }"

definition hex_digit :: "nat \<Rightarrow> char" where
  "hex_digit n = (if n < 10 then char_of (48 + n) else char_of (87 + n))"

text \<open>\<open>{:02x}\<close>\<close>

definition hex_byte :: "u8 \<Rightarrow> string" where
  "hex_byte b = [hex_digit (unat b div 16), hex_digit (unat b mod 16)]"

definition uuid_text :: "u8 list \<Rightarrow> string" where
  "uuid_text u =
     (let h = (\<lambda>i j. concat (map (\<lambda>n. hex_byte (u ! n)) [i..<j]))
      in h 0 4 @ ''-'' @ h 4 6 @ ''-'' @ h 6 8 @ ''-'' @ h 8 10 @ ''-'' @ h 10 16)"

definition read_ext4_uuid :: "device_bytes \<Rightarrow> string option" where
  "read_ext4_uuid dev = map_option (\<lambda>buf. uuid_text (take 16 (drop 104 buf))) (read_ext4_superblock dev)"

definition read_ext4_label :: "device_bytes \<Rightarrow> string option" where
  "read_ext4_label dev = do {
     buf \<leftarrow> read_ext4_superblock dev;
     let label = takeWhile (\<lambda>b. b \<noteq> 0) (take 16 (drop 120 buf));
     if \<not> utf8_valid (map unat label) \<or> label = [] then None
     else Some (map (\<lambda>b. char_of (unat b)) label) }"

section \<open>The root device\<close>

text \<open>Which device files exist, and what they hold.\<close>

record 'w devices =
  dev_exists :: "string \<Rightarrow> 'w \<Rightarrow> bool"
  dev_bytes :: "string \<Rightarrow> 'w \<Rightarrow> device_bytes"

datatype discover_error = Unsupported string | Root_Not_Found string | Discover_Io io_error

definition sys_block :: string where "sys_block = ''/sys/class/block''"

definition dev_path :: "dir_entry \<Rightarrow> string" where
  "dev_path e = ''/dev/'' @ de_name e"

fun find_partuuid ::
  "'w kernel \<Rightarrow> 'w devices \<Rightarrow> string \<Rightarrow> (io_error + dir_entry) list \<Rightarrow> 'w \<Rightarrow> (discover_error + string) \<times> 'w" where
  "find_partuuid k dv uuid [] w = (Inl (Root_Not_Found uuid), w)"
| "find_partuuid k dv uuid (Inl e # es) w = (Inl (Discover_Io e), w)"
| "find_partuuid k dv uuid (Inr d # es) w =
     (case k_read_file k (sys_block @ ''/'' @ de_name d @ ''/uuid'') w of
        (Inr body, w') \<Rightarrow>
          if eq_ignore_ascii_case (trim body) uuid \<and> dev_exists dv (dev_path d) w'
          then (Inr (dev_path d), w') else find_partuuid k dv uuid es w'
      | (Inl _, w') \<Rightarrow> find_partuuid k dv uuid es w')"

fun existing_devices :: "'w devices \<Rightarrow> 'w \<Rightarrow> (io_error + dir_entry) list \<Rightarrow> discover_error + string list" where
  "existing_devices dv w [] = Inr []"
| "existing_devices dv w (Inl e # es) = Inl (Discover_Io e)"
| "existing_devices dv w (Inr d # es) =
     bind_r (existing_devices dv w es)
       (\<lambda>ds. Inr (if dev_exists dv (dev_path d) w then dev_path d # ds else ds))"

definition candidate_block_devices ::
  "'w kernel \<Rightarrow> 'w devices \<Rightarrow> 'w \<Rightarrow> (discover_error + string list) \<times> 'w" where
  "candidate_block_devices k dv w =
     (case k_read_dir k sys_block w of
        (Inl e, w') \<Rightarrow> (Inl (Discover_Io e), w')
      | (Inr es, w') \<Rightarrow> (existing_devices dv w' es, w'))"

definition probe_devices ::
  "'w kernel \<Rightarrow> 'w devices \<Rightarrow> (device_bytes \<Rightarrow> string option) \<Rightarrow> string \<Rightarrow> string \<Rightarrow> 'w
     \<Rightarrow> (discover_error + string) \<times> 'w" where
  "probe_devices k dv probe want what w =
     then_r (candidate_block_devices k dv w) (\<lambda>ds w'.
       (case find (\<lambda>d. probe (dev_bytes dv d w') = Some want) ds of
          Some d \<Rightarrow> Inr d | None \<Rightarrow> Inl (Root_Not_Found what), w'))"

fun locate_root_once ::
  "'w kernel \<Rightarrow> 'w devices \<Rightarrow> root_spec \<Rightarrow> 'w \<Rightarrow> (discover_error + string) \<times> 'w" where
  "locate_root_once k dv (Root_Device p) w =
     (if dev_exists dv p w then Inr p else Inl (Root_Not_Found p), w)"
| "locate_root_once k dv (Root_PartUuid uuid) w =
     (case k_read_dir k sys_block w of
        (Inl e, w') \<Rightarrow> (Inl (Discover_Io e), w')
      | (Inr es, w') \<Rightarrow> find_partuuid k dv uuid es w')"
| "locate_root_once k dv (Root_Label label) w =
     probe_devices k dv read_ext4_label label (''LABEL='' @ label) w"
| "locate_root_once k dv (Root_Uuid uuid) w =
     probe_devices k dv read_ext4_uuid (to_ascii_lowercase uuid) (''UUID='' @ uuid) w"

partial_function (option) poll_root ::
  "'w kernel \<Rightarrow> 'w devices \<Rightarrow> root_spec \<Rightarrow> nat \<Rightarrow> 'w \<Rightarrow> ((discover_error + string) \<times> 'w) option" where
  "poll_root k dv spec deadline w =
     (case locate_root_once k dv spec w of
        (Inr p, w1) \<Rightarrow> Some (Inr p, w1)
      | (Inl (Root_Not_Found s), w1) \<Rightarrow>
          (case k_now k w1 of (now, w2) \<Rightarrow>
             if now < deadline then poll_root k dv spec deadline (k_sleep k (100 * 1000000) w2)
             else Some (Inl (Root_Not_Found s), w2))
      | (Inl e, w1) \<Rightarrow> Some (Inl e, w1))"

declare poll_root.simps [code]

text \<open>\<open>None\<close>: the sum of now and the wait panics.\<close>

definition locate_root ::
  "'w kernel \<Rightarrow> 'w devices \<Rightarrow> root_spec \<Rightarrow> u64 \<Rightarrow> 'w \<Rightarrow> ((discover_error + string) \<times> 'w) option" where
  "locate_root k dv spec secs w =
     (case k_now k w of (now, w1) \<Rightarrow> do {
        deadline \<leftarrow> instant_add now (unat secs * 1000000000);
        poll_root k dv spec deadline w1 })"

section \<open>Kernel modules\<close>

definition extend_with_module_line :: "string list \<Rightarrow> string \<Rightarrow> string list" where
  "extend_with_module_line out line =
     (let l = trim line in if l = [] \<or> starts_with ''#'' l then out else out @ [l])"

definition module_names :: "string list \<Rightarrow> io_error + string \<Rightarrow> string list" where
  "module_names out r = (case r of Inl _ \<Rightarrow> out | Inr body \<Rightarrow> foldl extend_with_module_line out (lines body))"

text \<open>The names of the configuration file, then those of the directory's files in path order.\<close>

definition names_from_config :: "io_error + string \<Rightarrow> io_error + (io_error + dir_entry) list \<Rightarrow> string list" where
  "names_from_config conf listing =
     (let names = module_names [] conf in
      case listing of
        Inl _ \<Rightarrow> names
      | Inr es \<Rightarrow>
          foldl (\<lambda>out d. module_names out (de_body d)) names
            (sort_key de_name (List.map_filter (\<lambda>e. case e of Inl _ \<Rightarrow> None | Inr d \<Rightarrow> Some d) es)))"

text \<open>A directory tree, each directory with its entries in listing order, or unreadable.\<close>

datatype tree = Tree_File | Tree_Dir "(string \<times> tree) list option"

definition is_ko :: "string \<Rightarrow> string \<Rightarrow> bool" where
  "is_ko name n \<longleftrightarrow> n = name @ ''.ko'' \<or> n = name @ ''.ko.xz'' \<or> n = name @ ''.ko.zst''"

fun walk :: "(string \<Rightarrow> bool) \<Rightarrow> string \<Rightarrow> tree \<Rightarrow> string option"
  and walk_entries :: "(string \<Rightarrow> bool) \<Rightarrow> string \<Rightarrow> (string \<times> tree) list \<Rightarrow> string option" where
  "walk p path Tree_File = None"
| "walk p path (Tree_Dir None) = None"
| "walk p path (Tree_Dir (Some es)) = walk_entries p path es"
| "walk_entries p path [] = None"
| "walk_entries p path ((n, Tree_File) # es) =
     (if p n then Some (path @ ''/'' @ n) else walk_entries p path es)"
| "walk_entries p path ((n, Tree_Dir d) # es) =
     (case walk p (path @ ''/'' @ n) (Tree_Dir d) of
        Some found \<Rightarrow> Some found | None \<Rightarrow> walk_entries p path es)"

definition find_ko :: "string \<Rightarrow> tree \<Rightarrow> string \<Rightarrow> string option" where
  "find_ko root t name = walk (is_ko name) root t"

text \<open>The modules handed to finit_module, in order; what that call returns is only logged.\<close>

definition load_configured :: "tree \<Rightarrow> string list \<Rightarrow> string list" where
  "load_configured t names = List.map_filter (find_ko ''/lib/modules'' t) names"

section \<open>Switching to the real root\<close>

datatype switch_call =
    Sw_Mkdir string | Sw_Mount string string string u64 | Sw_Move string string
  | Sw_Chdir string | Sw_Chroot string | Sw_Execve string "string list" "string list"

text \<open>The calls made, given which succeed and which mount points exist; failing calls end it.\<close>

definition sw_then :: "(switch_call \<Rightarrow> bool) \<Rightarrow> switch_call \<Rightarrow> switch_call list \<Rightarrow> switch_call list" where
  "sw_then ok c rest = c # (if ok c then rest else [])"

definition move_pseudo :: "(string \<Rightarrow> bool) \<Rightarrow> string \<Rightarrow> switch_call list" where
  "move_pseudo exists d =
     Sw_Mkdir (''/sysroot'' @ d) # (if exists d then [Sw_Move d (''/sysroot'' @ d)] else [])"

definition switch_env :: "string list" where
  "switch_env = [''PATH=/usr/bin:/usr/sbin:/bin:/sbin'', ''TERM=linux'']"

definition switch_and_exec ::
  "(switch_call \<Rightarrow> bool) \<Rightarrow> (string \<Rightarrow> bool) \<Rightarrow> string \<Rightarrow> string \<Rightarrow> u64 \<Rightarrow> string \<Rightarrow> switch_call list" where
  "switch_and_exec ok exists dev fstype flags init_path =
     Sw_Mkdir ''/sysroot'' #
     sw_then ok (Sw_Mount dev ''/sysroot'' fstype flags)
       (concat (map (move_pseudo exists) [''/proc'', ''/sys'', ''/dev''])
        @ sw_then ok (Sw_Chdir ''/sysroot'')
            (sw_then ok (Sw_Move ''.'' ''/'')
              (sw_then ok (Sw_Chroot ''.'')
                (sw_then ok (Sw_Chdir ''/'')
                  (case c_string init_path of
                     None \<Rightarrow> [] | Some prog \<Rightarrow> [Sw_Execve prog [prog] switch_env])))))"

section \<open>The program\<close>

definition ESSENTIALS :: "mount_spec list" where
  "ESSENTIALS =
     [\<lparr>ms_source = ''proc'', ms_target = ''/proc'', ms_fstype = ''proc'', ms_flags = 0, ms_data = None\<rparr>,
      \<lparr>ms_source = ''sysfs'', ms_target = ''/sys'', ms_fstype = ''sysfs'', ms_flags = 0, ms_data = None\<rparr>,
      \<lparr>ms_source = ''devtmpfs'', ms_target = ''/dev'', ms_fstype = ''devtmpfs'', ms_flags = 0,
       ms_data = Some ''mode=755''\<rparr>]"

datatype init_end = Recovery string | Fake_Done | Switched "switch_call list"

text \<open>
  \<open>None\<close> is the panic of the root wait; \<open>load\<close> is what loading the modules of \<open>load_configured\<close>
  does to the world, whatever it returns.
\<close>

definition initramfs_run ::
  "'w kernel \<Rightarrow> 'w mounter \<Rightarrow> ('w \<Rightarrow> 'w) \<Rightarrow> 'w devices \<Rightarrow> (switch_call \<Rightarrow> bool) \<Rightarrow> (string \<Rightarrow> bool) \<Rightarrow> bool
     \<Rightarrow> int \<Rightarrow> 'w \<Rightarrow> (init_end \<times> 'w) option" where
  "initramfs_run k mnt load dv ok exists fake_run own_pid w =
     (if \<not> fake_run \<and> own_pid \<noteq> 1 then Some (Recovery ''not running as PID 1'', w)
      else
        (case (if fake_run then (Inr (), w) else mount_all k mnt ESSENTIALS w) of
           (Inl e, w1) \<Rightarrow> Some (Recovery ''mount'', w1)
         | (Inr _, w1) \<Rightarrow>
             (case load_cmdline k w1 of (cmd, w2) \<Rightarrow>
                if cl_recovery cmd then Some (Recovery ''wo.recovery'', w2)
                else
                  (let wl = (if fake_run then w2 else load w2) in
                   case cl_root cmd of
                     None \<Rightarrow> Some (Recovery ''no root= on /proc/cmdline'', wl)
                   | Some spec \<Rightarrow>
                       (case locate_root k dv spec (cl_rootwait cmd) wl of
                          None \<Rightarrow> None
                        | Some (Inl e, w3) \<Rightarrow> Some (Recovery ''root device'', w3)
                        | Some (Inr dev, w3) \<Rightarrow>
                            Some (if fake_run then Fake_Done
                                  else Switched (switch_and_exec ok exists dev
                                         (case cl_rootfstype cmd of None \<Rightarrow> ''ext4'' | Some t \<Rightarrow> t)
                                         (cl_mount_flags cmd) (cl_init cmd)), w3))))))"

section \<open>What the command line means\<close>

lemma strip_prefix_cases:
  "strip_prefix p t = (if starts_with p t then Some (drop (length p) t) else None)"
  by (cases "strip_prefix p t") (auto simp: starts_with_def strip_prefix_iff)

lemma starts_with_code [simp]:
  "starts_with [] t" "starts_with (c # cs) [] = False" "starts_with (c # cs) (d # ds) \<longleftrightarrow> c = d \<and> starts_with cs ds"
  by (auto simp: starts_with_def)

lemma starts_with_append_exclusive:
  "starts_with p t \<Longrightarrow> starts_with q t \<Longrightarrow> starts_with p q \<or> starts_with q p"
  by (auto simp: starts_with_iff append_eq_append_conv2)

lemma foldl_last:
  assumes "\<And>out tok. f (step out tok) = (if P tok then g tok else f out)"
  shows "f (foldl step out ts) = (if filter P ts = [] then f out else g (last (filter P ts)))"
  by (induction ts rule: rev_induct) (auto simp: assms)

lemma foldl_any:
  assumes "\<And>out tok. f (step out tok) \<longleftrightarrow> f out \<or> P tok"
  shows "f (foldl step out ts) \<longleftrightarrow> f out \<or> (\<exists>t \<in> set ts. P t)"
  by (induction ts rule: rev_induct) (auto simp: assms)

lemma token_exclusive:
  "starts_with ''init='' t \<Longrightarrow> \<not> starts_with ''root='' t \<and> \<not> starts_with ''rootfstype='' t \<and> \<not> starts_with ''rootflags='' t"
  "starts_with ''writeonce.rootwait='' t \<Longrightarrow> \<not> starts_with ''root='' t \<and> \<not> starts_with ''rootfstype='' t
     \<and> \<not> starts_with ''rootflags='' t \<and> \<not> starts_with ''init='' t"
  by (cases t; simp)+

text \<open>The mount flags only differ in the read-only bit.\<close>

lemma flags_ro_rw:
  "MS_NOATIME AND NOT MS_RDONLY = MS_NOATIME" "(MS_NOATIME OR MS_RDONLY) AND NOT MS_RDONLY = MS_NOATIME"
  "(MS_NOATIME OR MS_RDONLY) OR MS_RDONLY = MS_NOATIME OR MS_RDONLY"
  by (simp_all add: MS_NOATIME_def MS_RDONLY_def)

lemma cmd_token_flags:
  "cl_mount_flags (cmd_token out tok) =
     (if tok = ''rw'' then cl_mount_flags out AND NOT MS_RDONLY
      else if tok = ''ro'' then cl_mount_flags out OR MS_RDONLY else cl_mount_flags out)"
  by (auto simp: cmd_token_def split: option.splits)

lemma fold_flags:
  "cl_mount_flags (foldl cmd_token default_cmd_line ts) =
     (if filter (\<lambda>t. t = ''rw'' \<or> t = ''ro'') ts \<noteq> [] \<and> last (filter (\<lambda>t. t = ''rw'' \<or> t = ''ro'') ts) = ''ro''
      then MS_NOATIME OR MS_RDONLY else MS_NOATIME)"
proof (induction ts rule: rev_induct)
  case (snoc t ts)
  then show ?case
    by (cases "t = ''rw''"; cases "t = ''ro''") (simp_all add: cmd_token_flags flags_ro_rw)
qed (simp add: default_cmd_line_def)

lemma parse_cmdline_root:
  "cl_root (parse_cmdline s) =
      (if filter (starts_with ''root='') (split_whitespace s) = [] then None
       else Some (parse_root (drop (length ''root='') (last (filter (starts_with ''root='') (split_whitespace s))))))"
proof -
  have "cl_root (foldl cmd_token default_cmd_line ts) =
      (if filter (starts_with ''root='') ts = [] then cl_root default_cmd_line
       else Some (parse_root (drop (length ''root='') (last (filter (starts_with ''root='') ts)))))" for ts
    by (rule foldl_last) (simp add: cmd_token_def strip_prefix_cases)
  then show ?thesis by (simp add: parse_cmdline_def default_cmd_line_def)
qed


section \<open>The search for the root device ends\<close>

definition files_clock_ok :: "'w kernel \<Rightarrow> ('w \<Rightarrow> nat) \<Rightarrow> bool" where
  "files_clock_ok k clock \<longleftrightarrow>
     (\<forall>p w. clock w \<le> clock (snd (k_read_file k p w)) \<and> clock w \<le> clock (snd (k_read_dir k p w)))"

text \<open>A device that was found exists, and its superblock is the one asked for.\<close>

fun root_matches :: "'w devices \<Rightarrow> root_spec \<Rightarrow> 'w \<Rightarrow> string \<Rightarrow> bool" where
  "root_matches dv (Root_Device q) w p \<longleftrightarrow> dev_exists dv p w \<and> p = q"
| "root_matches dv (Root_PartUuid u) w p \<longleftrightarrow> dev_exists dv p w"
| "root_matches dv (Root_Label l) w p \<longleftrightarrow> dev_exists dv p w \<and> read_ext4_label (dev_bytes dv p w) = Some l"
| "root_matches dv (Root_Uuid u) w p \<longleftrightarrow>
     dev_exists dv p w \<and> read_ext4_uuid (dev_bytes dv p w) = Some (to_ascii_lowercase u)"

lemma find_partuuid_spec:
  assumes "files_clock_ok k clock"
  shows "find_partuuid k dv u es w = (r, w') \<Longrightarrow> clock w \<le> clock w' \<and> (\<forall>p. r = Inr p \<longrightarrow> dev_exists dv p w')"
proof (induction es arbitrary: w)
  case (Cons e es)
  show ?case
  proof (cases e)
    case (Inr d)
    obtain x w1 where x: "k_read_file k (sys_block @ ''/'' @ de_name d @ ''/uuid'') w = (x, w1)" by fastforce
    then have "clock w \<le> clock w1" using assms unfolding files_clock_ok_def by (metis snd_conv)
    with Cons.IH[of w1] Cons.prems x Inr show ?thesis
      by (cases x) (auto split: if_splits intro: order_trans)
  qed (use Cons.prems in auto)
qed auto

lemma existing_devices_exist:
  "existing_devices dv w es = Inr ds \<Longrightarrow> d \<in> set ds \<Longrightarrow> dev_exists dv d w"
  by (induction dv w es arbitrary: ds rule: existing_devices.induct) (auto simp: bind_r_Inr split: if_splits)

lemma probe_devices_spec:
  assumes c: "files_clock_ok k clock" and r: "probe_devices k dv probe want what w = (r, w')"
  shows "clock w \<le> clock w' \<and> (\<forall>p. r = Inr p \<longrightarrow> dev_exists dv p w' \<and> probe (dev_bytes dv p w') = Some want)"
proof -
  obtain x w1 where x: "k_read_dir k sys_block w = (x, w1)" by fastforce
  then have "clock w \<le> clock w1" using c unfolding files_clock_ok_def by (metis snd_conv)
  with r x show ?thesis
    by (cases x)
       (auto simp: probe_devices_def candidate_block_devices_def then_r_def find_Some_iff
         intro!: existing_devices_exist[OF _ nth_mem] split: sum.splits option.splits)
qed

lemma locate_root_once_spec:
  assumes c: "files_clock_ok k clock" and r: "locate_root_once k dv spec w = (r, w')"
  shows "clock w \<le> clock w' \<and> (\<forall>p. r = Inr p \<longrightarrow> root_matches dv spec w' p)"
proof (cases spec)
  case (Root_PartUuid u)
  obtain x w1 where x: "k_read_dir k sys_block w = (x, w1)" by fastforce
  then have "clock w \<le> clock w1" using c unfolding files_clock_ok_def by (metis snd_conv)
  with find_partuuid_spec[OF c, of dv u _ w1 r w'] r x Root_PartUuid show ?thesis
    by (cases x) (auto intro: order_trans)
qed (use r probe_devices_spec[OF c] in \<open>auto split: if_splits\<close>)

lemma poll_root_total:
  assumes c: "clock_ok k clock" "files_clock_ok k clock"
  shows "\<exists>r w'. poll_root k dv spec deadline w = Some (r, w')
    \<and> (case r of Inr p \<Rightarrow> \<exists>w1. root_matches dv spec w1 p
       | Inl (Root_Not_Found _) \<Rightarrow> deadline \<le> clock w' | Inl _ \<Rightarrow> True)"
proof (induction "deadline - clock w" arbitrary: w rule: less_induct)
  case less
  obtain x w1 where x: "locate_root_once k dv spec w = (x, w1)" by fastforce
  note one = locate_root_once_spec[OF c(2) x]
  show ?case
  proof (cases "\<exists>s. x = Inl (Root_Not_Found s)")
    case False
    then have "poll_root k dv spec deadline w = Some (x, w1)"
      by (subst poll_root.simps) (auto simp: x split: sum.split discover_error.split)
    with one False show ?thesis by (auto split: sum.split discover_error.split)
  next
    case True
    then obtain s where s: "x = Inl (Root_Not_Found s)" by blast
    obtain now w2 where n: "k_now k w1 = (now, w2)" by fastforce
    have now: "clock w1 \<le> now" "now \<le> clock w2" using clock_laws(1,2)[OF c(1) n] .
    have step: "poll_root k dv spec deadline w =
        (if now < deadline then poll_root k dv spec deadline (k_sleep k (100 * 1000000) w2)
         else Some (Inl (Root_Not_Found s), w2))"
      by (subst poll_root.simps) (simp add: x s n)
    show ?thesis
    proof (cases "now < deadline")
      case True
      let ?w = "k_sleep k (100 * 1000000) w2"
      have "clock w < clock ?w" using clock_laws(3)[OF c(1), of w2 "100 * 1000000"] one now by simp
      moreover have "clock w < deadline" using one now True by simp
      ultimately have "deadline - clock ?w < deadline - clock w" by simp
      from less.hyps[OF this] step True show ?thesis by simp
    next
      case False
      with step now show ?thesis by simp
    qed
  qed
qed


text \<open>A wait of all ones on the command line panics the first process.\<close>

lemma huge_rootwait_panics:
  "cl_rootwait (parse_cmdline ''root=/dev/sda1 writeonce.rootwait=18446744073709551615'') = 18446744073709551615"
  "locate_root idle_kernel dv spec 18446744073709551615 w = None"
proof -
  show "cl_rootwait (parse_cmdline ''root=/dev/sda1 writeonce.rootwait=18446744073709551615'') = 18446744073709551615"
    by code_simp
  show "locate_root idle_kernel dv spec 18446744073709551615 w = None"
    by (simp add: locate_root_def idle_kernel_def instant_add_def)
qed

definition usb_devices :: "nat devices" where
  "usb_devices =
     \<lparr>dev_exists = (\<lambda>p w. p = ''/dev/sdb2'' \<and> 2500000000 \<le> w), dev_bytes = (\<lambda>_ _. None)\<rparr>"


end
