(* ===== verification/Boot_Chain.thy ===== *)
theory Boot_Chain
  imports Initramfs
begin

text \<open>
  From the installer to the root device: the installer writes the kernel command line to the
  EFI system partition (crates/writeonce-installer/src/bootloader.rs), the UEFI program hands
  it to the kernel (crates/writeonce-bootloader/src/main.rs), and the initramfs parses it. The
  firmware's protocols are arguments; a status is a number. Messages are left out.
\<close>

section \<open>The installer's part\<close>

definition root_placeholder :: string where "root_placeholder = ''__ROOT_UUID__''"

definition format_cmdline :: "string \<Rightarrow> string \<Rightarrow> string" where
  "format_cmdline template root_uuid = replace root_placeholder root_uuid template"

record esp_layout =
  esp_mount :: string
  esp_bootloader :: string
  esp_kernel :: string
  esp_initramfs :: string
  esp_cmdline :: string

datatype esp_call = Esp_Mkdir string | Esp_Copy string string | Esp_Write string string

text \<open>The calls in order; the first that fails is the last one made.\<close>

definition esp_calls :: "esp_layout \<Rightarrow> esp_call list" where
  "esp_calls l =
     (let boot = esp_mount l @ ''/EFI/BOOT''; wo = esp_mount l @ ''/EFI/WriteOnce'' in
      [Esp_Mkdir boot, Esp_Mkdir wo,
       Esp_Copy (esp_bootloader l) (boot @ ''/BOOTX64.EFI''),
       Esp_Copy (esp_kernel l) (wo @ ''/bzImage''),
       Esp_Copy (esp_initramfs l) (wo @ ''/initramfs.img''),
       Esp_Write (wo @ ''/cmdline.txt'') (esp_cmdline l)])"

fun until_failure :: "('a \<Rightarrow> bool) \<Rightarrow> 'a list \<Rightarrow> 'a list \<times> bool" where
  "until_failure ok [] = ([], True)"
| "until_failure ok (c # cs) =
     (if ok c then (case until_failure ok cs of (ds, r) \<Rightarrow> (c # ds, r)) else ([c], False))"

definition populate_esp :: "(esp_call \<Rightarrow> bool) \<Rightarrow> esp_layout \<Rightarrow> esp_call list \<times> bool" where
  "populate_esp ok l = until_failure ok (esp_calls l)"

section \<open>The UEFI program\<close>

definition KERNEL_PATH :: string where "KERNEL_PATH = ''EFI'' @ [CHR 0x5C] @ ''WriteOnce'' @ [CHR 0x5C] @ ''bzImage''"
definition INITRD_PATH :: string where
  "INITRD_PATH = ''EFI'' @ [CHR 0x5C] @ ''WriteOnce'' @ [CHR 0x5C] @ ''initramfs.img''"
definition CMDLINE_PATH :: string where
  "CMDLINE_PATH = ''EFI'' @ [CHR 0x5C] @ ''WriteOnce'' @ [CHR 0x5C] @ ''cmdline.txt''"

datatype dp_node = Media_File_Path string | Other_Node nat nat string

text \<open>
  The firmware: \<open>fw_open\<close> says whether a path is a regular file, \<open>fw_read path at wanted\<close> is one
  read, \<open>fw_start\<close> the status StartImage returns with, if it returns.
\<close>

record firmware =
  fw_self :: "nat + bool"
  fw_filesystem :: "nat + unit"
  fw_volume :: "nat + unit"
  fw_open :: "string \<Rightarrow> nat + bool"
  fw_size :: "string \<Rightarrow> nat + nat"
  fw_read :: "string \<Rightarrow> nat \<Rightarrow> nat \<Rightarrow> nat + string"
  fw_own_path :: "nat + dp_node list"
  fw_push_ok :: "dp_node \<Rightarrow> bool"
  fw_finalize_ok :: bool
  fw_load :: "dp_node list \<Rightarrow> nat + unit"
  fw_open_kernel :: "nat + unit"
  fw_start :: "string \<Rightarrow> nat option"

definition INVALID_PARAMETER :: nat where "INVALID_PARAMETER = 2 ^ 63 + 2"
definition UNSUPPORTED :: nat where "UNSUPPORTED = 2 ^ 63 + 3"
definition OUT_OF_RESOURCES :: nat where "OUT_OF_RESOURCES = 2 ^ 63 + 9"

definition open_path :: "firmware \<Rightarrow> string \<Rightarrow> nat + unit" where
  "open_path fw p = bind_r (fw_open fw p) (\<lambda>regular. if regular then Inr () else Inl INVALID_PARAMETER)"

text \<open>The read loop fills a buffer of zeros; a read of nothing ends it without an error.\<close>

function read_full :: "(nat \<Rightarrow> nat \<Rightarrow> nat + string) \<Rightarrow> nat \<Rightarrow> string \<Rightarrow> nat + string" where
  "read_full rd len got =
     (if len \<le> length got then Inr got
      else
        (case rd (length got) (len - length got) of
           Inl e \<Rightarrow> Inl e
         | Inr bs \<Rightarrow>
             if bs = [] then Inr (got @ replicate (len - length got) NUL)
             else read_full rd len (got @ bs)))"
  by pat_completeness auto
termination
  by (relation "measure (\<lambda>(rd, len, got). len - length got)") (auto simp: not_le intro!: diff_less_mono2)

declare read_full.simps [simp del]

definition read_file :: "firmware \<Rightarrow> string \<Rightarrow> nat + string" where
  "read_file fw p =
     bind_r (open_path fw p) (\<lambda>_. bind_r (fw_size fw p) (\<lambda>n. read_full (fw_read fw p) n []))"

definition read_file_size :: "firmware \<Rightarrow> string \<Rightarrow> nat + nat" where
  "read_file_size fw p = bind_r (open_path fw p) (\<lambda>_. fw_size fw p)"

fun contains :: "string \<Rightarrow> string \<Rightarrow> bool" where
  "contains p [] \<longleftrightarrow> p = []"
| "contains p (c # cs) \<longleftrightarrow> starts_with p (c # cs) \<or> contains p cs"

definition compose_cmdline :: "string \<Rightarrow> string" where
  "compose_cmdline bytes =
     (let cmdline_in = trim_end_matches (\<lambda>c. c = CR \<or> c = LF \<or> c = NUL)
            (if utf8_valid (map of_char bytes) then bytes else [])
      in if contains ''initrd='' cmdline_in then cmdline_in
         else cmdline_in @ '' initrd='' @ CHR 0x5C # INITRD_PATH)"

fun push_nodes :: "(dp_node \<Rightarrow> bool) \<Rightarrow> dp_node list \<Rightarrow> nat + dp_node list" where
  "push_nodes ok [] = Inr []"
| "push_nodes ok (n # ns) =
     (if ok n then bind_r (push_nodes ok ns) (\<lambda>ms. Inr (n # ms)) else Inl OUT_OF_RESOURCES)"

definition is_file_path :: "dp_node \<Rightarrow> bool" where
  "is_file_path n = (case n of Media_File_Path _ \<Rightarrow> True | _ \<Rightarrow> False)"

definition build_kernel_device_path :: "firmware \<Rightarrow> nat + dp_node list" where
  "build_kernel_device_path fw =
     bind_r (fw_own_path fw) (\<lambda>nodes.
     bind_r (push_nodes (fw_push_ok fw)
               (takeWhile (\<lambda>n. \<not> is_file_path n) nodes @ [Media_File_Path (CHR 0x5C # KERNEL_PATH)]))
       (\<lambda>ms. if fw_finalize_ok fw then Inr ms else Inl OUT_OF_RESOURCES))"

definition at_step :: "string \<Rightarrow> nat + 'a \<Rightarrow> (string \<times> nat) + 'a" where
  "at_step step r = map_err (\<lambda>s. (step, s)) r"

text \<open>The kernel takes over, with the command line it gets, or a step fails with a status.\<close>

datatype boot_result = Kernel_Runs string | Boot_Fatal string nat

definition boot_steps :: "firmware \<Rightarrow> (string \<times> nat) + string" where
  "boot_steps fw =
     bind_r (at_step ''open LoadedImage(self)'' (fw_self fw)) (\<lambda>has_device.
     bind_r (if has_device then Inr () else Inl (''loaded image has no device'', UNSUPPORTED)) (\<lambda>_.
     bind_r (at_step ''open SimpleFileSystem (boot device has no ESP?)'' (fw_filesystem fw)) (\<lambda>_.
     bind_r (at_step ''open ESP root volume'' (fw_volume fw)) (\<lambda>_.
     bind_r (at_step (''read '' @ CHR 0x5C # CMDLINE_PATH) (read_file fw CMDLINE_PATH)) (\<lambda>bytes.
     bind_r (at_step (''verify '' @ CHR 0x5C # KERNEL_PATH) (read_file_size fw KERNEL_PATH)) (\<lambda>_.
     bind_r (at_step ''build kernel DevicePath'' (build_kernel_device_path fw)) (\<lambda>path.
     bind_r (at_step ''LoadImage(FromDevicePath) bzImage'' (fw_load fw path)) (\<lambda>_.
     bind_r (at_step ''open LoadedImage(kernel)'' (fw_open_kernel fw)) (\<lambda>_.
       Inr (compose_cmdline bytes))))))))))"

definition try_boot :: "firmware \<Rightarrow> boot_result" where
  "try_boot fw =
     (case boot_steps fw of
        Inl (step, status) \<Rightarrow> Boot_Fatal step status
      | Inr cmdline \<Rightarrow>
          (case fw_start fw cmdline of
             None \<Rightarrow> Kernel_Runs cmdline
           | Some status \<Rightarrow> Boot_Fatal ''start_image returned (kernel rejected image)'' status))"

section \<open>Reading in pieces\<close>

text \<open>Reads that return what the file holds, in pieces of any size but never nothing before its end.\<close>

definition serves :: "(nat \<Rightarrow> nat \<Rightarrow> nat + string) \<Rightarrow> string \<Rightarrow> bool" where
  "serves rd body \<longleftrightarrow> (\<forall>at wanted. \<exists>n \<le> wanted. rd at wanted = Inr (take n (drop at body))
     \<and> (at < length body \<longrightarrow> 0 < wanted \<longrightarrow> 0 < n))"

lemma read_full_prefix:
  assumes "serves rd body" "length got \<le> length body" "got = take (length got) body"
  shows "read_full rd (length body) got = Inr body"
  using assms(2,3)
proof (induction "length body - length got" arbitrary: got rule: less_induct)
  case less
  show ?case
  proof (cases "length body \<le> length got")
    case True
    with less.prems show ?thesis by (subst read_full.simps) simp
  next
    case False
    then have lt: "length got < length body" by simp
    from assms(1)[unfolded serves_def, rule_format, of "length body - length got" "length got"] obtain n where
      n: "n \<le> length body - length got" "rd (length got) (length body - length got) = Inr (take n (drop (length got) body))"
      "0 < n" using lt by auto
    let ?got = "got @ take n (drop (length got) body)"
    have len: "length ?got = length got + n" using n(1) lt by simp
    have pre: "?got = take (length ?got) body"
      unfolding len take_add using less.prems(2) by simp
    have "read_full rd (length body) ?got = Inr body"
      by (rule less.hyps[OF _ _ pre]) (use len n lt in auto)
    moreover have "take n (drop (length got) body) \<noteq> []" using n(3) lt by simp
    ultimately show ?thesis using n(2) lt by (subst read_full.simps) simp
  qed
qed

lemma read_file_serves:
  assumes "fw_open fw p = Inr True" "fw_size fw p = Inr (length body)" "serves (fw_read fw p) body"
  shows "read_file fw p = Inr body"
  using assms read_full_prefix[OF assms(3), of "[]"] by (simp add: read_file_def open_path_def)

section \<open>The root the installer meant is the root that is mounted\<close>

lemma crlf_ws: "c = CR \<or> c = LF \<Longrightarrow> is_ws c"
  by (elim disjE) (simp_all add: is_ws_def)

lemma compose_words:
  assumes "utf8_valid (map of_char s)" "NUL \<notin> set s"
  shows "\<exists>extra. split_whitespace (compose_cmdline s) = split_whitespace s @ extra
    \<and> (\<forall>t \<in> set extra. starts_with ''initrd='' t)"
proof -
  have "trim_end_matches (\<lambda>c. c = CR \<or> c = LF \<or> c = NUL) s = trim_end_matches (\<lambda>c. c = CR \<or> c = LF) s"
    unfolding trim_end_matches_def
    by (rule arg_cong[where f = rev], rule dropWhile_cong) (use assms(2) in auto)
  then have words: "split_whitespace (trim_end_matches (\<lambda>c. c = CR \<or> c = LF \<or> c = NUL) s) = split_whitespace s"
    using split_whitespace_trim_end[of "\<lambda>c. c = CR \<or> c = LF" s] by (metis crlf_ws)
  let ?i = "''initrd='' @ CHR 0x5C # INITRD_PATH"
  have "is_word ?i" by (simp add: is_word_def INITRD_PATH_def is_ws_def)
  then have i: "split_whitespace ?i = [?i]" by (rule split_whitespace_word)
  have "split_whitespace (a @ '' initrd='' @ CHR 0x5C # INITRD_PATH) = split_whitespace a @ [?i]" for a
    using split_whitespace_word_append[of "CHR '' ''" a ?i] i by simp
  with words show ?thesis
    by (cases "contains ''initrd='' (trim_end_matches (\<lambda>c. c = CR \<or> c = LF \<or> c = NUL) s)")
       (auto simp: compose_cmdline_def assms(1) Let_def)
qed

lemma initrd_not_root: "starts_with ''initrd='' t \<Longrightarrow> \<not> starts_with ''root='' t"
  by (cases t; simp)

lemma is_word_placeholder: "is_word root_placeholder"
  by (simp add: is_word_def root_placeholder_def is_ws_def)

lemma format_root_token: "format_cmdline ''root=UUID=__ROOT_UUID__'' uuid = ''root=UUID='' @ uuid"
  by (simp add: format_cmdline_def root_placeholder_def replace.simps)

lemma chain_root:
  assumes uuid: "is_word uuid"
    and template: "split_whitespace template = xs @ ''root=UUID=__ROOT_UUID__'' # ys"
    and ys: "\<forall>y \<in> set ys. \<not> starts_with ''root='' (format_cmdline y uuid)"
    and utf: "utf8_valid (map of_char (format_cmdline template uuid))" "NUL \<notin> set (format_cmdline template uuid)"
  shows "cl_root (parse_cmdline (compose_cmdline (format_cmdline template uuid))) = Some (Root_Uuid uuid)"
proof -
  let ?f = "\<lambda>w. format_cmdline w uuid"
  from compose_words[OF utf] obtain extra where e:
    "split_whitespace (compose_cmdline (?f template)) = split_whitespace (?f template) @ extra"
    "\<forall>t \<in> set extra. \<not> starts_with ''root='' t" using initrd_not_root by blast
  have "split_whitespace (?f template) = map ?f xs @ (''root=UUID='' @ uuid) # map ?f ys"
    using split_whitespace_replace[OF uuid is_word_placeholder, of template]
    by (simp add: template format_cmdline_def[symmetric] format_root_token)
  then have "filter (starts_with ''root='') (split_whitespace (compose_cmdline (?f template)))
      = filter (starts_with ''root='') (map ?f xs) @ [''root=UUID='' @ uuid]"
    using ys e(2) by (simp add: e(1) filter_empty_conv)
  then show ?thesis by (simp add: parse_cmdline_root parse_root_def)
qed

text \<open>
  C11: if the ESP holds the command line the installer formatted from its template and the root's
  UUID, the firmware hands out the file in pieces of any size, and no step fails, then the
  kernel runs with a command line from which the initramfs reads exactly that UUID as its root:
  for a template whose last root parameter is the placeholder's, and a UUID that is a word.
\<close>

theorem boot_chain_finds_root:
  assumes "is_word uuid" "split_whitespace template = xs @ ''root=UUID=__ROOT_UUID__'' # ys"
    and "\<forall>y \<in> set ys. \<not> starts_with ''root='' (format_cmdline y uuid)"
    and "utf8_valid (map of_char (format_cmdline template uuid))" "NUL \<notin> set (format_cmdline template uuid)"
    and "serves (fw_read fw CMDLINE_PATH) (format_cmdline template uuid)"
    and "fw_open fw CMDLINE_PATH = Inr True" "fw_size fw CMDLINE_PATH = Inr (length (format_cmdline template uuid))"
    and "try_boot fw = Kernel_Runs cmdline"
  shows "cl_root (parse_cmdline cmdline) = Some (Root_Uuid uuid)"
proof -
  have "read_file fw CMDLINE_PATH = Inr (format_cmdline template uuid)"
    by (rule read_file_serves) (rule assms)+
  with assms(9) have "cmdline = compose_cmdline (format_cmdline template uuid)"
    by (auto simp: try_boot_def boot_steps_def at_step_def bind_r_Inr split: sum.splits option.splits prod.splits if_splits)
  with chain_root[OF assms(1-5)] show ?thesis by simp
qed

text \<open>A firmware that reads seven bytes at a time.\<close>

definition sample_cmdline :: string where "sample_cmdline = ''quiet root=UUID=ab-1 rw''"

definition sample_firmware :: firmware where
  "sample_firmware = \<lparr>fw_self = Inr True, fw_filesystem = Inr (), fw_volume = Inr (), fw_open = \<lambda>_. Inr True,
     fw_size = \<lambda>_. Inr (length sample_cmdline),
     fw_read = \<lambda>_ at n. Inr (take (min n 7) (drop at sample_cmdline)),
     fw_own_path = Inr [Other_Node 2 1 '''', Media_File_Path ''BOOTX64.EFI''],
     fw_push_ok = \<lambda>_. True, fw_finalize_ok = True, fw_load = \<lambda>_. Inr (), fw_open_kernel = Inr (),
     fw_start = \<lambda>_. None\<rparr>"

lemma sample_serves: "serves (fw_read sample_firmware p) sample_cmdline"
  unfolding serves_def
proof (intro allI)
  fix at wanted
  show "\<exists>n \<le> wanted. fw_read sample_firmware p at wanted = Inr (take n (drop at sample_cmdline))
    \<and> (at < length sample_cmdline \<longrightarrow> 0 < wanted \<longrightarrow> 0 < n)"
    by (rule exI[of _ "min wanted 7"]) (simp add: sample_firmware_def)
qed

lemma sample_boots: "try_boot sample_firmware = Kernel_Runs (compose_cmdline sample_cmdline)"
proof -
  have "read_file sample_firmware p = Inr sample_cmdline" for p
    by (rule read_file_serves[OF _ _ sample_serves]) (simp_all add: sample_firmware_def)
  then show ?thesis
    by (simp add: try_boot_def boot_steps_def at_step_def read_file_size_def open_path_def
        build_kernel_device_path_def is_file_path_def sample_firmware_def)
qed

lemma sample_format: "format_cmdline ''quiet root=UUID=__ROOT_UUID__ rw'' ''ab-1'' = sample_cmdline"
  by (simp add: format_cmdline_def root_placeholder_def replace.simps sample_cmdline_def)

theorem boot_chain_finds_root_witness:
  "try_boot sample_firmware = Kernel_Runs (compose_cmdline sample_cmdline)
    \<and> cl_root (parse_cmdline (compose_cmdline sample_cmdline)) = Some (Root_Uuid ''ab-1'')"
proof -
  have "cl_root (parse_cmdline (compose_cmdline sample_cmdline)) = Some (Root_Uuid ''ab-1'')"
  proof (rule boot_chain_finds_root[where template = "''quiet root=UUID=__ROOT_UUID__ rw''" and xs = "[''quiet'']"
        and ys = "[''rw'']" and fw = sample_firmware and uuid = "''ab-1''"], unfold sample_format)
    show "split_whitespace ''quiet root=UUID=__ROOT_UUID__ rw'' = [''quiet''] @ ''root=UUID=__ROOT_UUID__'' # [''rw'']"
      by code_simp
    show "\<forall>y \<in> set [''rw'']. \<not> starts_with ''root='' (format_cmdline y ''ab-1'')"
      by (simp add: format_cmdline_def root_placeholder_def replace.simps)
    show "is_word ''ab-1''" by code_simp
    show "utf8_valid (map of_char sample_cmdline)" by code_simp
    show "NUL \<notin> set sample_cmdline" by (simp add: sample_cmdline_def)
    show "serves (fw_read sample_firmware CMDLINE_PATH) sample_cmdline" by (rule sample_serves)
    show "fw_open sample_firmware CMDLINE_PATH = Inr True"
      "fw_size sample_firmware CMDLINE_PATH = Inr (length sample_cmdline)" by (simp_all add: sample_firmware_def)
    show "try_boot sample_firmware = Kernel_Runs (compose_cmdline sample_cmdline)" by (rule sample_boots)
  qed
  with sample_boots show ?thesis by simp
qed

end
