(* ===== verification/Installer.thy ===== *)
theory Installer
  imports Installer_Safety Installer_Image Boot_Chain
begin

text \<open>
  The installer as a whole (crates/writeonce-installer/src/main.rs with partition.rs, mkfs.rs,
  mount_.rs, extract.rs, the file operations of customize.rs, confirm.rs and verify.rs): the
  checks before the disk is touched, then every command and file operation in order, as a trace.
  What a command returns and what the machine holds may depend on the trace so far. Messages,
  the progress bar and the pauses are left out.
\<close>

section \<open>The machine\<close>

datatype inst_call =
    Run string "string list" | Make_Dirs string | Remove_Tree string | Copy_To string string
  | Write_Text string string | Set_Mode string nat | Rename_To string string | Chown string u32 u32
  | Unpack string string

datatype install_error =
    Not_Root | Manifest_Error | Verify_Error verify_error | Spec_Error | Disks_Unreadable io_error | No_Disks
  | Device_Error device_error | Plan_Error plan_error | Unknown_Device string | Fixed_Target string
  | Bad_Index | Declined_By_User | Cancelled_By_User | Call_Failed inst_call | Unreadable_Text io_error
  | No_Uuid | No_Workdir | Nul_In_Path

text \<open>A directory's tree; an entry or a listing may be unreadable. A link may point to a directory.\<close>

datatype ftree = Ft_Other | Ft_Dir "io_error + (io_error + string \<times> ftree) list"

record host =
  hs_euid :: nat
  hs_manifest :: "string \<Rightarrow> manifest option"
  hs_sha :: "inst_call list \<Rightarrow> string \<Rightarrow> io_error + string"
  hs_spec :: "string \<Rightarrow> target_os_spec option"
  hs_files :: "inst_call list \<Rightarrow> host_files"
  hs_tree :: "inst_call list \<Rightarrow> string \<Rightarrow> ftree"
  hs_tty :: bool
  hs_console :: console
  hs_openssl :: openssl
  hs_setup :: "plan_error + unit"
  hs_teardown :: "plan_error + unit"
  hs_events :: "(io_error + key_event option) list"
  hs_ok :: "inst_call list \<Rightarrow> inst_call \<Rightarrow> bool"
  hs_spawns :: "inst_call list \<Rightarrow> inst_call \<Rightarrow> bool"
  hs_output :: "inst_call list \<Rightarrow> string"
  hs_workdir :: "string option"
  hs_day :: nat

text \<open>
  An operation extends the trace and may fail. A command that fails may have been run or not; only
  \<open>umount\<close> tells the two apart.
\<close>

type_synonym 'a inst = "inst_call list \<Rightarrow> (install_error + 'a) \<times> inst_call list"

definition must :: "host \<Rightarrow> inst_call \<Rightarrow> unit inst" where
  "must h c tr = (if hs_ok h tr c then Inr () else Inl (Call_Failed c), tr @ [c])"

definition may :: "host \<Rightarrow> inst_call \<Rightarrow> bool inst" where
  "may h c tr = (Inr (hs_ok h tr c), tr @ [c])"

fun musts :: "host \<Rightarrow> inst_call list \<Rightarrow> unit inst" where
  "musts h [] tr = (Inr (), tr)"
| "musts h (c # cs) tr = then_r (must h c tr) (\<lambda>_. musts h cs)"

section \<open>Commands\<close>

definition create_gpt :: "host \<Rightarrow> string \<Rightarrow> partition_plan \<Rightarrow> unit inst" where
  "create_gpt h device plan tr =
     then_r (must h (Run ''sgdisk'' [''--zap-all'', device]) tr) (\<lambda>_ tr.
     then_r (must h (Run ''sgdisk'' (gpt_args device plan)) tr) (\<lambda>_ tr.
     then_r (may h (Run ''partprobe'' [device]) tr) (\<lambda>_ tr. (Inr (), tr))))"

definition format_esp :: "host \<Rightarrow> string \<Rightarrow> unit inst" where
  "format_esp h esp = must h (Run ''mkfs.vfat'' [''-F'', ''32'', ''-n'', ''WRITEONCE'', esp])"

definition blkid_uuid :: "host \<Rightarrow> string \<Rightarrow> string inst" where
  "blkid_uuid h device tr =
     then_r (must h (Run ''blkid'' [''-s'', ''UUID'', ''-o'', ''value'', device]) tr) (\<lambda>_ tr.
       let uuid = trim (hs_output h tr) in (if uuid = [] then Inl No_Uuid else Inr uuid, tr))"

definition format_root :: "host \<Rightarrow> string \<Rightarrow> string inst" where
  "format_root h root tr =
     then_r (must h (Run ''mkfs.ext4'' [''-F'', ''-L'', ''writeonce-root'', ''-E'',
               ''lazy_itable_init=0,lazy_journal_init=0'', root]) tr) (\<lambda>_. blkid_uuid h root)"

definition mount_at :: "host \<Rightarrow> string \<Rightarrow> string \<Rightarrow> string \<Rightarrow> unit inst" where
  "mount_at h source target fs tr =
     then_r (must h (Make_Dirs target) tr) (\<lambda>_. must h (Run ''mount'' [''-t'', fs, source, target]))"

definition umount :: "host \<Rightarrow> string \<Rightarrow> unit inst" where
  "umount h target tr =
     (let c = Run ''umount'' [target] in
      then_r (may h c tr) (\<lambda>ok tr'.
        if ok then (Inr (), tr')
        else if \<not> hs_spawns h tr c then (Inl (Call_Failed c), tr')
        else must h (Run ''umount'' [''-l'', target]) tr'))"

text \<open>The guard of a mount: an error on the way unmounts the target, without a second try.\<close>

definition guarded :: "host \<Rightarrow> string \<Rightarrow> 'a inst \<Rightarrow> 'a inst" where
  "guarded h target m tr =
     (case m tr of
        (Inl e, tr') \<Rightarrow> (Inl e, snd (may h (Run ''umount'' [target]) tr'))
      | r \<Rightarrow> r)"

section \<open>Customising the new root\<close>

definition read_text :: "host \<Rightarrow> string \<Rightarrow> string inst" where
  "read_text h p tr = (map_err Unreadable_Text (hf_text (hs_files h tr) p), tr)"

definition rewrite_file :: "host \<Rightarrow> string \<Rightarrow> (string \<Rightarrow> string) \<Rightarrow> unit inst" where
  "rewrite_file h p f tr = then_r (read_text h p tr) (\<lambda>raw. must h (Write_Text p (f raw)))"

function walkdir :: "string \<Rightarrow> ftree \<Rightarrow> io_error + string list"
  and walkdir_entries :: "string \<Rightarrow> (io_error + string \<times> ftree) list \<Rightarrow> io_error + string list" where
  "walkdir p Ft_Other = Inr [p]"
| "walkdir p (Ft_Dir (Inl e)) = Inl e"
| "walkdir p (Ft_Dir (Inr es)) = bind_r (walkdir_entries p es) (\<lambda>ps. Inr (p # ps))"
| "walkdir_entries p [] = Inr []"
| "walkdir_entries p (Inl e # es) = Inl e"
| "walkdir_entries p (Inr (n, t) # es) =
     bind_r (walkdir (p @ CHR 0x2F # n) t) (\<lambda>ps. bind_r (walkdir_entries p es) (\<lambda>qs. Inr (ps @ qs)))"
  by pat_completeness auto
termination
  by (relation "measure (\<lambda>x. case x of Inl (p, t) \<Rightarrow> size t | Inr (p, es) \<Rightarrow> size_list (size_sum (\<lambda>_. 0) (size_prod (\<lambda>_. 0) size)) es)") auto

definition chown_recursive :: "host \<Rightarrow> string \<Rightarrow> u32 \<Rightarrow> u32 \<Rightarrow> unit inst" where
  "chown_recursive h p uid gid tr =
     (case walkdir p (hs_tree h tr p) of
        Inl e \<Rightarrow> (Inl (Unreadable_Text e), tr)
      | Inr ps \<Rightarrow>
          (let named = takeWhile (\<lambda>q. NUL \<notin> set q) ps in
           then_r (musts h (map (\<lambda>q. Chown q uid gid) named) tr) (\<lambda>_ tr.
             (if named = ps then Inr () else Inl Nul_In_Path, tr))))"

definition rename_home :: "host \<Rightarrow> string \<Rightarrow> resolved_user \<Rightarrow> unit inst" where
  "rename_home h root u tr =
     (let skeleton = path_join root ''home/writeonce''; target = path_join root (''home/'' @ ru_name u) in
      then_r (if \<not> hf_exists (hs_files h tr) skeleton then must h (Make_Dirs target) tr
              else if skeleton = target then (Inr (), tr)
              else must h (Rename_To skeleton target) tr)
        (\<lambda>_. chown_recursive h target (ru_uid u) (ru_gid u)))"

definition patch_xinitrc :: "host \<Rightarrow> string \<Rightarrow> resolved_user \<Rightarrow> resolved_keyboard \<Rightarrow> unit inst" where
  "patch_xinitrc h root u k tr =
     (let p = path_join root (''home/'' @ ru_name u @ ''/.xinitrc'') in
      if hf_exists (hs_files h tr) p then rewrite_file h p (patch_xinitrc_text k) tr else (Inr (), tr))"

definition network_units :: "string list" where
  "network_units = [''iwd.service'', ''dhcpcd.service'', ''writeonce-modules-load.service'']"

definition network_stub :: "string \<Rightarrow> string" where
  "network_stub name =
     ''# Pre-enabled by writeonce-installer (network.enabled_at_boot=true).'' @ [LF]
     @ ''unit = '' @ [CHR 0x22] @ name @ [CHR 0x22, LF]"

definition quoted :: "string \<Rightarrow> string" where
  "quoted s = CHR 0x22 # s @ [CHR 0x22]"

definition headless_target :: string where
  "headless_target =
     unlines [''# Rewritten by writeonce-installer (network.enabled_at_boot=true).'',
       ''# default.target requires multi-user.target so enabled.d entries'',
       ''# (iwd, dhcpcd, modules-load) fire at boot '' @ em_dash @ '' necessary for SSH/headless.'', '''', ''[unit]'',
       ''description = '' @ quoted (''Default supervisor target '' @ em_dash @ '' headless (network at boot)''),
       ''requires    = ['' @ quoted ''multi-user.target'' @ '']'', ''after       = ['' @ quoted ''multi-user.target'' @ '']'']"

definition apply_network :: "host \<Rightarrow> string \<Rightarrow> bool \<Rightarrow> unit inst" where
  "apply_network h root enabled tr =
     (if \<not> enabled then (Inr (), tr)
      else
        let dir = path_join root ''etc/writeonce/enabled.d'' in
        then_r (must h (Make_Dirs dir) tr) (\<lambda>_ tr.
        then_r (musts h (map (\<lambda>n. Write_Text (path_join dir (n @ ''.toml'')) (network_stub n)) network_units) tr) (\<lambda>_ tr.
          let target = path_join root ''etc/writeonce/services/default.target.toml'' in
          if hf_exists (hs_files h tr) target then must h (Write_Text target headless_target) tr
          else (Inr (), tr))))"

definition customize :: "host \<Rightarrow> installation_plan \<Rightarrow> string \<Rightarrow> unit inst" where
  "customize h plan root tr =
     (let u = ip_user plan; shadow = path_join root ''etc/shadow'' in
      then_r (rewrite_file h (path_join root ''etc/passwd'') (rewrite_passwd u) tr) (\<lambda>_ tr.
      then_r (rewrite_file h shadow (rewrite_shadow (hs_day h) u) tr) (\<lambda>_ tr.
      then_r (must h (Set_Mode shadow 416) tr) (\<lambda>_ tr.
      then_r (rewrite_file h (path_join root ''etc/group'') (rewrite_group u) tr) (\<lambda>_ tr.
      then_r (rename_home h root u tr) (\<lambda>_ tr.
      then_r (patch_xinitrc h root u (ip_keyboard plan) tr) (\<lambda>_ tr.
      then_r (must h (Write_Text (path_join root ''etc/vconsole.conf'') (vconsole_conf (ip_keyboard plan))) tr)
        (\<lambda>_. apply_network h root (ip_enabled_at_boot plan)))))))))"

section \<open>Writing the disk\<close>

text \<open>The calls of \<open>populate_esp\<close> as operations of the trace.\<close>

fun esp_operation :: "esp_call \<Rightarrow> inst_call" where
  "esp_operation (Esp_Mkdir p) = Make_Dirs p"
| "esp_operation (Esp_Copy a b) = Copy_To a b"
| "esp_operation (Esp_Write p s) = Write_Text p s"

definition verify_post_write :: "host \<Rightarrow> artifacts \<Rightarrow> string \<Rightarrow> string \<Rightarrow> unit inst" where
  "verify_post_write h a esp_part workdir tr =
     (let dir = path_join workdir ''verify-esp'' in
      then_r (mount_at h esp_part dir ''vfat'' tr) (\<lambda>_ tr.
        (map_err Verify_Error (verify_shas (hs_sha h tr)
           [(''kernel'', path_join dir ''EFI/WriteOnce/bzImage'', ar_kernel_sha a),
            (''initramfs'', path_join dir ''EFI/WriteOnce/initramfs.img'', ar_initramfs_sha a),
            (''bootloader'', path_join dir ''EFI/BOOT/BOOTX64.EFI'', ar_bootloader_sha a)]),
         snd (umount h dir tr))))"

definition fill_root ::
  "host \<Rightarrow> artifacts \<Rightarrow> installation_plan \<Rightarrow> string \<Rightarrow> string \<Rightarrow> string \<Rightarrow> unit inst" where
  "fill_root h a plan uuid esp_part root tr =
     (let esp_dir = path_join root ''boot/efi'' in
      then_r (must h (Unpack (ar_sysroot a) root) tr) (\<lambda>_ tr.
      then_r (customize h plan root tr) (\<lambda>_ tr.
      then_r (must h (Make_Dirs esp_dir) tr) (\<lambda>_ tr.
      then_r (mount_at h esp_part esp_dir ''vfat'' tr) (\<lambda>_.
        guarded h esp_dir (\<lambda>tr.
          then_r (musts h (map esp_operation (esp_calls
              \<lparr>esp_mount = esp_dir, esp_bootloader = ar_bootloader a, esp_kernel = ar_kernel a,
               esp_initramfs = ar_initramfs a, esp_cmdline = format_cmdline (ar_cmdline a) uuid\<rparr>)) tr) (\<lambda>_ tr.
          then_r (may h (Run ''sync'' []) tr) (\<lambda>_.
            umount h esp_dir))))))))"

definition write_files ::
  "host \<Rightarrow> artifacts \<Rightarrow> installation_plan \<Rightarrow> string \<Rightarrow> string \<Rightarrow> string \<Rightarrow> string \<Rightarrow> unit inst" where
  "write_files h a plan uuid esp_part root_part workdir tr =
     (let root = path_join workdir ''root'' in
      then_r (mount_at h root_part root ''ext4'' tr) (\<lambda>_ tr.
      then_r (guarded h root (\<lambda>tr.
                then_r (fill_root h a plan uuid esp_part root tr) (\<lambda>_. umount h root)) tr)
        (\<lambda>_. verify_post_write h a esp_part workdir)))"

text \<open>The work directory is removed however the writing ends.\<close>

definition write_disk :: "host \<Rightarrow> artifacts \<Rightarrow> usb_device \<Rightarrow> installation_plan \<Rightarrow> unit inst" where
  "write_disk h a d plan tr =
     (case partition_paths (ud_path d) of (esp_part, root_part) \<Rightarrow>
        then_r (create_gpt h (ud_path d) (ip_partition plan) tr) (\<lambda>_ tr.
        then_r (format_esp h esp_part tr) (\<lambda>_ tr.
        then_r (format_root h root_part tr) (\<lambda>uuid tr.
          (case hs_workdir h of
             None \<Rightarrow> (Inl No_Workdir, tr)
           | Some dir \<Rightarrow>
               (case write_files h a plan uuid esp_part root_part dir tr of
                  (r, tr') \<Rightarrow> (r, snd (may h (Remove_Tree dir) tr'))))))))"

section \<open>The checks before\<close>

record install_args =
  ia_from :: string
  ia_target :: "string option"
  ia_spec :: "string option"
  ia_yes :: bool
  ia_dry_run :: bool
  ia_force :: bool
  ia_no_tui :: bool

definition confirm_wipe :: "console \<Rightarrow> (install_error + bool) \<times> console" where
  "confirm_wipe c =
     (case read_line c of (r, c') \<Rightarrow> (map_err Plan_Error (bind_r r (\<lambda>line. Inr (trim line = ''yes''))), c'))"

definition select_target ::
  "host_files \<Rightarrow> string option \<Rightarrow> bool \<Rightarrow> console \<Rightarrow> (install_error + usb_device) \<times> console" where
  "select_target h target force c =
     (case target of
        Some p \<Rightarrow>
          (case lookup h p of
             None \<Rightarrow> (Inl (Unknown_Device p), c)
           | Some d \<Rightarrow> (if \<not> ud_removable d \<and> \<not> force then Inl (Fixed_Target (ud_path d)) else Inr d, c))
      | None \<Rightarrow>
          (case list_removable h of
             Inl e \<Rightarrow> (Inl (Disks_Unreadable e), c)
           | Inr [] \<Rightarrow> (Inl No_Disks, c)
           | Inr [d] \<Rightarrow> (Inr d, c)
           | Inr ds \<Rightarrow>
               (case read_line c of
                  (Inl e, c') \<Rightarrow> (Inl (Plan_Error e), c')
                | (Inr line, c') \<Rightarrow>
                    (ok_or Bad_Index (Option.bind (parse_u64 (trim line)) (\<lambda>i. nth_opt ds (unat i))), c'))))"

definition cli_path :: "host \<Rightarrow> install_args \<Rightarrow> bool" where
  "cli_path h a \<longleftrightarrow> ia_no_tui a \<or> ia_target a \<noteq> None \<or> ia_yes a \<or> \<not> hs_tty h"

definition plan_for ::
  "openssl \<Rightarrow> target_os_spec \<Rightarrow> usb_device \<Rightarrow> console \<Rightarrow> (install_error + usb_device \<times> installation_plan) \<times> console" where
  "plan_for openssl spec d c =
     (case gather_plan openssl spec d c of
        (r, c') \<Rightarrow> (map_err Plan_Error (bind_r r (\<lambda>plan. Inr (d, plan))), c'))"

definition choose_by_prompts ::
  "host \<Rightarrow> install_args \<Rightarrow> target_os_spec \<Rightarrow> (install_error + usb_device \<times> installation_plan) \<times> console" where
  "choose_by_prompts h a spec =
     (let files = hs_files h [] in
      then_r (select_target files (ia_target a) (ia_force a) (hs_console h)) (\<lambda>d c.
      then_r (map_err Device_Error (safety_check files d), c) (\<lambda>_.
        plan_for (hs_openssl h) spec d)))"

text \<open>The device and the plan, by prompts or by the form; \<open>None\<close> while the form is open.\<close>

definition choose_plan ::
  "host \<Rightarrow> install_args \<Rightarrow> target_os_spec \<Rightarrow> ((install_error + usb_device \<times> installation_plan) \<times> console) option" where
  "choose_plan h a spec =
     (if cli_path h a then Some (choose_by_prompts h a spec)
      else
        let files = hs_files h []; c = hs_console h in
        (case list_removable files of
           Inl e \<Rightarrow> Some (Inl (Disks_Unreadable e), c)
         | Inr ds \<Rightarrow>
             (let eligible = filter (\<lambda>d. safety_check files d = Inr ()) ds in
              if ds = [] \<or> eligible = [] then Some (Inl No_Disks, c)
              else
                (case run_tui (hs_openssl h) (hs_setup h) (hs_teardown h) spec eligible (hs_events h) of
                   None \<Rightarrow> None
                 | Some (Inl e) \<Rightarrow> Some (Inl (Plan_Error e), c)
                 | Some (Inr None) \<Rightarrow> Some (Inl Cancelled_By_User, c)
                 | Some (Inr (Some p)) \<Rightarrow> Some (Inr p, c)))))"

definition confirmed :: "host \<Rightarrow> install_args \<Rightarrow> console \<Rightarrow> install_error + unit" where
  "confirmed h a c =
     (if \<not> ia_yes a \<and> cli_path h a
      then bind_r (fst (confirm_wipe c)) (\<lambda>yes. if yes then Inr () else Inl Declined_By_User)
      else Inr ())"

definition load_spec :: "host \<Rightarrow> string option \<Rightarrow> install_error + target_os_spec" where
  "load_spec h p = (case p of None \<Rightarrow> Inr default_spec | Some f \<Rightarrow> ok_or Spec_Error (hs_spec h f))"

definition prepare :: "host \<Rightarrow> install_args \<Rightarrow> install_error + artifacts \<times> target_os_spec" where
  "prepare h a =
     (if hs_euid h \<noteq> 0 then Inl Not_Root
      else
        bind_r (ok_or Manifest_Error (hs_manifest h (ia_from a))) (\<lambda>m.
        let art = resolve m (ia_from a) in
        bind_r (map_err Verify_Error (verify_against_manifest (hs_sha h []) art)) (\<lambda>_.
        bind_r (load_spec h (ia_spec a)) (\<lambda>spec. Inr (art, spec)))))"

definition install :: "host \<Rightarrow> install_args \<Rightarrow> ((install_error + unit) \<times> inst_call list) option" where
  "install h a =
     (case prepare h a of
        Inl e \<Rightarrow> Some (Inl e, [])
      | Inr (art, spec) \<Rightarrow>
          (case choose_plan h a spec of
             None \<Rightarrow> None
           | Some (Inl e, c) \<Rightarrow> Some (Inl e, [])
           | Some (Inr (d, plan), c) \<Rightarrow>
               if ia_dry_run a then Some (Inr (), [])
               else
                 (case confirmed h a c of
                    Inl e \<Rightarrow> Some (Inl e, [])
                  | Inr _ \<Rightarrow> Some (write_disk h art d plan []))))"

end
