(* ===== verification/Installer_Guards.thy ===== *)
theory Installer_Guards
  imports Installer Traces
begin

text \<open>
  What the installer promises about its operations: none before the checks, all on the chosen
  disk and the work directory, and every mount undone on every path.
\<close>

section \<open>Operations that keep a law\<close>

text \<open>A law on the operations of the installer: each keeps it if its own calls do.\<close>

locale inst_law = trace_law law for law :: "inst_call list \<Rightarrow> inst_call list \<Rightarrow> bool"
begin

lemma keeps_must: "law tr [c] \<Longrightarrow> keeps tr (must h c tr)"
  by (simp add: keeps_def must_def)

lemma keeps_may: "law tr [c] \<Longrightarrow> keeps tr (may h c tr)"
  by (simp add: keeps_def may_def)

lemma keeps_musts: "(\<And>c tr. c \<in> set cs \<Longrightarrow> law tr [c]) \<Longrightarrow> keeps tr (musts h cs tr)"
proof (induction cs arbitrary: tr)
  case (Cons c cs)
  then show ?case by (auto intro!: keeps_bind keeps_must)
qed (simp add: keeps_pure)

lemma always_may: "law tr [c] \<Longrightarrow> always c tr (may h c tr)"
  by (simp add: keeps_call_def may_def)

text \<open>The guard makes a call on success a call in any case.\<close>

lemma always_guarded:
  assumes m: "if_ok (Run ''umount'' [t]) tr (m tr)" and plain: "\<And>tr. law tr [Run ''umount'' [t]]"
  shows "always (Run ''umount'' [t]) tr (guarded h t m tr)"
proof -
  from m obtain ext where ext: "snd (m tr) = tr @ ext" "law tr ext"
    "(\<exists>x. fst (m tr) = Inr x) \<longrightarrow> Run ''umount'' [t] \<in> set ext" by (auto simp: keeps_call_def)
  have "law tr (ext @ [Run ''umount'' [t]])" using law_append[OF ext(2) plain] .
  with ext show ?thesis
    by (cases "m tr"; cases "fst (m tr)") (auto simp: guarded_def keeps_call_def may_def)
qed

lemma always_umount:
  assumes "\<And>tr. law tr [Run ''umount'' [t]]" "\<And>tr. law tr [Run ''umount'' [''-l'', t]]"
  shows "always (Run ''umount'' [t]) tr (umount h t tr)"
  unfolding umount_def Let_def using assms
  by (intro always_then always_may) (auto intro: keeps_pure keeps_must)

end

section \<open>The law of an installation\<close>

fun mount_target :: "inst_call \<Rightarrow> string option" where
  "mount_target (Run p args) = (if p = ''mount'' \<and> length args = 4 then Some (args ! 3) else None)"
| "mount_target _ = None"

text \<open>Every mount that succeeded is followed by an unmount of its target.\<close>

fun unmounts :: "host \<Rightarrow> inst_call list \<Rightarrow> inst_call list \<Rightarrow> bool" where
  "unmounts h tr [] \<longleftrightarrow> True"
| "unmounts h tr (c # cs) \<longleftrightarrow>
     unmounts h (tr @ [c]) cs
     \<and> (\<forall>t. mount_target c = Some t \<longrightarrow> hs_ok h tr c \<longrightarrow> Run ''umount'' [t] \<in> set cs)"

text \<open>The disk and its partitions, the paths in the work directory, and the calls confined to them.\<close>

definition disk_node :: "usb_device \<Rightarrow> string \<Rightarrow> bool" where
  "disk_node d p \<longleftrightarrow> p \<in> {ud_path d, fst (partition_paths (ud_path d)), snd (partition_paths (ud_path d))}"

definition under :: "string \<Rightarrow> string \<Rightarrow> bool" where
  "under dir p \<longleftrightarrow> starts_with dir p"

fun confined :: "usb_device \<Rightarrow> string \<Rightarrow> inst_call \<Rightarrow> bool" where
  "confined d dir (Run p args) \<longleftrightarrow>
     (if p = ''mount'' then length args = 4 \<and> disk_node d (args ! 2) \<and> under dir (args ! 3)
      else if p = ''umount'' then args \<noteq> [] \<and> under dir (last args)
      else if p = ''sync'' then args = []
      else p \<in> {''sgdisk'', ''partprobe'', ''mkfs.vfat'', ''mkfs.ext4'', ''blkid''} \<and> args \<noteq> [] \<and> disk_node d (last args))"
| "confined d dir (Make_Dirs p) \<longleftrightarrow> under dir p"
| "confined d dir (Remove_Tree p) \<longleftrightarrow> under dir p"
| "confined d dir (Copy_To a p) \<longleftrightarrow> under dir p"
| "confined d dir (Write_Text p s) \<longleftrightarrow> under dir p"
| "confined d dir (Set_Mode p m) \<longleftrightarrow> under dir p"
| "confined d dir (Rename_To a p) \<longleftrightarrow> under dir a \<and> under dir p"
| "confined d dir (Chown p u g) \<longleftrightarrow> under dir p"
| "confined d dir (Unpack a p) \<longleftrightarrow> under dir p"

definition install_law :: "host \<Rightarrow> usb_device \<Rightarrow> string \<Rightarrow> inst_call list \<Rightarrow> inst_call list \<Rightarrow> bool" where
  "install_law h d dir tr ext \<longleftrightarrow> unmounts h tr ext \<and> list_all (confined d dir) ext"

lemma unmounts_append: "unmounts h tr xs \<Longrightarrow> unmounts h (tr @ xs) ys \<Longrightarrow> unmounts h tr (xs @ ys)"
  by (induction xs arbitrary: tr) auto

interpretation work: inst_law "install_law h d dir"
  by unfold_locales (auto simp: install_law_def unmounts_append)

lemma law_plain: "mount_target c = None \<Longrightarrow> install_law h d dir tr [c] \<longleftrightarrow> confined d dir c"
  by (simp add: install_law_def)

lemma unmounts_nth:
  "unmounts h tr ext \<Longrightarrow> i < length ext \<Longrightarrow> mount_target (ext ! i) = Some t \<Longrightarrow> hs_ok h (tr @ take i ext) (ext ! i)
    \<Longrightarrow> \<exists>j. i < j \<and> j < length ext \<and> ext ! j = Run ''umount'' [t]"
proof (induction ext arbitrary: tr i)
  case (Cons c cs)
  show ?case
  proof (cases i)
    case 0
    with Cons.prems have "Run ''umount'' [t] \<in> set cs" by simp
    then obtain j where "j < length cs" "cs ! j = Run ''umount'' [t]" by (auto simp: in_set_conv_nth)
    with 0 show ?thesis by (intro exI[of _ "Suc j"]) simp
  next
    case (Suc n)
    with Cons.prems Cons.IH[of "tr @ [c]" n] obtain j where "n < j" "j < length cs" "cs ! j = Run ''umount'' [t]" by auto
    with Suc show ?thesis by (intro exI[of _ "Suc j"]) simp
  qed
qed simp

text \<open>A mount whose target is unmounted by what follows.\<close>

lemma keeps_mount:
  assumes node: "disk_node d s" "under dir t" and f: "\<And>tr. work.always h d dir (Run ''umount'' [t]) tr (f () tr)"
  shows "work.keeps h d dir tr (then_r (mount_at h s t fs tr) f)"
proof -
  let ?mk = "Make_Dirs t" and ?m = "Run ''mount'' [''-t'', fs, s, t]"
  have ok: "confined d dir ?mk" "confined d dir ?m" using node by simp_all
  obtain ext where ext: "snd (f () (tr @ [?mk, ?m])) = (tr @ [?mk, ?m]) @ ext"
    "install_law h d dir (tr @ [?mk, ?m]) ext" "Run ''umount'' [t] \<in> set ext"
    using f[of "tr @ [?mk, ?m]"] by (auto simp: work.keeps_call_def)
  then have "install_law h d dir tr (?mk # ?m # ext)" using ok by (simp add: install_law_def)
  then show ?thesis using ext ok
    by (cases "hs_ok h tr ?mk"; cases "hs_ok h (tr @ [?mk]) ?m")
       (auto simp: work.keeps_def mount_at_def must_def then_r_def install_law_def)
qed

section \<open>Each operation keeps it\<close>

lemma under_join: "under dir p \<Longrightarrow> \<not> starts_with ''/'' q \<Longrightarrow> under dir (path_join p q)"
  by (auto simp: under_def path_join_def starts_with_iff)

lemma under_append: "under dir p \<Longrightarrow> under dir (p @ q)"
  by (auto simp: under_def starts_with_iff)

lemma under_self: "under dir dir"
  by (simp add: under_def starts_with_iff)

text \<open>Discharges the law of one call.\<close>

lemmas keeps_intros = work.keeps_bind work.keeps_must work.keeps_may work.keeps_pure work.keeps_if work.keeps_musts

lemma create_gpt_keeps: "work.keeps h d dir tr (create_gpt h (ud_path d) plan tr)"
  unfolding create_gpt_def by (intro keeps_intros) (simp_all add: law_plain disk_node_def gpt_args_def)

lemma format_keeps:
  "disk_node d p \<Longrightarrow> work.keeps h d dir tr (format_esp h p tr)"
  "disk_node d p \<Longrightarrow> work.keeps h d dir tr (format_root h p tr)"
  unfolding format_esp_def format_root_def blkid_uuid_def Let_def
  by (intro keeps_intros; simp add: law_plain)+

lemma rewrite_file_keeps: "under dir p \<Longrightarrow> work.keeps h d dir tr (rewrite_file h p f tr)"
  unfolding rewrite_file_def read_text_def by (intro keeps_intros) (simp_all add: law_plain)

lemma walkdir_under:
  "walkdir p t = Inr ps \<Longrightarrow> under dir p \<Longrightarrow> list_all (under dir) ps"
  "walkdir_entries p es = Inr ps \<Longrightarrow> under dir p \<Longrightarrow> list_all (under dir) ps"
  by (induction p t and p es arbitrary: ps and ps rule: walkdir_walkdir_entries.induct)
     (auto simp: bind_r_Inr under_append)

lemma chown_keeps: "under dir p \<Longrightarrow> work.keeps h d dir tr (chown_recursive h p uid gid tr)"
proof -
  assume p: "under dir p"
  show ?thesis
  proof (cases "walkdir p (hs_tree h tr p)")
    case (Inr ps)
    have "c \<in> set (map (\<lambda>q. Chown q uid gid) (takeWhile (\<lambda>q. NUL \<notin> set q) ps)) \<Longrightarrow> install_law h d dir tr' [c]" for c tr'
      using walkdir_under(1)[OF Inr p] by (auto simp: law_plain list_all_iff dest: set_takeWhileD)
    with Inr show ?thesis unfolding chown_recursive_def Let_def by (auto intro!: keeps_intros)
  qed (simp add: chown_recursive_def work.keeps_pure)
qed

lemma rename_home_keeps: "under dir root \<Longrightarrow> work.keeps h d dir tr (rename_home h root u tr)"
  unfolding rename_home_def Let_def
  by (intro keeps_intros chown_keeps) (simp_all add: law_plain under_join)

lemma patch_xinitrc_keeps: "under dir root \<Longrightarrow> work.keeps h d dir tr (patch_xinitrc h root u k tr)"
  unfolding patch_xinitrc_def Let_def by (intro keeps_intros rewrite_file_keeps under_join) simp_all

lemma apply_network_keeps: "under dir root \<Longrightarrow> work.keeps h d dir tr (apply_network h root e tr)"
  unfolding apply_network_def Let_def
  by (intro keeps_intros) (auto simp: law_plain under_join network_units_def)

lemma customize_keeps: "under dir root \<Longrightarrow> work.keeps h d dir tr (customize h plan root tr)"
  unfolding customize_def Let_def
  by (intro keeps_intros rewrite_file_keeps rename_home_keeps patch_xinitrc_keeps apply_network_keeps)
     (simp_all add: law_plain under_join)


lemma umount_always: "under dir t \<Longrightarrow> work.always h d dir (Run ''umount'' [t]) tr (umount h t tr)"
  by (rule work.always_umount) (simp_all add: law_plain)

lemma esp_calls_keep:
  "under dir (esp_mount l) \<Longrightarrow> work.keeps h d dir tr (musts h (map esp_operation (esp_calls l)) tr)"
  by (rule work.keeps_musts) (auto simp: esp_calls_def Let_def law_plain under_append)

lemma fill_root_keeps:
  assumes "under dir root" "disk_node d esp"
  shows "work.keeps h d dir tr (fill_root h a plan uuid esp root tr)"
proof -
  have esp_dir: "under dir (path_join root ''boot/efi'')" using assms(1) by (simp add: under_join)
  show ?thesis
    unfolding fill_root_def Let_def
    by (intro keeps_intros customize_keeps keeps_mount work.always_guarded work.if_ok_then esp_calls_keep
        work.always_if_ok[OF umount_always]) (simp_all add: law_plain assms esp_dir)
qed

lemma verify_always:
  assumes "under dir wd" "disk_node d esp"
  shows "work.keeps h d dir tr (verify_post_write h a esp wd tr)"
  unfolding verify_post_write_def Let_def
proof (rule keeps_mount)
  let ?dir = "path_join wd ''verify-esp''"
  show "disk_node d esp" "under dir ?dir" using assms by (simp_all add: under_join)
  show "work.always h d dir (Run ''umount'' [?dir]) tr (r tr, snd (umount h ?dir tr))" for tr r
    using umount_always[of dir ?dir h d tr] assms by (simp add: work.keeps_call_def under_join)
qed

lemma write_files_keeps:
  assumes "under dir wd" "disk_node d esp" "disk_node d root"
  shows "work.keeps h d dir tr (write_files h a plan uuid esp root wd tr)"
  unfolding write_files_def Let_def
proof (rule keeps_mount)
  let ?root = "path_join wd ''root''"
  show "disk_node d root" by (rule assms)
  show root: "under dir ?root" using assms by (simp add: under_join)
  show "work.always h d dir (Run ''umount'' [?root]) tr
    (then_r (guarded h ?root (\<lambda>tr. then_r (fill_root h a plan uuid esp ?root tr) (\<lambda>_. umount h ?root)) tr)
      (\<lambda>_. verify_post_write h a esp wd))" for tr
    using root by (intro work.always_then work.always_guarded work.if_ok_then fill_root_keeps verify_always assms
        work.always_if_ok[OF umount_always]) (simp_all add: law_plain)
qed

text \<open>What follows the partitioning.\<close>

definition after_gpt :: "host \<Rightarrow> artifacts \<Rightarrow> usb_device \<Rightarrow> installation_plan \<Rightarrow> unit inst" where
  "after_gpt h a d plan tr =
     (case partition_paths (ud_path d) of (esp_part, root_part) \<Rightarrow>
        then_r (format_esp h esp_part tr) (\<lambda>_ tr.
        then_r (format_root h root_part tr) (\<lambda>uuid tr.
          (case hs_workdir h of
             None \<Rightarrow> (Inl No_Workdir, tr)
           | Some dir \<Rightarrow>
               (case write_files h a plan uuid esp_part root_part dir tr of
                  (r, tr') \<Rightarrow> (r, snd (may h (Remove_Tree dir) tr')))))))"

lemma write_disk_split:
  "write_disk h a d plan tr = then_r (create_gpt h (ud_path d) (ip_partition plan) tr) (\<lambda>_. after_gpt h a d plan)"
  by (cases "partition_paths (ud_path d)") (simp add: write_disk_def after_gpt_def[abs_def])

lemma after_gpt_keeps:
  assumes "\<And>wd. hs_workdir h = Some wd \<Longrightarrow> under dir wd"
  shows "work.keeps h d dir tr (after_gpt h a d plan tr)"
proof -
  obtain esp root where p: "partition_paths (ud_path d) = (esp, root)" by fastforce
  then have nodes: "disk_node d esp" "disk_node d root" by (simp_all add: disk_node_def)
  have rest: "work.keeps h d dir tr (case write_files h a plan uuid esp root wd tr of
      (r, tr') \<Rightarrow> (r, snd (may h (Remove_Tree wd) tr')))" if wd: "under dir wd" for uuid tr wd
  proof -
    obtain r tr' where w: "write_files h a plan uuid esp root wd tr = (r, tr')" by fastforce
    have "work.keeps h d dir tr (write_files h a plan uuid esp root wd tr)" by (rule write_files_keeps[OF wd nodes])
    with w obtain ext where "tr' = tr @ ext" "install_law h d dir tr ext" by (auto simp: work.keeps_def)
    moreover have "install_law h d dir (tr @ ext) [Remove_Tree wd]" using wd by (simp add: law_plain)
    ultimately show ?thesis using w unmounts_append
      by (auto simp: work.keeps_def may_def install_law_def)
  qed
  have "work.keeps h d dir tr (case hs_workdir h of None \<Rightarrow> (Inl No_Workdir, tr) | Some wd \<Rightarrow>
      (case write_files h a plan uuid esp root wd tr of (r, tr') \<Rightarrow> (r, snd (may h (Remove_Tree wd) tr'))))" for uuid tr
    using assms rest by (auto simp: work.keeps_pure split: option.split)
  then show ?thesis unfolding after_gpt_def p prod.case
    by (intro keeps_intros format_keeps nodes)
qed

lemma write_disk_keeps:
  assumes "\<And>wd. hs_workdir h = Some wd \<Longrightarrow> under dir wd"
  shows "work.keeps h d dir tr (write_disk h a d plan tr)"
  unfolding write_disk_split by (intro keeps_intros create_gpt_keeps after_gpt_keeps assms)

lemma write_disk_starts: "\<exists>ext. snd (write_disk h a d plan []) = Run ''sgdisk'' [''--zap-all'', ud_path d] # ext"
proof -
  let ?zap = "Run ''sgdisk'' [''--zap-all'', ud_path d]"
  have u: "under [] p" for p by (simp add: under_def starts_with_iff)
  have l: "install_law h d [] tr' [Run ''sgdisk'' (gpt_args (ud_path d) (ip_partition plan))]"
    "install_law h d [] tr' [Run ''partprobe'' [ud_path d]]" for tr'
    by (simp_all add: law_plain disk_node_def gpt_args_def)
  show ?thesis
  proof (cases "hs_ok h [] ?zap")
    case True
    have "work.keeps h d [] [?zap] (then_r
        (then_r (must h (Run ''sgdisk'' (gpt_args (ud_path d) (ip_partition plan))) [?zap]) (\<lambda>_ tr.
           then_r (may h (Run ''partprobe'' [ud_path d]) tr) (\<lambda>_ tr. (Inr (), tr))))
        (\<lambda>_. after_gpt h a d plan))"
      by (intro keeps_intros after_gpt_keeps l u)
    with True show ?thesis
      by (auto simp: write_disk_split create_gpt_def must_def[of h ?zap] work.keeps_def) (auto simp: then_r_def)
  qed (simp add: write_disk_split create_gpt_def must_def then_r_def)
qed

section \<open>The promises\<close>

lemma install_runs:
  assumes "install h a = Some (r, tr)" "tr \<noteq> []"
  obtains art spec d plan c where "prepare h a = Inr (art, spec)" "choose_plan h a spec = Some (Inr (d, plan), c)"
    "\<not> ia_dry_run a" "confirmed h a c = Inr ()" "write_disk h art d plan [] = (r, tr)"
  using assms by (auto simp: install_def split: sum.splits option.splits prod.splits if_splits)



text \<open>What the prompts leave of the input is input.\<close>

definition within :: "(io_error + string) set \<Rightarrow> console \<Rightarrow> bool" where
  "within S c \<longleftrightarrow> set (cs_lines c) \<subseteq> S"

lemma within_then:
  "within S (snd m) \<Longrightarrow> (\<And>x c. within S c \<Longrightarrow> within S (snd (f x c))) \<Longrightarrow> within S (snd (then_r m f))"
  by (cases m; cases "fst m") (auto simp: then_r_def)

lemma within_reads:
  "within S c \<Longrightarrow> within S (snd (read_line c))"
  "within S c \<Longrightarrow> within S (snd (prompt_u32 n c))"
  "within S c \<Longrightarrow> within S (snd (prompt_string s c))"
  "within S c \<Longrightarrow> within S (snd (prompt_password_and_hash openssl c))"
  by (auto simp: within_def read_line_def prompt_u32_def prompt_string_def prompt_password_and_hash_def
      split: list.splits prod.splits sum.splits)

lemma within_gathers:
  assumes "within S c"
  shows "within S (snd (gather_partition spec d c))" "within S (snd (gather_user openssl us c))"
    "within S (snd (gather_keyboard ks c))"
  using assms
  by (auto simp: gather_partition_def ask_root_def gather_user_def gather_keyboard_def prompt_keymap_def Let_def
      intro!: within_then within_reads split: option.split)

lemma plan_for_Inr: "plan_for openssl spec d c = (Inr (d', plan), c') \<longleftrightarrow> d' = d \<and> gather_plan openssl spec d c = (Inr plan, c')"
  by (cases "gather_plan openssl spec d c") (auto simp: plan_for_def bind_r_Inr)

lemma within_plan_for: "within S c \<Longrightarrow> within S (snd (plan_for openssl spec d c))"
proof -
  assume c: "within S c"
  have "within S (snd (gather_plan openssl spec d c))"
    unfolding gather_plan_def by (intro within_then within_gathers c) simp_all
  then show ?thesis by (cases "gather_plan openssl spec d c") (simp add: plan_for_def)
qed

lemma within_target: "within S c \<Longrightarrow> within S (snd (select_target files t f c))"
  using within_reads(1)[of S c]
  by (auto simp: select_target_def split: option.split sum.split list.split prod.split)

lemma within_choose: "choose_plan h a spec = Some (r, c) \<Longrightarrow> within (set (cs_lines (hs_console h))) c"
proof -
  let ?S = "set (cs_lines (hs_console h))"
  have start: "within ?S (hs_console h)" by (simp add: within_def)
  have "within ?S (snd (choose_by_prompts h a spec))"
    unfolding choose_by_prompts_def Let_def by (intro within_then within_target within_plan_for start) simp_all
  moreover assume "choose_plan h a spec = Some (r, c)"
  ultimately show ?thesis
    using start by (auto simp: choose_plan_def Let_def split: if_splits sum.splits option.splits)
qed

text \<open>What a chosen device and plan have passed.\<close>

lemma chosen_checked:
  assumes "choose_plan h a spec = Some (Inr (d, plan), c)"
  shows "safety_check (hs_files h []) d = Inr () \<and> sound_user (hs_openssl h) (ip_user plan)
    \<and> 64 \<le> pp_esp_mib (ip_partition plan) \<and> pp_esp_mib (ip_partition plan) \<le> 8192"
proof (cases "cli_path h a")
  case True
  with assms obtain c1 where "safety_check (hs_files h []) d = Inr ()" and g: "gather_plan (hs_openssl h) spec d c1 = (Inr plan, c)"
    by (auto simp: choose_plan_def choose_by_prompts_def Let_def then_r_Inr plan_for_Inr simp del: split_paired_Ex)
  moreover have "64 \<le> (100 :: u32)" "(4096 :: u32) \<le> 8192" by simp_all
  ultimately show ?thesis using prompts_plan_checked[OF g] by (meson order_trans)
next
  case False
  with assms obtain ds where "run_tui (hs_openssl h) (hs_setup h) (hs_teardown h) spec
      (filter (\<lambda>d. safety_check (hs_files h []) d = Inr ()) ds) (hs_events h) = Some (Inr (Some (d, plan)))"
    by (auto simp: choose_plan_def Let_def split: sum.splits if_splits option.splits)
  from form_plan_checked[OF this] show ?thesis by simp
qed

lemma confirmed_yes:
  assumes "confirmed h a c = Inr ()" "within S c"
  shows "ia_yes a \<or> \<not> cli_path h a \<or> (\<exists>line. Inr line \<in> S \<and> trim line = ''yes'')"
proof (rule ccontr)
  assume n: "\<not> ?thesis"
  with assms(1) obtain line where "fst (read_line c) = Inr line" "trim line = ''yes''"
    by (auto simp: confirmed_def confirm_wipe_def bind_r_Inr split: prod.splits if_splits)
  moreover have "trim [] \<noteq> ''yes''" by code_simp
  ultimately have "Inr line \<in> set (cs_lines c)" by (auto simp: read_line_def split: list.splits)
  with n assms(2) \<open>trim line = ''yes''\<close> show False by (auto simp: within_def)
qed

lemma prepare_checked:
  assumes "prepare h a = Inr (art, spec)"
  obtains m where "hs_euid h = 0" "hs_manifest h (ia_from a) = Some m" "art = resolve m (ia_from a)"
    "verify_against_manifest (hs_sha h []) art = Inr ()"
  using assms by (auto simp: prepare_def bind_r_Inr Let_def split: if_splits)


text \<open>
  C19: on every path, whichever operation fails, a mount that succeeded is followed by an unmount
  of the same target before the installer ends.
\<close>

theorem install_unmounts:
  assumes "install h a = Some (r, tr)" "i < length tr" "tr ! i = Run ''mount'' [opt, fs, source, target]"
    and "hs_ok h (take i tr) (tr ! i)"
  shows "\<exists>j. i < j \<and> j < length tr \<and> tr ! j = Run ''umount'' [target]"
proof -
  have "tr \<noteq> []" using assms(2) by auto
  from install_runs[OF assms(1) this] obtain art d plan where w: "write_disk h art d plan [] = (r, tr)" .
  have "work.keeps h d [] [] (write_disk h art d plan [])"
    by (rule write_disk_keeps) (simp add: under_def starts_with_iff)
  with w have "unmounts h [] tr" by (auto simp: work.keeps_def install_law_def)
  from unmounts_nth[OF this assms(2)] assms(3,4) show ?thesis by simp
qed

section \<open>A run in which unpacking fails\<close>

definition sample_args :: install_args where
  "sample_args = \<lparr>ia_from = ''/art'', ia_target = None, ia_spec = Some ''spec'', ia_yes = True, ia_dry_run = False,
     ia_force = False, ia_no_tui = False\<rparr>"

definition sample_manifest :: manifest where
  "sample_manifest = \<lparr>mf_schema_version = ''1'', mf_kernel = ''k'', mf_initramfs = ''i'', mf_bootloader = ''b'',
     mf_sysroot = ''s'', mf_cmdline = [], mf_kernel_sha256 = ''AB'', mf_initramfs_sha256 = ''ab'',
     mf_bootloader_sha256 = ''ab'', mf_sysroot_sha256 = ''ab''\<rparr>"

definition sample_host :: host where
  "sample_host =
     \<lparr>hs_euid = 0, hs_manifest = \<lambda>_. Some sample_manifest, hs_sha = \<lambda>_ _. Inr ''ab'', hs_spec = \<lambda>_. Some sample_spec,
      hs_files = \<lambda>_. \<lparr>hf_text = \<lambda>p. Inr (if p = ''/proc/mounts'' then [] else if ends_with ''/removable'' p then ''1'' else ''16777216''),
        hf_exists = \<lambda>_. True, hf_block = Inr [''sdb'']\<rparr>,
      hs_tree = \<lambda>_ _. Ft_Other, hs_tty = True, hs_console = sample_console ''4'', hs_openssl = sample_openssl,
      hs_setup = Inr (), hs_teardown = Inr (), hs_events = [], hs_ok = \<lambda>_ c. case c of Unpack _ _ \<Rightarrow> False | _ \<Rightarrow> True, hs_spawns = \<lambda>_ _. True,
      hs_output = \<lambda>_. ''ab-1'', hs_workdir = Some ''/tmp/w'', hs_day = 20000\<rparr>"

definition sample_trace :: "inst_call list" where
  "sample_trace =
     [Run ''sgdisk'' [''--zap-all'', ''/dev/sdb''],
      Run ''sgdisk'' (gpt_args ''/dev/sdb'' \<lparr>pp_esp_mib = 512, pp_root_gib = Some 4\<rparr>),
      Run ''partprobe'' [''/dev/sdb''],
      Run ''mkfs.vfat'' [''-F'', ''32'', ''-n'', ''WRITEONCE'', ''/dev/sdb1''],
      Run ''mkfs.ext4'' [''-F'', ''-L'', ''writeonce-root'', ''-E'', ''lazy_itable_init=0,lazy_journal_init=0'', ''/dev/sdb2''],
      Run ''blkid'' [''-s'', ''UUID'', ''-o'', ''value'', ''/dev/sdb2''],
      Make_Dirs ''/tmp/w/root'',
      Run ''mount'' [''-t'', ''ext4'', ''/dev/sdb2'', ''/tmp/w/root''],
      Unpack ''/art/s'' ''/tmp/w/root'',
      Run ''umount'' [''/tmp/w/root''],
      Remove_Tree ''/tmp/w'']"

lemma sample_install:
  "install sample_host sample_args = Some (Inl (Call_Failed (Unpack ''/art/s'' ''/tmp/w/root'')), sample_trace)"
  by code_simp


theorem install_unmounts_witness:
  "\<exists>j. 7 < j \<and> j < length sample_trace \<and> sample_trace ! j = Run ''umount'' [''/tmp/w/root'']"
  by (rule install_unmounts[OF sample_install, of 7 "''-t''" "''ext4''" "''/dev/sdb2''"])
     (simp_all add: sample_trace_def sample_host_def)

end
