(* ===== verification/Rust_Float.thy ===== *)
theory Rust_Float
  imports Rust_Text
begin

text \<open>
  Decimals of a 64-bit float, as sizes are printed: an integer becomes an \<open>f64\<close>, is divided by a
  constant and printed with a fixed number of digits. Both roundings are to the nearest even, and
  computed exactly on natural numbers.
\<close>

section \<open>Rounding\<close>

definition round_half_even :: "nat \<Rightarrow> nat \<Rightarrow> nat" where
  "round_half_even p q =
     (let d = p div q; r = p mod q in if q < 2 * r \<or> (2 * r = q \<and> odd d) then d + 1 else d)"

lemma round_half_even_close:
  assumes "0 < q"
  shows "2 * \<bar>int q * int (round_half_even p q) - int p\<bar> \<le> int q"
proof -
  have "int p = int q * int (p div q) + int (p mod q)" by (simp flip: of_nat_mult of_nat_add)
  moreover have "p mod q < q" using assms by simp
  ultimately show ?thesis
    by (auto simp: round_half_even_def Let_def distrib_left abs_le_iff)
qed

text \<open>
  \<open>p / q\<close> rounded to the 53 significant bits of an \<open>f64\<close>, when it is at least \<open>2 ^ 52\<close>. Other
  numbers are counted in \<open>f64_unit\<close>, which is fine enough for a quotient that is zero or at least
  \<open>10 ^ - 9\<close>.
\<close>

function round_f64 :: "nat \<Rightarrow> nat \<Rightarrow> nat" where
  "round_f64 p q = (if 0 < q \<and> 2 ^ 53 * q \<le> p then 2 * round_f64 p (2 * q) else round_half_even p q)"
  by pat_completeness auto
termination
  by (relation "measure (\<lambda>(p, q). p - q)") auto

declare round_f64.simps [simp del]

lemma round_f64_close:
  "0 < q \<Longrightarrow> 2 ^ 52 * q \<le> p \<Longrightarrow> 2 ^ 53 * \<bar>int q * int (round_f64 p q) - int p\<bar> \<le> int p"
proof (induction p q rule: round_f64.induct)
  case (1 p q)
  show ?case
  proof (cases "2 ^ 53 * q \<le> p")
    case True
    with 1 have "2 ^ 53 * \<bar>int (2 * q) * int (round_f64 p (2 * q)) - int p\<bar> \<le> int p" by simp
    with True 1(2) show ?thesis by (subst round_f64.simps) (simp add: algebra_simps)
  next
    case False
    then have "round_f64 p q = round_half_even p q" by (subst round_f64.simps) simp
    moreover have "int (2 ^ 52 * q) \<le> int p" using 1(3) by (rule of_nat_mono)
    then have "2 ^ 52 * int q \<le> int p" by simp
    moreover note round_half_even_close[OF 1(2), of p]
    ultimately show ?thesis by simp
  qed
qed

lemma round_f64_zero [simp]: "round_f64 0 q = 0"
  by (subst round_f64.simps) (simp add: round_half_even_def)

definition f64_unit :: nat where "f64_unit = 2 ^ 83"

text \<open>\<open>n as f64\<close>, division by an integer constant, and \<open>{:.k}\<close>.\<close>

definition f64_of_nat :: "nat \<Rightarrow> nat" where
  "f64_of_nat n = round_f64 (n * f64_unit) 1"

definition f64_div :: "nat \<Rightarrow> nat \<Rightarrow> nat" where
  "f64_div x n = round_f64 x n"

definition decimals :: "nat \<Rightarrow> nat \<Rightarrow> nat" where
  "decimals k x = round_half_even (x * 10 ^ k) f64_unit"

definition fixed_point :: "nat \<Rightarrow> nat \<Rightarrow> string" where
  "fixed_point k x =
     (let n = decimals k x; r = show_nat (n mod 10 ^ k)
      in show_nat (n div 10 ^ k) @ ''.'' @ replicate (k - length r) (CHR ''0'') @ r)"

section \<open>The error of a printed quotient\<close>

lemma f64_of_nat_close: "2 ^ 53 * \<bar>int (f64_of_nat n) - int (n * f64_unit)\<bar> \<le> int (n * f64_unit)"
proof (cases "n = 0")
  case False
  then have "2 ^ 52 * 1 \<le> n * f64_unit" by (cases n) (simp_all add: f64_unit_def)
  from round_f64_close[OF _ this] show ?thesis by (simp add: f64_of_nat_def)
qed (simp add: f64_of_nat_def)

lemma f64_of_nat_least: "n \<noteq> 0 \<Longrightarrow> 2 ^ 82 \<le> f64_of_nat n"
proof -
  assume "n \<noteq> 0"
  then have "int f64_unit \<le> int (n * f64_unit)" by (cases n) simp_all
  with f64_of_nat_close[of n] have "int (2 ^ 82) \<le> int (f64_of_nat n)" unfolding f64_unit_def by simp
  then show ?thesis by (simp only: of_nat_le_iff)
qed

lemma abs_scale: "0 \<le> t \<Longrightarrow> \<bar>a * t - c * t\<bar> = \<bar>a - c\<bar> * t" for a c t :: int
  by (simp add: abs_mult flip: left_diff_distrib)

lemma abs_chain:
  fixes a b c :: int
  assumes "0 \<le> c" "2 ^ 53 * \<bar>b - c\<bar> \<le> c" "2 ^ 53 * \<bar>a - b\<bar> \<le> b"
  shows "2 ^ 52 * \<bar>a - c\<bar> \<le> 2 * c"
proof -
  have "\<bar>a - c\<bar> \<le> \<bar>a - b\<bar> + \<bar>b - c\<bar>" "b \<le> c + \<bar>b - c\<bar>" by arith+
  with assms show ?thesis by simp
qed

lemma abs_join:
  fixes a b c e f :: int
  assumes "2 ^ 52 * \<bar>b - c\<bar> \<le> 2 * f" "2 * \<bar>a - b\<bar> \<le> e"
  shows "2 ^ 52 * \<bar>a - c\<bar> \<le> 2 ^ 51 * e + 2 * f"
proof -
  have "\<bar>a - c\<bar> \<le> \<bar>a - b\<bar> + \<bar>b - c\<bar>" by arith
  with assms show ?thesis by simp
qed

text \<open>
  The digits that are printed are those of the exact quotient: up to half of the last digit, and
  less than \<open>2 ^ - 51\<close> of the quotient.
\<close>

lemma decimals_close:
  assumes "0 < m" "m \<le> 2 ^ 30"
  shows "2 ^ 52 * \<bar>int m * int (decimals k (f64_div (f64_of_nat n) m)) - int n * 10 ^ k\<bar>
    \<le> 2 ^ 51 * int m + 2 * int n * 10 ^ k"
proof -
  define N x d where "N = f64_of_nat n" and "x = f64_div N m" and "d = decimals k x"
  define U where "U = int f64_unit"
  have U: "0 < U" by (simp add: U_def f64_unit_def)
  have 1: "2 ^ 53 * \<bar>int N - int n * U\<bar> \<le> int n * U"
    using f64_of_nat_close[of n] by (simp add: N_def U_def)
  have 2: "2 ^ 53 * \<bar>int m * int x - int N\<bar> \<le> int N"
  proof (cases "n = 0")
    case False
    have "2 ^ 52 * m \<le> 2 ^ 52 * 2 ^ 30" using assms(2) by (intro mult_le_mono2)
    also have "\<dots> \<le> N" using f64_of_nat_least[OF False] by (simp add: N_def)
    finally show ?thesis unfolding x_def f64_div_def by (rule round_f64_close[OF assms(1)])
  qed (simp add: N_def x_def f64_of_nat_def f64_div_def)
  have 3: "2 * \<bar>U * int d - int x * 10 ^ k\<bar> \<le> U"
    using round_half_even_close[of f64_unit "x * 10 ^ k"] U by (simp add: d_def decimals_def U_def)
  have "0 \<le> int n * U" using U by simp
  with 1 2 have 4: "2 ^ 52 * \<bar>int m * int x - int n * U\<bar> \<le> 2 * (int n * U)"
    by (intro abs_chain)
  have "2 ^ 52 * \<bar>int m * int x * 10 ^ k - int n * U * 10 ^ k\<bar> = 2 ^ 52 * \<bar>int m * int x - int n * U\<bar> * 10 ^ k"
    by (subst abs_scale) simp_all
  also have "\<dots> \<le> 2 * (int n * U) * 10 ^ k" using 4 by (intro mult_right_mono) simp_all
  finally have 5: "2 ^ 52 * \<bar>int m * int x * 10 ^ k - int n * U * 10 ^ k\<bar> \<le> 2 * (int n * U * 10 ^ k)"
    by (simp only: mult.assoc)
  have "2 * \<bar>U * int d * int m - int x * 10 ^ k * int m\<bar> = 2 * \<bar>U * int d - int x * 10 ^ k\<bar> * int m"
    by (subst abs_scale) simp_all
  also have "\<dots> \<le> U * int m" using 3 by (intro mult_right_mono) simp_all
  finally have 6: "2 * \<bar>int m * int d * U - int m * int x * 10 ^ k\<bar> \<le> int m * U"
    by (simp only: ac_simps)
  have "2 ^ 52 * \<bar>int m * int d * U - int n * U * 10 ^ k\<bar> \<le> 2 ^ 51 * (int m * U) + 2 * (int n * U * 10 ^ k)"
    by (rule abs_join[OF 5 6])
  also have "\<dots> = (2 ^ 51 * int m + 2 * int n * 10 ^ k) * U" by (simp add: algebra_simps)
  also have "\<bar>int m * int d * U - int n * U * 10 ^ k\<bar> = \<bar>int m * int d * U - int n * 10 ^ k * U\<bar>" by (simp only: ac_simps)
  also have "\<dots> = \<bar>int m * int d - int n * 10 ^ k\<bar> * U" using U by (simp only: abs_scale less_imp_le)
  finally have "2 ^ 52 * \<bar>int m * int d - int n * 10 ^ k\<bar> * U \<le> (2 ^ 51 * int m + 2 * int n * 10 ^ k) * U"
    by (simp add: mult.assoc)
  then show ?thesis using U unfolding d_def x_def N_def by (simp only: mult_le_cancel_right_pos)
qed

end
