(* ===== verification/Installer_Screen.thy ===== *)
theory Installer_Screen
  imports Installer_Safety Rust_Float
begin

text \<open>
  What the form draws (crates/writeonce-installer/src/tui.rs, from draw on): the widgets of a frame
  with their texts, styles and places, the frames the loop draws, and what is done to the terminal
  around it. How a widget becomes cells of the screen is ratatui's business. The size of a disk is
  printed with the decimals of Rust_Float.
\<close>

text \<open>\<open>UsbDevice::size_gb\<close>, in \<open>f64_unit\<close>.\<close>

definition size_gb :: "usb_device \<Rightarrow> nat" where
  "size_gb d = f64_div (f64_of_nat (unat (ud_size d))) 1000000000"

text \<open>The two decimals that are printed are those of the size, up to half of the last and 17 kB.\<close>

lemma size_gb_close:
  "\<bar>int (decimals 2 (size_gb d)) * 10 ^ 7 - int (unat (ud_size d))\<bar> \<le> 5 * 10 ^ 6 + 2 ^ 14"
proof -
  let ?n = "int (unat (ud_size d))" and ?d = "int (decimals 2 (size_gb d))"
  have "?n < 2 ^ 64" using unsigned_less[of "ud_size d", where ?'a = int] by simp
  moreover have "2 ^ 52 * \<bar>10 ^ 9 * ?d - ?n * 10 ^ 2\<bar> \<le> 2 ^ 51 * 10 ^ 9 + 2 * ?n * 10 ^ 2"
    using decimals_close[of 1000000000 2 "unat (ud_size d)"] by (simp add: size_gb_def)
  moreover have "10 ^ 9 * ?d - ?n * 10 ^ 2 = (?d * 10 ^ 7 - ?n) * 100" by simp
  then have "\<bar>10 ^ 9 * ?d - ?n * 10 ^ 2\<bar> = \<bar>?d * 10 ^ 7 - ?n\<bar> * 100"
    by (simp only: abs_mult abs_numeral)
  ultimately have "2 ^ 52 * (\<bar>?d * 10 ^ 7 - ?n\<bar> * 100) \<le> 2 ^ 51 * 10 ^ 9 + 2 * 2 ^ 64 * 10 ^ 2" by simp
  then show ?thesis by simp
qed

section \<open>Widgets\<close>

datatype colour = Cyan | Red | Dark_Gray | Yellow | Black

record style =
  st_fg :: "colour option"
  st_bg :: "colour option"
  st_bold :: bool
  st_blink :: bool

definition plain :: style where
  "plain = \<lparr>st_fg = None, st_bg = None, st_bold = False, st_blink = False\<rparr>"

abbreviation in_colour :: "colour \<Rightarrow> style" where
  "in_colour c \<equiv> plain\<lparr>st_fg := Some c\<rparr>"

record text_line =
  tl_style :: style
  tl_spans :: "(string \<times> style) list"

definition raw_line :: "string \<Rightarrow> text_line" where
  "raw_line s = \<lparr>tl_style = plain, tl_spans = [(s, plain)]\<rparr>"

datatype contents = Plain_Text string | Text_Lines "text_line list"

record border =
  bd_title :: "string option"
  bd_style :: style

datatype widget =
    Paragraph_Of contents style bool "border option"
  | List_Of "(string \<times> style) list" border style string "nat option"

text \<open>The rows of a vertical layout, and the place of a widget.\<close>

datatype rows = Exactly nat | At_Least nat
datatype place = Whole_Screen | Row place "rows list" nat

type_synonym frame = "(place \<times> widget) list"

text \<open>Characters outside ASCII.\<close>

definition middle_dot :: string where "middle_dot = [CHR 0xC2, CHR 0xB7]"
definition en_dash :: string where "en_dash = [CHR 0xE2, CHR 0x80, CHR 0x93]"
definition ellipsis :: string where "ellipsis = [CHR 0xE2, CHR 0x80, CHR 0xA6]"
definition bullet :: string where "bullet = [CHR 0xE2, CHR 0x97, CHR 0x8F]"
definition warning_sign :: string where "warning_sign = [CHR 0xE2, CHR 0x9A, CHR 0xA0]"
definition vertical_bar :: string where "vertical_bar = [CHR 0xE2, CHR 0x94, CHR 0x82]"
definition left_arrow :: string where "left_arrow = [CHR 0xE2, CHR 0x86, CHR 0x90]"
definition up_down_arrows :: string where
  "up_down_arrows = [CHR 0xE2, CHR 0x86, CHR 0x91, CHR 0xE2, CHR 0x86, CHR 0x93]"
definition pointer :: string where "pointer = [CHR 0xE2, CHR 0x96, CHR 0xB6]"

section \<open>Header and footer\<close>

fun header_title :: "screen \<Rightarrow> string" where
  "header_title Device_Select = ''WriteOnce Installer '' @ middle_dot @ '' [1/5] Select target device''"
| "header_title Partition_Screen = ''WriteOnce Installer '' @ middle_dot @ '' [2/5] Partition layout''"
| "header_title User_Screen = ''WriteOnce Installer '' @ middle_dot @ '' [3/5] User account''"
| "header_title Keyboard_Screen = ''WriteOnce Installer '' @ middle_dot @ '' [4/5] Keyboard''"
| "header_title Summary = ''WriteOnce Installer '' @ middle_dot @ '' [5/5] Review + confirm''"

definition header_widget :: "screen \<Rightarrow> widget" where
  "header_widget s = Paragraph_Of (Plain_Text (header_title s)) (plain\<lparr>st_fg := Some Cyan, st_bold := True\<rparr>) True
     (Some \<lparr>bd_title = None, bd_style = in_colour Cyan\<rparr>)"

definition draw_header :: "place \<Rightarrow> app \<Rightarrow> frame" where
  "draw_header area a = [(area, header_widget (ap_screen a))]"

fun key_hints :: "screen \<Rightarrow> string" where
  "key_hints Device_Select = up_down_arrows @ '' select   Enter continue   Esc cancel''"
| "key_hints Partition_Screen = ''Tab cycle   Enter continue   '' @ left_arrow @ ''Back   Esc cancel''"
| "key_hints User_Screen =
     ''Tab cycle   F2 toggle password visibility   Enter continue   '' @ left_arrow @ ''Back   Esc cancel''"
| "key_hints Keyboard_Screen = ''Tab cycle   Enter continue   '' @ left_arrow @ ''Back   Esc cancel''"
| "key_hints Summary = ''Enter to CONFIRM and install   '' @ left_arrow @ ''Back   Esc cancel''"

text \<open>The messages of the checks; the errors of the line prompts never reach the form.\<close>

definition quoted_root :: string where
  "quoted_root = [CHR 0x27] @ ''root'' @ [CHR 0x27]"

fun form_message :: "plan_error \<Rightarrow> string" where
  "form_message (Not_Removable path) = path @ '' is not removable; refusing.''"
| "form_message Esp_Number = ''ESP must be a number in 64'' @ en_dash @ ''8192 MiB''"
| "form_message Root_Number = ''root GiB must be a non-negative integer (0 = rest)''"
| "form_message (Root_Too_Big r most) =
     ''root '' @ show_nat (unat r) @ '' GiB exceeds available '' @ show_nat (unat most) @ '' GiB after ESP''"
| "form_message Name_Unset = ''username must be set and must not be '' @ quoted_root"
| "form_message Name_Chars = ''username must be lowercase alphanumeric + underscore only''"
| "form_message Password_Short = ''password must be at least 6 characters''"
| "form_message Password_Mismatch = ''password and confirmation do not match''"
| "form_message Layout_Empty = ''layout cannot be empty''"
| "form_message Layout_Chars = ''layout must be lowercase alphanumeric + underscore''"
| "form_message Variant_Chars = ''variant must be lowercase alphanumeric + underscore''"
| "form_message _ = []"

definition footer_widget :: "plan_error option \<Rightarrow> screen \<Rightarrow> widget" where
  "footer_widget err s =
     Paragraph_Of
       (Plain_Text (case err of
          Some e \<Rightarrow> warning_sign @ '' '' @ form_message e @ ''    '' @ vertical_bar @ ''    '' @ key_hints s
        | None \<Rightarrow> key_hints s))
       (if err \<noteq> None then plain\<lparr>st_fg := Some Red, st_bold := True\<rparr> else in_colour Dark_Gray)
       True (Some \<lparr>bd_title = None, bd_style = plain\<rparr>)"

definition draw_footer :: "place \<Rightarrow> app \<Rightarrow> frame" where
  "draw_footer area a = [(area, footer_widget (ap_error a) (ap_screen a))]"

section \<open>The screens\<close>

definition device_label :: "usb_device \<Rightarrow> string" where
  "device_label d = pad_right 10 (ud_path d) @ ''  '' @ pad_left 6 (fixed_point 1 (size_gb d)) @ '' GB  ''
     @ ud_vendor d @ '' '' @ ud_model d @ (if ud_removable d then [] else ''  [NOT REMOVABLE]'')"

definition draw_devices :: "place \<Rightarrow> app \<Rightarrow> frame" where
  "draw_devices area a =
     [(area, List_Of
        (map (\<lambda>d. (device_label d, if ud_removable d then plain else in_colour Red)) (ap_devices a))
        \<lparr>bd_title = Some '' Removable block devices '', bd_style = plain\<rparr>
        \<lparr>st_fg = Some Black, st_bg = Some Cyan, st_bold = True, st_blink = False\<rparr>
        (pointer @ '' '') (ap_selected a))]"

definition input_widget :: "string \<Rightarrow> string \<Rightarrow> bool \<Rightarrow> widget" where
  "input_widget label content focused =
     Paragraph_Of
       (Text_Lines [\<lparr>tl_style = plain, tl_spans =
          [('' '' @ content, plain),
           (if focused then ''_'' else [], \<lparr>st_fg = Some Cyan, st_bg = None, st_bold = False, st_blink = True\<rparr>)]\<rparr>])
       plain False
       (Some \<lparr>bd_title = Some label, bd_style = (if focused then in_colour Cyan else in_colour Dark_Gray)\<rparr>)"

definition root_label :: "app \<Rightarrow> string" where
  "root_label a =
     '' Root size (GiB) '' @ em_dash @ '' 0 = use rest (max ''
     @ show_nat (unat (max_root_gib (or_else 0 (parse_u32 (trim (ap_esp a)))) (current_device a))) @ '' GiB)''"

definition draw_partition :: "place \<Rightarrow> app \<Rightarrow> frame" where
  "draw_partition area a =
     (let dev = current_device a; body = Row area [Exactly 3, Exactly 3, At_Least 0];
          esp_label = '' ESP size (MiB) '' @ em_dash @ '' default '' @ show_nat (unat DEFAULT_ESP_MIB)
            @ '', range 64'' @ en_dash @ ''8192'' in
      [(body 0, input_widget esp_label (ap_esp a) (ap_partition_focus a = 0)),
       (body 1, input_widget (root_label a) (ap_root a) (ap_partition_focus a = 1)),
       (body 2, Paragraph_Of
          (Text_Lines
            [raw_line [],
             raw_line ('' Target: '' @ ud_path dev @ '' ('' @ fixed_point 2 (size_gb dev) @ '' GB)''),
             raw_line ('' Vendor / Model: '' @ ud_vendor dev @ '' '' @ ud_model dev)])
          plain False None)])"

definition masked :: "app \<Rightarrow> string \<Rightarrow> string" where
  "masked a secret = (if ap_show_passwords a then secret else concat (replicate (length secret) bullet))"

definition draw_user :: "place \<Rightarrow> app \<Rightarrow> frame" where
  "draw_user area a =
     (let body = Row area [Exactly 3, Exactly 3, Exactly 3, Exactly 3, At_Least 0] in
      [(body 0, input_widget '' Username (not root)'' (ap_user_name a) (ap_user_focus a = 0)),
       (body 1, input_widget '' Real name (optional)'' (ap_user_realname a) (ap_user_focus a = 1)),
       (body 2, input_widget '' Password (min 6 chars)'' (masked a (ap_password a)) (ap_user_focus a = 2)),
       (body 3, input_widget '' Confirm password'' (masked a (ap_password_confirm a)) (ap_user_focus a = 3))])"

definition draw_keyboard :: "place \<Rightarrow> app \<Rightarrow> frame" where
  "draw_keyboard area a =
     (let body = Row area [Exactly 3, Exactly 3, At_Least 0] in
      [(body 0, input_widget ('' Layout (us, uk, de, fr, es, '' @ ellipsis @ '')'') (ap_layout a) (ap_keyboard_focus a = 0)),
       (body 1, input_widget ('' Variant (optional '' @ em_dash @ '' dvorak, intl, '' @ ellipsis @ '')'') (ap_variant a)
          (ap_keyboard_focus a = 1))])"

section \<open>The summary\<close>

definition summary_line :: "string \<Rightarrow> string \<Rightarrow> style \<Rightarrow> text_line" where
  "summary_line label text s =
     \<lparr>tl_style = plain, tl_spans = [(label, in_colour Cyan), ('': '', plain), (text, s)]\<rparr>"

definition target_text :: "usb_device \<Rightarrow> string" where
  "target_text dev = ud_path dev @ ''  ('' @ fixed_point 2 (size_gb dev) @ '' GB, '' @ ud_vendor dev @ '' ''
     @ ud_model dev @ '')''"

definition wipe_warning :: text_line where
  "wipe_warning = \<lparr>tl_style = plain\<lparr>st_fg := Some Yellow, st_bold := True\<rparr>,
     tl_spans = [('' '' @ warning_sign @ '' Pressing Enter wipes the entire target device.'', plain)]\<rparr>"

definition summary_widget :: "text_line list \<Rightarrow> widget" where
  "summary_widget rows = Paragraph_Of (Text_Lines ([raw_line []] @ rows @ [raw_line [], wipe_warning])) plain False
     (Some \<lparr>bd_title = Some '' Installation summary '', bd_style = plain\<rparr>)"

definition draw_summary :: "place \<Rightarrow> app \<Rightarrow> frame" where
  "draw_summary area a =
     (let esp = or_else 0 (parse_u32 (trim (ap_esp a)));
          root = (case parse_u32 (trim (ap_root a)) of
                    None \<Rightarrow> ''rest of disk''
                  | Some v \<Rightarrow> if v = 0 then ''rest of disk'' else show_nat (unat v) @ '' GiB'') in
      [(area, summary_widget
         [summary_line '' Target device '' (target_text (current_device a)) (plain\<lparr>st_bold := True\<rparr>),
          summary_line '' Partitioning ''
            (''ESP '' @ show_nat (unat esp) @ '' MiB '' @ middle_dot @ '' root '' @ root) plain,
          summary_line '' User         ''
            (ap_user_name a @ '' (uid 1000, ''
              @ (if ap_user_realname a = [] then ''no real name'' else ap_user_realname a) @ '')'') plain,
          summary_line '' Shell        '' (or_else DEFAULT_SHELL (ap_spec_shell a)) plain,
          summary_line '' Groups       '' (join '','' (or_else DEFAULT_GROUPS (ap_spec_groups a))) plain,
          summary_line '' Keyboard     ''
            (ap_layout a @ (if ap_variant a = [] then [] else '' ('' @ ap_variant a @ '')'')) plain])])"

definition draw :: "app \<Rightarrow> frame" where
  "draw a =
     (let chunks = Row Whole_Screen [Exactly 3, At_Least 10, Exactly 3] in
      draw_header (chunks 0) a
      @ (case ap_screen a of
           Device_Select \<Rightarrow> draw_devices (chunks 1) a
         | Partition_Screen \<Rightarrow> draw_partition (chunks 1) a
         | User_Screen \<Rightarrow> draw_user (chunks 1) a
         | Keyboard_Screen \<Rightarrow> draw_keyboard (chunks 1) a
         | Summary \<Rightarrow> draw_summary (chunks 1) a)
      @ draw_footer (chunks 2) a)"

text \<open>The forms the loop draws: one before each event it waits for.\<close>

fun drawn_forms :: "app \<Rightarrow> (io_error + key_event option) list \<Rightarrow> app list" where
  "drawn_forms a [] = [a]"
| "drawn_forms a (Inl e # r) = [a]"
| "drawn_forms a (Inr None # r) = a # drawn_forms a r"
| "drawn_forms a (Inr (Some k) # r) =
     a # (if \<not> ke_press k then drawn_forms a r
          else let a' = handle_key a k in if ap_outcome a' \<noteq> None then [] else drawn_forms a' r)"

section \<open>The terminal\<close>

datatype tty_op =
    Enable_Raw_Mode | Enter_Screen | New_Terminal | Draw_Frame frame
  | Disable_Raw_Mode | Leave_Screen | Show_Cursor

definition setup_terminal :: "(tty_op \<Rightarrow> io_error + unit) \<Rightarrow> (plan_error + unit) \<times> tty_op list" where
  "setup_terminal io =
     (case io Enable_Raw_Mode of
        Inl e \<Rightarrow> (Inl (Terminal e), [Enable_Raw_Mode])
      | Inr _ \<Rightarrow>
          (case io Enter_Screen of
             Inl e \<Rightarrow> (Inl (Terminal e), [Enable_Raw_Mode, Enter_Screen])
           | Inr _ \<Rightarrow> (map_err Terminal (io New_Terminal), [Enable_Raw_Mode, Enter_Screen, New_Terminal])))"

definition teardown_terminal :: "(plan_error + unit) \<times> tty_op list" where
  "teardown_terminal = (Inr (), [Disable_Raw_Mode, Leave_Screen, Show_Cursor])"

text \<open>What \<open>run_tui\<close> returns and what it has done to the terminal.\<close>

definition run_form ::
  "openssl \<Rightarrow> (tty_op \<Rightarrow> io_error + unit) \<Rightarrow> target_os_spec \<Rightarrow> usb_device list \<Rightarrow> (io_error + key_event option) list
     \<Rightarrow> (plan_error + (usb_device \<times> installation_plan) option) option \<times> tty_op list" where
  "run_form openssl io spec devices events =
     (run_tui openssl (fst (setup_terminal io)) (fst teardown_terminal) spec devices events,
      if devices = [] then []
      else snd (setup_terminal io)
        @ (case fst (setup_terminal io) of
             Inl e \<Rightarrow> []
           | Inr _ \<Rightarrow>
               map (\<lambda>a. Draw_Frame (draw a)) (drawn_forms (new_app spec devices) events)
               @ (if fst (tui_loop (new_app spec devices) events) = Form_Open then [] else snd teardown_terminal)))"

section \<open>What the screen gives away of the passwords\<close>

text \<open>
  Someone else at the keyboard, whose passwords have other bytes in the same places: \<open>renaming\<close>
  keeps different bytes different and characters as long as they are.
\<close>

definition renaming :: "(char \<Rightarrow> char) \<Rightarrow> bool" where
  "renaming h \<longleftrightarrow> inj h \<and> (\<forall>c. cont_byte (of_char (h c)) = cont_byte (of_char c))"

definition rename_passwords :: "(char \<Rightarrow> char) \<Rightarrow> app \<Rightarrow> app" where
  "rename_passwords h a =
     a\<lparr>ap_password := map h (ap_password a), ap_password_confirm := map h (ap_password_confirm a)\<rparr>"

definition rename_key :: "(char \<Rightarrow> char) \<Rightarrow> app \<Rightarrow> key_event \<Rightarrow> key_event" where
  "rename_key h a k =
     (case ke_code k of
        Key_Char c \<Rightarrow>
          if ap_screen a = User_Screen \<and> 2 \<le> ap_user_focus a \<and> \<not> (c = ''c'' \<and> ke_control k)
          then k\<lparr>ke_code := Key_Char (map h c), ke_control := False\<rparr> else k
      | _ \<Rightarrow> k)"

fun rename_events ::
  "(char \<Rightarrow> char) \<Rightarrow> app \<Rightarrow> (io_error + key_event option) list \<Rightarrow> (io_error + key_event option) list" where
  "rename_events h a [] = []"
| "rename_events h a (Inl e # r) = Inl e # r"
| "rename_events h a (Inr None # r) = Inr None # rename_events h a r"
| "rename_events h a (Inr (Some k) # r) =
     (if \<not> ke_press k then Inr (Some k) # rename_events h a r
      else Inr (Some (rename_key h a k)) # rename_events h (handle_key a k) r)"

lemma pop_char_map: "renaming h \<Longrightarrow> pop_char (map h s) = map h (pop_char s)"
  by (simp add: pop_char_def renaming_def rev_map dropWhile_map map_tl [symmetric] comp_def)

lemma submit_user_rename: "renaming h \<Longrightarrow> submit_user (rename_passwords h a) = rename_passwords h (submit_user a)"
  by (simp add: submit_user_def rename_passwords_def renaming_def inj_map_eq_map)

lemma rename_frame [simp]:
  "ap_screen (rename_passwords h a) = ap_screen a" "ap_user_focus (rename_passwords h a) = ap_user_focus a"
  "ap_outcome (rename_passwords h a) = ap_outcome a"
  "(rename_passwords h a)\<lparr>ap_error := e\<rparr> = rename_passwords h (a\<lparr>ap_error := e\<rparr>)"
  by (simp_all add: rename_passwords_def)

lemma rename_key_press [simp]: "ke_press (rename_key h a k) = ke_press k"
  by (simp add: rename_key_def split: key_code.split)

lemma other_keys_rename:
  "handle_devices (rename_passwords h a) k = rename_passwords h (handle_devices a k)"
  "handle_partition (rename_passwords h a) k = rename_passwords h (handle_partition a k)"
  "handle_keyboard (rename_passwords h a) k = rename_passwords h (handle_keyboard a k)"
  "handle_summary (rename_passwords h a) k = rename_passwords h (handle_summary a k)"
proof -
  let ?f = "rename_passwords h"
  have upd: "(?f a)\<lparr>ap_screen := s\<rparr> = ?f (a\<lparr>ap_screen := s\<rparr>)" "(?f a)\<lparr>ap_outcome := r\<rparr> = ?f (a\<lparr>ap_outcome := r\<rparr>)"
    "(?f a)\<lparr>ap_partition_focus := n\<rparr> = ?f (a\<lparr>ap_partition_focus := n\<rparr>)"
    "(?f a)\<lparr>ap_keyboard_focus := n\<rparr> = ?f (a\<lparr>ap_keyboard_focus := n\<rparr>)" for s r n
    by (simp_all add: rename_passwords_def)
  have device: "current_device (?f a) = current_device a" "select_device i (?f a) = ?f (select_device i a)" for i
    by (simp_all add: rename_passwords_def current_device_def select_device_def)
  have get: "ap_device_idx (?f a) = ap_device_idx a" "ap_devices (?f a) = ap_devices a"
    "ap_partition_focus (?f a) = ap_partition_focus a" "ap_keyboard_focus (?f a) = ap_keyboard_focus a"
    "ap_esp (?f a) = ap_esp a" "ap_root (?f a) = ap_root a" "ap_layout (?f a) = ap_layout a" "ap_variant (?f a) = ap_variant a"
    by (simp_all add: rename_passwords_def)
  have edit: "edit_partition f (?f a) = ?f (edit_partition f a)" "edit_keyboard f (?f a) = ?f (edit_keyboard f a)" for f
    by (simp_all add: rename_passwords_def edit_partition_def edit_keyboard_def)
  have submit: "submit_partition (?f a) = ?f (submit_partition a)" "submit_keyboard (?f a) = ?f (submit_keyboard a)"
    by (simp_all add: submit_partition_def submit_keyboard_def get device upd Let_def split: option.split)
  show "handle_devices (?f a) k = ?f (handle_devices a k)"
    by (simp add: handle_devices_def get device upd)
  show "handle_partition (?f a) k = ?f (handle_partition a k)" "handle_keyboard (?f a) k = ?f (handle_keyboard a k)"
    "handle_summary (?f a) k = ?f (handle_summary a k)"
    by (cases "ke_code k"; simp add: get upd edit submit)+
qed

lemma handle_user_rename:
  assumes "renaming h" "ap_screen a = User_Screen"
    and "\<not> (ke_code k = Key_Char ''c'' \<and> ke_control k)"
  shows "handle_user (rename_passwords h a) (rename_key h a k) = rename_passwords h (handle_user a k)"
proof (cases "ke_code k")
  case Key_Backspace
  with assms(1) show ?thesis by (simp add: rename_key_def edit_user_def rename_passwords_def pop_char_map)
next
  case (Key_Char c)
  with assms show ?thesis by (auto simp: rename_key_def edit_user_def rename_passwords_def)
qed (use assms in \<open>simp_all add: rename_key_def submit_user_rename\<close>, simp_all add: rename_passwords_def)

lemma rename_key_code:
  "ke_code (rename_key h a k) = Key_Esc \<longleftrightarrow> ke_code k = Key_Esc"
  "ke_code (rename_key h a k) = Key_Char ''c'' \<and> ke_control (rename_key h a k)
    \<longleftrightarrow> ke_code k = Key_Char ''c'' \<and> ke_control k"
  by (auto simp: rename_key_def split: key_code.splits)

lemma handle_key_rename:
  assumes "renaming h"
  shows "handle_key (rename_passwords h a) (rename_key h a k) = rename_passwords h (handle_key a k)"
proof -
  let ?b = "a\<lparr>ap_error := None\<rparr>"
  have outcome: "(rename_passwords h a)\<lparr>ap_outcome := r\<rparr> = rename_passwords h (a\<lparr>ap_outcome := r\<rparr>)" for r
    by (simp add: rename_passwords_def)
  have key: "rename_key h a k = rename_key h ?b k" by (simp add: rename_key_def split: key_code.split)
  have "ap_screen a \<noteq> User_Screen \<Longrightarrow> rename_key h ?b k = k" by (auto simp: rename_key_def split: key_code.split)
  with handle_user_rename[OF assms, of ?b k] show ?thesis
    unfolding handle_key_def Let_def rename_key_code
    by (auto simp: outcome key other_keys_rename simp del: handlers_simps split: screen.split)
qed

lemma drawn_forms_rename:
  assumes "renaming h"
  shows "drawn_forms (rename_passwords h a) (rename_events h a es) = map (rename_passwords h) (drawn_forms a es)"
  by (induction a es rule: drawn_forms.induct) (simp_all add: Let_def handle_key_rename[OF assms])

text \<open>While the passwords are hidden a frame shows their lengths only.\<close>

lemma draw_hides:
  "\<not> ap_show_passwords a \<Longrightarrow> length p = length (ap_password a) \<Longrightarrow> length q = length (ap_password_confirm a)
    \<Longrightarrow> draw (a\<lparr>ap_password := p, ap_password_confirm := q\<rparr>) = draw a"
  unfolding draw_def Let_def
  by (cases "ap_screen a")
     (simp_all add: draw_header_def draw_devices_def draw_partition_def root_label_def draw_user_def masked_def
        draw_keyboard_def draw_summary_def draw_footer_def current_device_def Let_def)

lemma handlers_hide:
  "ap_show_passwords (handle_devices a k) = ap_show_passwords a"
  "ap_show_passwords (handle_partition a k) = ap_show_passwords a"
  "ke_code k \<noteq> Key_F 2 \<Longrightarrow> ap_show_passwords (handle_user a k) = ap_show_passwords a"
  "ap_show_passwords (handle_keyboard a k) = ap_show_passwords a"
  "ap_show_passwords (handle_summary a k) = ap_show_passwords a"
proof -
  obtain s e s' e' s'' e'' where f: "submit_partition a = a\<lparr>ap_screen := s, ap_error := e\<rparr>"
    "submit_user a = a\<lparr>ap_screen := s', ap_error := e'\<rparr>" "submit_keyboard a = a\<lparr>ap_screen := s'', ap_error := e''\<rparr>"
    using submits_frame[of a] by blast
  show "ap_show_passwords (handle_devices a k) = ap_show_passwords a"
    by (simp add: handle_devices_def select_device_def)
  show "ap_show_passwords (handle_partition a k) = ap_show_passwords a"
    "ke_code k \<noteq> Key_F 2 \<Longrightarrow> ap_show_passwords (handle_user a k) = ap_show_passwords a"
    "ap_show_passwords (handle_keyboard a k) = ap_show_passwords a"
    "ap_show_passwords (handle_summary a k) = ap_show_passwords a"
    by (simp_all add: f edit_partition_def edit_user_def edit_keyboard_def split: key_code.split)
qed

lemma handle_key_hides: "ke_code k \<noteq> Key_F 2 \<Longrightarrow> ap_show_passwords (handle_key a k) = ap_show_passwords a"
  unfolding handle_key_def Let_def
  by (simp add: handlers_hide del: handlers_simps split: screen.split)

lemma drawn_forms_hide:
  "list_all (\<lambda>k. ke_code k \<noteq> Key_F 2) (pressed es) \<Longrightarrow> \<not> ap_show_passwords a
    \<Longrightarrow> b \<in> set (drawn_forms a es) \<Longrightarrow> \<not> ap_show_passwords b"
  by (induction a es rule: drawn_forms.induct) (auto simp: Let_def handle_key_hides split: if_splits)

text \<open>
  C15: until F2 is pressed the form does not show a password: whatever keys
  are typed, every frame is the same for all passwords of the same lengths, and someone whose
  passwords have other bytes in the same places sees the same frames from the first to the last,
  the messages of the checks included.
\<close>

theorem passwords_never_drawn:
  assumes "renaming h" "list_all (\<lambda>k. ke_code k \<noteq> Key_F 2) (pressed events)"
  shows "map draw (drawn_forms (new_app spec devices) (rename_events h (new_app spec devices) events))
       = map draw (drawn_forms (new_app spec devices) events)
    \<and> (\<forall>a \<in> set (drawn_forms (new_app spec devices) events). \<forall>p q.
         length p = length (ap_password a) \<longrightarrow> length q = length (ap_password_confirm a) \<longrightarrow>
         draw (a\<lparr>ap_password := p, ap_password_confirm := q\<rparr>) = draw a)"
proof -
  let ?a = "new_app spec devices"
  have start: "\<not> ap_show_passwords ?a" "rename_passwords h ?a = ?a"
    by (simp_all add: new_app_def rename_passwords_def Let_def)
  have hidden: "\<not> ap_show_passwords b" if "b \<in> set (drawn_forms ?a events)" for b
    by (rule drawn_forms_hide[OF assms(2) start(1) that])
  have "map draw (drawn_forms ?a (rename_events h ?a events)) = map (draw \<circ> rename_passwords h) (drawn_forms ?a events)"
    using drawn_forms_rename[OF assms(1), of ?a events] by (simp add: start(2))
  also have "\<dots> = map draw (drawn_forms ?a events)"
    by (intro map_cong refl) (simp add: rename_passwords_def draw_hides hidden)
  finally show ?thesis using hidden by (auto intro: draw_hides)
qed

definition other_byte :: "char \<Rightarrow> char" where
  "other_byte c = (if c = CHR ''s'' then CHR ''t'' else if c = CHR ''t'' then CHR ''s'' else c)"

lemma renaming_other_byte: "renaming other_byte"
  by (auto simp: renaming_def other_byte_def inj_def between_def)

lemma sample_keys_hidden: "list_all (\<lambda>k. ke_code k \<noteq> Key_F 2) (pressed sample_keys)"
  by code_simp

theorem passwords_never_drawn_witness:
  "map draw (drawn_forms (new_app sample_spec [sample_disk]) (rename_events other_byte (new_app sample_spec [sample_disk]) sample_keys))
     = map draw (drawn_forms (new_app sample_spec [sample_disk]) sample_keys)"
  using passwords_never_drawn[OF renaming_other_byte sample_keys_hidden, of sample_spec "[sample_disk]"] by simp

section \<open>What is confirmed is what was shown\<close>

text \<open>The review of a plan, in the plan's own terms.\<close>

definition plan_rows :: "usb_device \<Rightarrow> installation_plan \<Rightarrow> text_line list" where
  "plan_rows d plan =
     (let p = ip_partition plan; u = ip_user plan; k = ip_keyboard plan in
      [summary_line '' Target device '' (target_text d) (plain\<lparr>st_bold := True\<rparr>),
       summary_line '' Partitioning ''
         (''ESP '' @ show_nat (unat (pp_esp_mib p)) @ '' MiB '' @ middle_dot @ '' root ''
           @ (case pp_root_gib p of None \<Rightarrow> ''rest of disk'' | Some g \<Rightarrow> show_nat (unat g) @ '' GiB'')) plain,
       summary_line '' User         ''
         (ru_name u @ '' (uid '' @ show_nat (unat (ru_uid u)) @ '', ''
           @ (if ru_real_name u = [] then ''no real name'' else ru_real_name u) @ '')'') plain,
       summary_line '' Shell        '' (ru_shell u) plain,
       summary_line '' Groups       '' (join '','' (ru_groups u)) plain,
       summary_line '' Keyboard     ''
         (rk_layout k @ (case rk_variant k of None \<Rightarrow> [] | Some v \<Rightarrow> '' ('' @ v @ '')'')) plain])"

definition review_frame :: "usb_device \<Rightarrow> installation_plan \<Rightarrow> frame" where
  "review_frame d plan =
     (let chunks = Row Whole_Screen [Exactly 3, At_Least 10, Exactly 3] in
      [(chunks 0, header_widget Summary), (chunks 1, summary_widget (plan_rows d plan)),
       (chunks 2, footer_widget None Summary)])"

lemma show_1000: "show_nat 1000 = ''1000''"
  by code_simp

lemma draw_reviews:
  assumes "ap_screen a = Summary" "ap_error a = None" "build_plan openssl a = Inr plan"
  shows "draw a = review_frame (current_device a) plan"
  using assms
  by (auto simp: draw_def draw_header_def draw_footer_def draw_summary_def review_frame_def plan_rows_def build_plan_def
      bind_r_Inr or_else_def show_1000 Let_def)

text \<open>The form the last frame shows is the one that the deciding key is handled in.\<close>

definition clean_summary :: "app \<Rightarrow> bool" where
  "clean_summary a \<longleftrightarrow> ap_outcome a = None \<and> (ap_screen a = Summary \<longrightarrow> ap_error a = None)"

lemma handle_key_clean:
  assumes "clean_summary a" "ap_outcome (handle_key a k) = None"
  shows "clean_summary (handle_key a k)"
proof -
  let ?b = "a\<lparr>ap_error := None\<rparr>"
  have "ap_screen (submit_partition ?b) \<noteq> Summary \<or> ap_screen ?b = Summary"
    "ap_screen (submit_user ?b) \<noteq> Summary \<or> ap_screen ?b = Summary"
    using submits(1,2)[of ?b] by auto
  moreover have "ap_screen (submit_keyboard ?b) = Summary \<longrightarrow> ap_error (submit_keyboard ?b) = None \<or> ap_screen ?b = Summary"
    using submits(3)[of ?b] by auto
  ultimately have "ap_screen (handle_key a k) = Summary \<longrightarrow> ap_error (handle_key a k) = None"
    using assms unfolding handle_key_def Let_def
    by (cases "ap_screen a"; cases "ke_code k")
       (auto simp: handle_devices_def select_device_def clean_summary_def edit_partition_def edit_user_def edit_keyboard_def)
  with assms(2) show ?thesis by (simp add: clean_summary_def)
qed

lemma tui_loop_last:
  "tui_loop a es = (Form_Done, a') \<Longrightarrow> clean_summary a
    \<Longrightarrow> \<exists>earlier b k. drawn_forms a es = earlier @ [b] \<and> a' = handle_key b k \<and> clean_summary b"
proof (induction a es rule: tui_loop.induct)
  case (4 a k r)
  show ?case
  proof (cases "ke_press k \<and> ap_outcome (handle_key a k) \<noteq> None")
    case True
    with 4(3,4) show ?thesis by (intro exI[of _ "[]"] exI[of _ a] exI[of _ k]) (simp add: Let_def)
  next
    case False
    then obtain c where c: "clean_summary c" "tui_loop c r = (Form_Done, a')"
      "drawn_forms a (Inr (Some k) # r) = a # drawn_forms c r"
      and ih: "\<exists>earlier b k. drawn_forms c r = earlier @ [b] \<and> a' = handle_key b k \<and> clean_summary b"
    proof (cases "ke_press k")
      case True
      show ?thesis by (rule that[of "handle_key a k"]) (use 4 True False handle_key_clean[of a k] in \<open>simp_all add: Let_def\<close>)
    next
      case unpressed: False
      show ?thesis by (rule that[of a]) (use 4 unpressed in simp_all)
    qed
    from ih obtain earlier b k' where "drawn_forms c r = earlier @ [b]" "a' = handle_key b k'" "clean_summary b" by blast
    then show ?thesis using c(3) by (intro exI[of _ "a # earlier"] exI[of _ b] exI[of _ k']) simp
  qed
next
  case (3 a r)
  then obtain earlier b k where "drawn_forms a r = earlier @ [b]" "a' = handle_key b k" "clean_summary b" by auto
  then show ?case by (intro exI[of _ "a # earlier"] exI[of _ b] exI[of _ k]) simp
qed simp_all

lemma handle_summary_confirms:
  "ap_outcome a = None \<Longrightarrow> ap_outcome (handle_summary a k) = Some Confirmed
    \<Longrightarrow> handle_summary a k = a\<lparr>ap_outcome := Some Confirmed\<rparr>"
  by (simp split: key_code.splits)

lemma confirming_key:
  assumes "clean_summary b" "ap_outcome (handle_key b k) = Some Confirmed"
  shows "ap_screen b = Summary \<and> handle_key b k = b\<lparr>ap_error := None, ap_outcome := Some Confirmed\<rparr>"
proof -
  have "ap_outcome b = None" using assms(1) by (simp add: clean_summary_def)
  with assms(2) handle_summary_confirms[of "b\<lparr>ap_error := None\<rparr>" k] show ?thesis
    unfolding handle_key_def Let_def
    by (auto simp: handlers_frame simp del: handlers_simps split: screen.splits if_splits)
qed

lemma build_plan_frame: "build_plan openssl (a\<lparr>ap_error := e, ap_outcome := r\<rparr>) = build_plan openssl a"
  by (simp add: build_plan_def cong: if_cong)

lemma run_form_last:
  assumes "run_tui openssl setup teardown spec devices events = Some (Inr (Some (d, plan)))"
  shows "devices \<noteq> [] \<and> (\<exists>u. setup = Inr u) \<and> fst (tui_loop (new_app spec devices) events) = Form_Done
    \<and> (\<exists>earlier. map draw (drawn_forms (new_app spec devices) events) = earlier @ [review_frame d plan])"
proof -
  from assms obtain a u where ne: "devices \<noteq> []" "setup = Inr u"
    and r: "tui_loop (new_app spec devices) events = (Form_Done, a)"
    and c: "ap_outcome a = Some Confirmed" "build_plan openssl a = Inr plan" "d = current_device a"
    by (auto simp: run_tui_def bind_r_Inr split: if_splits sum.splits prod.splits loop_end.splits)
  have "clean_summary (new_app spec devices)" by (simp add: clean_summary_def new_app_def Let_def)
  from tui_loop_last[OF r this] obtain earlier b k where
    b: "drawn_forms (new_app spec devices) events = earlier @ [b]" "a = handle_key b k" "clean_summary b" by blast
  have s: "ap_screen b = Summary" "a = b\<lparr>ap_error := None, ap_outcome := Some Confirmed\<rparr>"
    using confirming_key[of b k] b c(1) by auto
  then have "build_plan openssl b = Inr plan" "d = current_device b"
    using c(2,3) by (simp_all add: build_plan_frame current_device_def)
  moreover have "ap_error b = None" using b(3) s(1) by (simp add: clean_summary_def)
  ultimately have "draw b = review_frame d plan" using draw_reviews[OF s(1)] by simp
  then show ?thesis using ne r b(1) by auto
qed

text \<open>
  C14: when the form returns a plan, the last thing the terminal showed before
  the operator pressed Enter is the review of exactly that disk and that plan, account, shell,
  groups and keyboard, with the warning and no message; after it the terminal is given back.
\<close>

theorem review_shows_plan:
  assumes "run_form openssl io spec devices events = (Some (Inr (Some (d, plan))), ops)"
  shows "\<exists>earlier. ops = [Enable_Raw_Mode, Enter_Screen, New_Terminal] @ map Draw_Frame earlier
    @ [Draw_Frame (review_frame d plan), Disable_Raw_Mode, Leave_Screen, Show_Cursor]"
proof -
  from assms have run: "run_tui openssl (fst (setup_terminal io)) (fst teardown_terminal) spec devices events
    = Some (Inr (Some (d, plan)))" by (simp add: run_form_def)
  from run_form_last[OF run] obtain u earlier where l: "devices \<noteq> []" "fst (setup_terminal io) = Inr u"
    "fst (tui_loop (new_app spec devices) events) = Form_Done"
    "map draw (drawn_forms (new_app spec devices) events) = earlier @ [review_frame d plan]" by blast
  have "snd (setup_terminal io) = [Enable_Raw_Mode, Enter_Screen, New_Terminal]"
    using l(2) by (auto simp: setup_terminal_def split: sum.splits)
  moreover have "map (\<lambda>a. Draw_Frame (draw a)) (drawn_forms (new_app spec devices) events)
    = map Draw_Frame (earlier @ [review_frame d plan])"
    unfolding l(4)[symmetric] by simp
  ultimately show ?thesis using assms l(1-3)
    by (intro exI[of _ earlier]) (auto simp: run_form_def teardown_terminal_def)
qed

lemma sample_run_form:
  "fst (run_form sample_openssl (\<lambda>_. Inr ()) sample_spec [sample_disk] sample_keys)
    = Some (Inr (Some (sample_disk, sample_plan)))"
  using sample_form by (simp add: run_form_def setup_terminal_def teardown_terminal_def)

theorem review_shows_plan_witness:
  "\<exists>earlier. snd (run_form sample_openssl (\<lambda>_. Inr ()) sample_spec [sample_disk] sample_keys)
    = [Enable_Raw_Mode, Enter_Screen, New_Terminal] @ map Draw_Frame earlier
      @ [Draw_Frame (review_frame sample_disk sample_plan), Disable_Raw_Mode, Leave_Screen, Show_Cursor]"
  using review_shows_plan[of sample_openssl "\<lambda>_. Inr ()" sample_spec "[sample_disk]" sample_keys sample_disk sample_plan]
    sample_run_form by (metis prod.collapse)

text \<open>The texts of the sample: 8 GiB are 8.6 GB.\<close>

lemma sample_gb: "size_gb sample_disk = 83076749736557247230640128"
  by (simp add: size_gb_def f64_div_def f64_of_nat_def f64_unit_def sample_disk_def round_f64.simps round_half_even_def)

lemma sample_decimals:
  "fixed_point 1 (size_gb sample_disk) = ''8.6''" "fixed_point 2 (size_gb sample_disk) = ''8.59''"
  unfolding sample_gb by code_simp+

lemma sample_texts:
  "target_text sample_disk = ''/dev/sdb  (8.59 GB,  )''"
  "device_label sample_disk = ''/dev/sdb       8.6 GB   ''"
  unfolding target_text_def device_label_def sample_decimals
  by (simp_all add: sample_disk_def pad_right_def pad_left_def char_count_def between_def numeral_eq_Suc)

section \<open>Where the drawing and the terminal go wrong\<close>

text \<open>
  A whole form ends with the terminal given back, a terminal that cannot be set up does not: raw
  mode stays on.
\<close>

definition raw_mode :: "tty_op list \<Rightarrow> bool" where
  "raw_mode ops = foldl (\<lambda>raw t. if t = Enable_Raw_Mode then True else if t = Disable_Raw_Mode then False else raw) False ops"

lemma raw_mode_restored:
  assumes "run_form openssl io spec devices events = (Some r, ops)" "fst (setup_terminal io) = Inr u"
  shows "\<not> raw_mode ops"
proof -
  have ended: "devices = [] \<or> fst (tui_loop (new_app spec devices) events) \<noteq> Form_Open"
    using assms by (auto simp: run_form_def run_tui_def split: if_splits prod.splits)
  have "raw_mode (xs @ snd teardown_terminal) = False" for xs
    by (simp add: raw_mode_def teardown_terminal_def)
  moreover have "ops = [] \<or> ops = (snd (setup_terminal io)
    @ map (\<lambda>a. Draw_Frame (draw a)) (drawn_forms (new_app spec devices) events)) @ snd teardown_terminal"
    using assms ended by (auto simp: run_form_def)
  moreover have "raw_mode [] = False" by (simp add: raw_mode_def)
  ultimately show ?thesis by metis
qed

lemma raw_mode_left:
  assumes "io Enable_Raw_Mode = Inr ()" "io Enter_Screen = Inl e" "devices \<noteq> []"
  shows "fst (run_form openssl io spec devices events) = Some (Inl (Terminal e))"
    and "raw_mode (snd (run_form openssl io spec devices events))"
  using assms by (simp_all add: run_form_def run_tui_def setup_terminal_def raw_mode_def)

text \<open>
  The label computes the largest root from an ESP that has not been checked yet: with one just
  below \<open>2 ^ 32\<close> the sum wraps around, and the label offers the whole disk.
\<close>

lemma root_label_wraps:
  "root_label ((new_app sample_spec [sample_disk])\<lparr>ap_esp := ''4294967295''\<rparr>)
    = '' Root size (GiB) '' @ em_dash @ '' 0 = use rest (max 7 GiB)''"
  "root_label ((new_app sample_spec [sample_disk])\<lparr>ap_esp := ''9000''\<rparr>)
    = '' Root size (GiB) '' @ em_dash @ '' 0 = use rest (max 0 GiB)''"
  by code_simp+

text \<open>Three umlauts are a password of six characters.\<close>

lemma six_bytes_pass:
  "ap_screen (submit_user ((new_app sample_spec [sample_disk])\<lparr>ap_screen := User_Screen,
     ap_password := concat (replicate 3 [CHR 0xC3, CHR 0xBC]),
     ap_password_confirm := concat (replicate 3 [CHR 0xC3, CHR 0xBC])\<rparr>)) = Keyboard_Screen"
  by code_simp

end
