(* ===== verification/Installer_Text.thy ===== *)
theory Installer_Text
  imports Installer_Screen Installer
begin

text \<open>
  What the installer prints outside the form: the list of disks and the menu of main.rs, the summary
  of prompt.rs and the warning of confirm.rs (crates/writeonce-installer/src). The quoted form of a
  name (\<open>{:?}\<close>) is an argument.
\<close>

section \<open>Disks\<close>

definition one_decimal :: "usb_device \<Rightarrow> string" where
  "one_decimal d = fixed_point 1 (size_gb d)"

definition two_decimals :: "usb_device \<Rightarrow> string" where
  "two_decimals d = fixed_point 2 (size_gb d)"

definition list_usb_line :: "usb_device \<Rightarrow> string" where
  "list_usb_line d = pad_right 11 (ud_path d) @ '' '' @ pad_right 18 (ud_vendor d) @ '' '' @ pad_right 24 (ud_model d)
     @ '' '' @ pad_left 6 (one_decimal d) @ '' GB''"

definition list_usb :: "host_files \<Rightarrow> io_error + string list" where
  "list_usb h =
     bind_r (list_removable h) (\<lambda>ds.
       if ds = [] then Inr [''No removable block devices detected.'']
       else Inr (''DEVICE      VENDOR             MODEL                    SIZE'' # map list_usb_line ds))"

definition menu_line :: "nat \<Rightarrow> usb_device \<Rightarrow> string" where
  "menu_line i d = ''  ['' @ show_nat i @ ''] '' @ ud_path d @ '' '' @ em_dash @ '' '' @ ud_vendor d @ '' '' @ ud_model d
     @ '' ('' @ two_decimals d @ '' GB)''"

text \<open>The lines of the menu and the prompt after it, when there is a choice.\<close>

definition device_menu :: "usb_device list \<Rightarrow> string list \<times> string" where
  "device_menu ds =
     (''Multiple removable devices detected:'' # map (\<lambda>(i, d). menu_line i d) (List.enumerate 0 ds),
      ''Select [0-'' @ show_nat (length ds - 1) @ '']: '')"

definition target_line :: "usb_device \<Rightarrow> string" where
  "target_line d = ''[4/11] Target '' @ ud_path d @ '' '' @ em_dash @ '' '' @ ud_vendor d @ '' '' @ ud_model d @ '' '' @ em_dash @ '' ''
     @ two_decimals d @ '' GB ('' @ (if ud_removable d then ''removable'' else ''FIXED'') @ '')''"

definition dry_run_lines :: "usb_device \<Rightarrow> string list" where
  "dry_run_lines d = [[], ''--dry-run set; would now wipe '' @ ud_path d @ '' and continue.'',
     ''Stopping before any destructive operation.'']"

section \<open>Summary and warning\<close>

definition rule_line :: string where
  "rule_line = replicate 60 (CHR ''='')"

definition summarize :: "(string \<Rightarrow> string) \<Rightarrow> usb_device \<Rightarrow> installation_plan \<Rightarrow> string list" where
  "summarize shown d plan =
     (let p = ip_partition plan; u = ip_user plan; k = ip_keyboard plan in
      [[], rule_line, '' Installation summary'', rule_line,
       '' Target device : '' @ ud_path d @ '' ('' @ two_decimals d @ '' GB)'',
       ''                 '' @ ud_vendor d @ '' '' @ ud_model d,
       '' ESP size      : '' @ show_nat (unat (pp_esp_mib p)) @ '' MiB'',
       '' Root size     : '' @ (case pp_root_gib p of Some v \<Rightarrow> show_nat (unat v) @ '' GiB'' | None \<Rightarrow> ''rest of disk''),
       '' Username      : '' @ ru_name u @ '' (uid 1000, real-name '' @ shown (ru_real_name u) @ '')'',
       '' Shell         : '' @ ru_shell u,
       '' Groups        : '' @ join '','' (ru_groups u),
       '' Keyboard      : '' @ rk_layout k @ (case rk_variant k of Some v \<Rightarrow> '' ('' @ v @ '')'' | None \<Rightarrow> [])])"

definition wipe_warning_lines :: "usb_device \<Rightarrow> string list" where
  "wipe_warning_lines d =
     [[], rule_line, '' CONFIRM DESTRUCTIVE OPERATION'', rule_line,
      '' Target:    '' @ ud_path d, '' Vendor:    '' @ ud_vendor d, '' Model:     '' @ ud_model d,
      '' Size:      '' @ two_decimals d @ '' GB ('' @ show_nat (unat (ud_size d)) @ '' bytes)'',
      '' Removable: '' @ (if ud_removable d then ''true'' else ''false''), [],
      '' The ENTIRE contents of '' @ ud_path d @ '' will be erased.'',
      '' Type '' @ [CHR 0x22] @ ''yes'' @ [CHR 0x22] @ '' exactly (no quotes) to continue, anything else aborts.'']"

section \<open>The menu is read as it is printed\<close>

lemma trim_show_lf: "trim (show_nat i @ [LF]) = show_nat i"
proof -
  obtain c cs where c: "show_nat i = c # cs" by (cases "show_nat i") auto
  then have "\<not> is_ws c" using show_nat_chars[of c i] digit_not_ws[of c] by simp
  with c trim_show_nat[of i] show ?thesis
    by (simp add: trim_def trim_start_def trim_end_matches_def is_ws_def)
qed

lemma parse_u64_show_nat: "i < 2 ^ 64 \<Longrightarrow> parse_u64 (show_nat i) = Some (of_nat i)"
  by (simp add: parse_u64_def parse_uint_show_nat)

text \<open>Typing the number of a line chooses the disk on that line, and no other number is taken.\<close>

lemma menu_choice:
  assumes "list_removable h = Inr ds" "2 \<le> length ds" "cs_lines c = Inr (show_nat i @ [LF]) # rest" "i < 2 ^ 64"
  shows "fst (select_target h None force c) =
    (if i < length ds then Inr (ds ! i) else Inl Bad_Index)"
    and "i < length ds \<Longrightarrow> fst (device_menu ds) ! Suc i = menu_line i (ds ! i)"
proof -
  obtain d d' r where ds: "ds = d # d' # r" using assms(2) by (cases ds; cases "tl ds") auto
  have t: "trim (show_nat i @ [LF]) = show_nat i"
    by (rule trim_show_lf)
  show "fst (select_target h None force c) = (if i < length ds then Inr (ds ! i) else Inl Bad_Index)"
    using assms(1,3,4)
    by (simp add: select_target_def ds read_line_def t parse_u64_show_nat nth_opt_def unsigned_of_nat take_bit_nat_eq_self del: One_nat_def)
  show "i < length ds \<Longrightarrow> fst (device_menu ds) ! Suc i = menu_line i (ds ! i)"
    by (simp add: device_menu_def nth_enumerate_eq)
qed

end
