(* ===== verification/Installer_Artifacts.thy ===== *)
theory Installer_Artifacts
  imports Installer_Guards
begin

text \<open>
  The artifacts as files (crates/writeonce-installer/src/manifest.rs and extract.rs): the digest of
  a file that is read in pieces, the manifest, the unpacking of the image, and what the digests of
  the manifest then say of the files. The hasher is an argument: a state that is fed bytes, and
  its hexadecimal digest.
\<close>

section \<open>Digests of files\<close>

record 'h hasher =
  hh_new :: 'h
  hh_update :: "u8 list \<Rightarrow> 'h \<Rightarrow> 'h"
  hh_hex :: "'h \<Rightarrow> string"

text \<open>The loop over the results of \<open>read\<close>; a result past the last is the end of the file.\<close>

fun sha_loop :: "'h hasher \<Rightarrow> (io_error + u8 list) list \<Rightarrow> 'h \<Rightarrow> io_error + string" where
  "sha_loop hs [] h = Inr (hh_hex hs h)"
| "sha_loop hs (Inl e # r) h = Inl e"
| "sha_loop hs (Inr bs # r) h = (if bs = [] then Inr (hh_hex hs h) else sha_loop hs r (hh_update hs bs h))"

definition sha256_file :: "'h hasher \<Rightarrow> (string \<Rightarrow> io_error + (io_error + u8 list) list) \<Rightarrow> string \<Rightarrow> io_error + string" where
  "sha256_file hs opened path = bind_r (opened path) (\<lambda>reads. sha_loop hs reads (hh_new hs))"

text \<open>On another thread; \<open>join\<close> is the error of a task that did not finish.\<close>

definition sha256_file_async ::
  "io_error option \<Rightarrow> 'h hasher \<Rightarrow> (string \<Rightarrow> io_error + (io_error + u8 list) list) \<Rightarrow> string \<Rightarrow> io_error + string" where
  "sha256_file_async joined hs opened path = (case joined of Some e \<Rightarrow> Inl e | None \<Rightarrow> sha256_file hs opened path)"

text \<open>What a hasher promises, and what reading a file means.\<close>

definition streaming :: "'h hasher \<Rightarrow> bool" where
  "streaming hs \<longleftrightarrow> (\<forall>h. hh_update hs [] h = h) \<and> (\<forall>a b h. hh_update hs (a @ b) h = hh_update hs b (hh_update hs a h))"

definition digest :: "'h hasher \<Rightarrow> u8 list \<Rightarrow> string" where
  "digest hs bytes = hh_hex hs (hh_update hs bytes (hh_new hs))"

definition pieces :: "u8 list \<Rightarrow> (io_error + u8 list) list \<Rightarrow> bool" where
  "pieces bytes reads \<longleftrightarrow>
     (\<exists>ps. reads = map Inr ps \<and> list_all (\<lambda>p. p \<noteq> [] \<and> length p \<le> 2 ^ 16) ps \<and> concat ps = bytes)"

definition reads_files :: "(string \<Rightarrow> u8 list option) \<Rightarrow> (string \<Rightarrow> io_error + (io_error + u8 list) list) \<Rightarrow> bool" where
  "reads_files disk opened \<longleftrightarrow>
     (\<forall>p. case disk p of None \<Rightarrow> \<exists>e. opened p = Inl e | Some bytes \<Rightarrow> \<exists>rs. opened p = Inr rs \<and> pieces bytes rs)"

lemma sha_loop_pieces:
  assumes "streaming hs" "list_all (\<lambda>p. p \<noteq> []) ps"
  shows "sha_loop hs (map Inr ps) h = Inr (hh_hex hs (hh_update hs (concat ps) h))"
  using assms(2)
proof (induction ps arbitrary: h)
  case (Cons p ps)
  then show ?case using assms(1) by (auto simp: streaming_def)
qed (use assms(1) in \<open>simp add: streaming_def\<close>)

lemma sha256_file_whole:
  assumes "streaming hs" "opened path = Inr reads" "pieces bytes reads"
  shows "sha256_file hs opened path = Inr (digest hs bytes)"
proof -
  from assms(3) obtain ps where "reads = map Inr ps" "list_all (\<lambda>p. p \<noteq> []) ps" "concat ps = bytes"
    by (auto simp: pieces_def list_all_iff)
  with sha_loop_pieces[OF assms(1), of ps "hh_new hs"] assms(2) show ?thesis
    by (simp add: sha256_file_def digest_def)
qed

text \<open>A read that fails, an interrupted one included, fails the digest.\<close>

lemma sha_loop_fails: "list_all (\<lambda>p. p \<noteq> []) ps \<Longrightarrow> sha_loop hs (map Inr ps @ Inl e # r) h = Inl e"
  by (induction ps arbitrary: h) auto

lemma sha256_file_disk:
  assumes "streaming hs" "reads_files disk opened"
  shows "sha256_file hs opened p = Inr d \<longleftrightarrow> (\<exists>bytes. disk p = Some bytes \<and> d = digest hs bytes)"
proof (cases "disk p")
  case None
  then obtain e where "opened p = Inl e" using assms(2) by (force simp: reads_files_def split: option.splits)
  with None show ?thesis by (simp add: sha256_file_def)
next
  case (Some bytes)
  then obtain rs where "opened p = Inr rs" "pieces bytes rs"
    using assms(2) by (force simp: reads_files_def split: option.splits)
  from sha256_file_whole[where hs = hs and opened = opened and path = p and bytes = bytes and reads = rs, OF assms(1) this] Some show ?thesis by auto
qed

section \<open>The manifest and the image\<close>

text \<open>\<open>Manifest::load\<close>: the file must be UTF-8 and TOML.\<close>

definition load_manifest ::
  "(string \<Rightarrow> io_error + u8 list) \<Rightarrow> (string \<Rightarrow> string + manifest) \<Rightarrow> string \<Rightarrow> string + manifest \<times> string" where
  "load_manifest read parse dir =
     (let path = path_join dir ''manifest.toml'' in
      case read path of
        Inl e \<Rightarrow> Inl (''read '' @ path)
      | Inr bytes \<Rightarrow>
          if \<not> utf8_valid (map unat bytes) then Inl (''read '' @ path)
          else map_sum (\<lambda>_. ''parse manifest.toml'') (\<lambda>m. (m, path)) (parse (map (\<lambda>b. char_of (unat b)) bytes)))"

text \<open>
  The image is unpacked through a reader that counts for the progress bar. The first step that fails
  is the error; the size of the tarball is asked for first, for the bar.
\<close>

datatype extract_step = Read_Size | Join_Task | Open_Tarball | Start_Decoder | Unpack_Archive

definition extract_sync :: "(extract_step \<Rightarrow> bool) \<Rightarrow> extract_step option" where
  "extract_sync ok = List.find (\<lambda>s. \<not> ok s) [Open_Tarball, Start_Decoder, Unpack_Archive]"

definition extract_sysroot :: "(extract_step \<Rightarrow> bool) \<Rightarrow> extract_step option" where
  "extract_sysroot ok =
     (if \<not> ok Read_Size then Some Read_Size else if \<not> ok Join_Task then Some Join_Task else extract_sync ok)"

definition counting_read :: "io_error + u8 list \<Rightarrow> nat \<Rightarrow> (io_error + u8 list) \<times> nat" where
  "counting_read r pos = (case r of Inl e \<Rightarrow> (Inl e, pos) | Inr bs \<Rightarrow> (Inr bs, pos + length bs))"

fun counting_reads :: "(io_error + u8 list) list \<Rightarrow> nat \<Rightarrow> (io_error + u8 list) list \<times> nat" where
  "counting_reads [] pos = ([], pos)"
| "counting_reads (r # rs) pos =
     (case counting_read r pos of (r', pos) \<Rightarrow>
        case counting_reads rs pos of (rs', pos) \<Rightarrow> (r' # rs', pos))"

text \<open>The decoder sees the file as it is, and a file that is read to its end fills the bar.\<close>

lemma counting_reads_whole: "pieces bytes rs \<Longrightarrow> counting_reads rs pos = (rs, pos + length bytes)"
proof -
  have "counting_reads (map Inr ps) pos = (map Inr ps, pos + length (concat ps))" for ps pos
    by (induction ps arbitrary: pos) (simp_all add: counting_read_def)
  then show "pieces bytes rs \<Longrightarrow> ?thesis" by (auto simp: pieces_def)
qed

text \<open>The day of the shadow file: seconds since the epoch, a fixed day if the clock is before it.\<close>

definition days_since_epoch :: "nat option \<Rightarrow> nat" where
  "days_since_epoch now = (case now of Some secs \<Rightarrow> secs div 86400 | None \<Rightarrow> 19500)"

section \<open>What was verified\<close>

definition promised :: "artifacts \<Rightarrow> (string \<times> string) list" where
  "promised art =
     [(ar_kernel art, ar_kernel_sha art), (ar_initramfs art, ar_initramfs_sha art),
      (ar_bootloader art, ar_bootloader_sha art), (ar_sysroot art, ar_sysroot_sha art)]"

lemma verify_shas_ok:
  "verify_shas sha ts = Inr ()
    \<longleftrightarrow> list_all (\<lambda>(label, path, expected). \<exists>d. sha path = Inr d \<and> eq_ignore_ascii_case d expected) ts"
proof (induction sha ts rule: verify_shas.induct)
  case (2 sha label path expected r)
  then show ?case by (cases "sha path") auto
qed simp

text \<open>Every file is there, and all its bytes have the digest that was promised, in either case.\<close>

definition as_promised :: "'h hasher \<Rightarrow> (string \<Rightarrow> u8 list option) \<Rightarrow> artifacts \<Rightarrow> bool" where
  "as_promised hs disk art \<longleftrightarrow>
     list_all (\<lambda>(path, expected). case disk path of
         None \<Rightarrow> False | Some bytes \<Rightarrow> eq_ignore_ascii_case (digest hs bytes) expected) (promised art)"

lemma verify_whole:
  assumes "streaming hs" "reads_files disk opened"
  shows "verify_against_manifest (sha256_file_async None hs opened) art = Inr () \<longleftrightarrow> as_promised hs disk art"
proof -
  have one: "(\<exists>d. sha256_file hs opened p = Inr d \<and> eq_ignore_ascii_case d x)
    \<longleftrightarrow> (case disk p of None \<Rightarrow> False | Some bytes \<Rightarrow> eq_ignore_ascii_case (digest hs bytes) x)" for p x
    by (auto simp: sha256_file_disk[OF assms] split: option.split)
  show ?thesis
    unfolding verify_against_manifest_def verify_shas_ok
    by (simp add: promised_def as_promised_def sha256_file_async_def one)
qed

text \<open>
  C20: the check before an installation passes exactly when each of the four files exists and the
  digest of all its bytes, in however many pieces they are read, is the one the manifest promises,
  in upper or lower case; and an installer that reads files this way runs no command and touches
  no file unless that is so for the manifest it was given.
\<close>

theorem verified_whole_files:
  assumes "streaming hs" "reads_files disk opened"
  shows "(verify_against_manifest (sha256_file_async None hs opened) art = Inr () \<longleftrightarrow> as_promised hs disk art)
    \<and> (hs_sha h [] = sha256_file_async None hs opened \<and> install h a = Some (r, tr) \<and> tr \<noteq> []
        \<longrightarrow> (\<exists>m. hs_manifest h (ia_from a) = Some m \<and> as_promised hs disk (resolve m (ia_from a))))"
proof (intro conjI impI; (elim conjE)?)
  show "verify_against_manifest (sha256_file_async None hs opened) art = Inr () \<longleftrightarrow> as_promised hs disk art"
    by (rule verify_whole[OF assms])
next
  assume h: "hs_sha h [] = sha256_file_async None hs opened" "install h a = Some (r, tr)" "tr \<noteq> []"
  from install_runs[OF h(2,3)] obtain art' spec where "prepare h a = Inr (art', spec)" by blast
  from prepare_checked[OF this] obtain m where "hs_manifest h (ia_from a) = Some m"
    "verify_against_manifest (hs_sha h []) (resolve m (ia_from a)) = Inr ()" by metis
  then show "\<exists>m. hs_manifest h (ia_from a) = Some m \<and> as_promised hs disk (resolve m (ia_from a))"
    using verify_whole[OF assms] h(1) by auto
qed

text \<open>A hasher that keeps the bytes it is fed, and a disk with one file, read byte by byte.\<close>

definition keeping :: "u8 list hasher" where
  "keeping = \<lparr>hh_new = [], hh_update = (\<lambda>bs h. h @ bs), hh_hex = map (\<lambda>b. char_of (unat b))\<rparr>"

definition byte_reads :: "u8 list \<Rightarrow> (io_error + u8 list) list" where
  "byte_reads bytes = map (\<lambda>b. Inr [b]) bytes"

lemma pieces_byte_reads: "pieces bytes (byte_reads bytes)"
  unfolding pieces_def byte_reads_def
  by (rule exI[of _ "map (\<lambda>b. [b]) bytes"]) (simp add: list_all_iff comp_def)

lemma chars_ab: "char_of (97 :: nat) = CHR ''a''" "char_of (98 :: nat) = CHR ''b''"
  by code_simp+

theorem verified_whole_files_witness:
  "as_promised keeping (\<lambda>p. Some [97, 98]) (resolve sample_manifest ''/art'')"
proof -
  have ok: "streaming keeping" "reads_files (\<lambda>p. Some [97, 98]) (\<lambda>p. Inr (byte_reads [97, 98]))"
    using pieces_byte_reads by (simp_all add: streaming_def keeping_def reads_files_def)
  have "sha256_file keeping (\<lambda>p. Inr (byte_reads [97, 98])) p = Inr ''ab''" for p
    by (simp add: sha256_file_def byte_reads_def keeping_def chars_ab)
  then have "hs_sha sample_host [] = sha256_file_async None keeping (\<lambda>p. Inr (byte_reads [97, 98]))"
    by (simp add: sample_host_def sha256_file_async_def fun_eq_iff)
  with verified_whole_files[OF ok, of _ sample_host sample_args _ sample_trace] sample_install
  show ?thesis by (auto simp: sample_trace_def sample_host_def sample_args_def)
qed

end
