(* ===== verification/Recovery.thy ===== *)
theory Recovery
  imports Initramfs Traces Rust_Float
begin

text \<open>
  The recovery shell of the initramfs, crates/writeonce-initramfs/src/main.rs: its built-in
  commands and the programs it runs, over the lines that are typed. \<open>println!\<close> and \<open>eprintln!\<close>
  panic when the console cannot be written, so a message may end the program; writing and
  flushing the prompt may not. Texts of errors are an argument.
\<close>

section \<open>The console and the files\<close>

datatype file_kind = Is_Dir | Is_Symlink | Is_File | Is_Other

record listed_entry =
  le_name :: string
  le_kind :: "file_kind option"

datatype shell_child = Execvp string "string list" | Child_Exits nat | Child_Panics

datatype shell_event = Printed string | Prompted string | Child_Forked "string + int" shell_child | Child_Waited int

type_synonym shell_trace = "shell_event list"

record shell_os =
  sh_print :: "shell_trace \<Rightarrow> string \<Rightarrow> bool"
  sh_dir :: "string \<Rightarrow> io_error + (io_error + listed_entry) list"
  sh_text :: "string \<Rightarrow> io_error + string"
  sh_error_text :: "io_error \<Rightarrow> string"
  sh_fork :: "shell_trace \<Rightarrow> string + int"

text \<open>An operation of the shell; it fails only by a panic.\<close>

type_synonym shell = "shell_trace \<Rightarrow> (unit + unit) \<times> shell_trace"

definition print_text :: "shell_os \<Rightarrow> string \<Rightarrow> shell" where
  "print_text os s tr = (if sh_print os tr s then Inr () else Inl (), tr @ [Printed s])"

definition print_line :: "shell_os \<Rightarrow> string \<Rightarrow> shell" where
  "print_line os s = print_text os (s @ [LF])"

fun print_lines :: "shell_os \<Rightarrow> string list \<Rightarrow> shell" where
  "print_lines os [] tr = (Inr (), tr)"
| "print_lines os (s # ss) tr = then_r (print_line os s tr) (\<lambda>_. print_lines os ss)"

section \<open>Built-in commands\<close>

definition kind_text :: "file_kind option \<Rightarrow> string" where
  "kind_text k = (case k of Some Is_Dir \<Rightarrow> ''d'' | Some Is_Symlink \<Rightarrow> ''l'' | Some Is_File \<Rightarrow> ''f'' | _ \<Rightarrow> ''?'')"

fun oks :: "('e + 'a) list \<Rightarrow> 'a list" where
  "oks [] = []"
| "oks (Inl e # rs) = oks rs"
| "oks (Inr x # rs) = x # oks rs"

definition shell_ls :: "shell_os \<Rightarrow> string \<Rightarrow> shell" where
  "shell_ls os path =
     (case sh_dir os path of
        Inr es \<Rightarrow> print_lines os (map (\<lambda>e. ''  '' @ kind_text (le_kind e) @ ''  '' @ le_name e) (oks es))
      | Inl e \<Rightarrow> print_line os (''  ls: '' @ path @ '': '' @ sh_error_text os e))"

definition shell_cat :: "shell_os \<Rightarrow> string option \<Rightarrow> shell" where
  "shell_cat os arg =
     (case arg of
        None \<Rightarrow> print_line os ''  usage: cat FILE''
      | Some path \<Rightarrow>
          (case sh_text os path of
             Inr s \<Rightarrow> print_text os (s @ (if ends_with [LF] s then [] else [LF]))
           | Inl e \<Rightarrow> print_line os (''  cat: '' @ path @ '': '' @ sh_error_text os e)))"

definition shell_show :: "shell_os \<Rightarrow> string \<Rightarrow> shell" where
  "shell_show os path =
     (case sh_text os path of
        Inr s \<Rightarrow> print_text os s
      | Inl e \<Rightarrow> print_line os (''  '' @ path @ '': '' @ sh_error_text os e))"

text \<open>Two decimals of \<open>b as f64 / (1024.0 * 1024.0)\<close>.\<close>

definition mib_text :: "u64 \<Rightarrow> string" where
  "mib_text b = fixed_point 2 (f64_div (f64_of_nat (unat b)) 1048576)"

definition block_size_text :: "shell_os \<Rightarrow> string \<Rightarrow> string" where
  "block_size_text os name =
     (case sh_text os (path_join (path_join ''/sys/class/block'' name) ''size'') of
        Inl e \<Rightarrow> ''?''
      | Inr s \<Rightarrow> (case parse_u64 (trim s) of None \<Rightarrow> ''?'' | Some sectors \<Rightarrow> mib_text (sectors * 512) @ '' MiB''))"

definition shell_blocks :: "shell_os \<Rightarrow> shell" where
  "shell_blocks os =
     (case sh_dir os ''/sys/class/block'' of
        Inr es \<Rightarrow> print_lines os (map (\<lambda>e. ''  /dev/'' @ le_name e @ '' '' @ em_dash @ '' '' @ block_size_text os (le_name e)) (oks es))
      | Inl e \<Rightarrow> print_line os (''  /sys/class/block: '' @ sh_error_text os e))"

definition builtin :: "shell_os \<Rightarrow> string list \<Rightarrow> shell option" where
  "builtin os parts =
     (let c = hd parts in
      if c = ''help'' then Some (print_line os ''  ls [PATH] | cat FILE | cmdline | mounts | blocks | exit'')
      else if c = ''ls'' then Some (shell_ls os (case nth_opt parts 1 of None \<Rightarrow> ''/'' | Some p \<Rightarrow> p))
      else if c = ''cat'' then Some (shell_cat os (nth_opt parts 1))
      else if c = ''cmdline'' then Some (shell_show os ''/proc/cmdline'')
      else if c = ''mounts'' then Some (shell_show os ''/proc/mounts'')
      else if c = ''blocks'' then Some (shell_blocks os)
      else None)"

section \<open>Programs\<close>

text \<open>What the forked child does: the first word is the program, all words are its arguments.\<close>

definition shell_child_of :: "string list \<Rightarrow> shell_child" where
  "shell_child_of parts =
     (if c_string (hd parts) = None then Child_Exits 127
      else if list_ex (\<lambda>p. c_string p = None) parts then Child_Panics
      else Execvp (hd parts) parts)"

definition run_program :: "shell_os \<Rightarrow> string list \<Rightarrow> shell" where
  "run_program os parts tr =
     (let r = sh_fork os tr; tr' = tr @ [Child_Forked r (shell_child_of parts)] in
      case r of
        Inl e \<Rightarrow> print_line os (''fork: '' @ e) tr'
      | Inr p \<Rightarrow> (Inr (), tr' @ [Child_Waited p]))"

section \<open>The loop\<close>

datatype recovery_end = Paused | Panicked | Reading

definition banner :: "string list" where
  "banner =
     [[], replicate 64 (CHR ''=''), ''  WriteOnce OS '' @ em_dash @ '' initramfs recovery shell'', replicate 64 (CHR ''=''),
      ''  /proc, /sys, /dev are mounted (if PID 1).'', ''  Built-ins (no binaries on initramfs):'',
      ''    help                show this text'', ''    ls [PATH]           list directory  (default: /)'',
      ''    cat FILE            print file contents'', ''    cmdline             /proc/cmdline'',
      ''    mounts              /proc/mounts'', ''    blocks              /sys/class/block contents'',
      ''    exit                pause forever (PID 1 cannot exit cleanly)'',
      ''  Anything else is execvp'' @ [CHR 0x27] @ ''d in $PATH (rarely useful '' @ em_dash @ '' no binaries).'', []]"

definition shell_command :: "shell_os \<Rightarrow> string list \<Rightarrow> shell" where
  "shell_command os parts = (case builtin os parts of Some f \<Rightarrow> f | None \<Rightarrow> run_program os parts)"

definition leaves :: "string \<Rightarrow> bool" where
  "leaves line \<longleftrightarrow> line = ''exit'' \<or> line = ''quit''"

text \<open>
  The loop over what \<open>read_line\<close> returns: an error or nothing at all pauses for ever. \<open>Reading\<close>
  is the state after the given inputs.
\<close>

fun shell_loop :: "shell_os \<Rightarrow> (io_error + string) list \<Rightarrow> shell_trace \<Rightarrow> recovery_end \<times> shell_trace" where
  "shell_loop os [] tr = (Reading, tr @ [Prompted ''(recovery) # ''])"
| "shell_loop os (Inl e # inputs) tr = (Paused, tr @ [Prompted ''(recovery) # ''])"
| "shell_loop os (Inr s # inputs) tr =
     (let tr = tr @ [Prompted ''(recovery) # '']; line = trim s in
      if s = [] then (Paused, tr)
      else if line = [] then shell_loop os inputs tr
      else if leaves line
      then (case print_line os ''writeonce-initramfs: pausing forever (PID 1 cannot exit cleanly)'' tr of
              (Inl _, tr) \<Rightarrow> (Panicked, tr) | (Inr _, tr) \<Rightarrow> (Paused, tr))
      else
        (case shell_command os (split_whitespace line) tr of
           (Inl _, tr) \<Rightarrow> (Panicked, tr)
         | (Inr _, tr) \<Rightarrow> shell_loop os inputs tr))"

definition recovery_shell :: "shell_os \<Rightarrow> (io_error + string) list \<Rightarrow> shell_trace \<Rightarrow> recovery_end \<times> shell_trace" where
  "recovery_shell os inputs tr =
     (case print_lines os banner tr of
        (Inl _, tr) \<Rightarrow> (Panicked, tr)
      | (Inr _, tr) \<Rightarrow> shell_loop os inputs tr)"

section \<open>The shell stays\<close>

text \<open>An input that ends the session: nothing read, an error, or a request to leave.\<close>

definition last_input :: "io_error + string \<Rightarrow> bool" where
  "last_input i \<longleftrightarrow> (case i of Inl e \<Rightarrow> True | Inr s \<Rightarrow> s = [] \<or> leaves (trim s))"

definition console_works :: "shell_os \<Rightarrow> bool" where
  "console_works os \<longleftrightarrow> (\<forall>tr s. sh_print os tr s)"

lemma print_works: "console_works os \<Longrightarrow> fst (print_text os s tr) = Inr ()" "console_works os \<Longrightarrow> fst (print_line os s tr) = Inr ()"
  by (simp_all add: console_works_def print_text_def print_line_def)

lemma print_lines_works: "console_works os \<Longrightarrow> fst (print_lines os ss tr) = Inr ()"
proof (induction ss arbitrary: tr)
  case (Cons s ss)
  with print_works(2)[of os s tr] show ?case by (cases "print_line os s tr") (simp add: then_r_def)
qed simp

lemma builtins_work:
  assumes "console_works os"
  shows "fst (shell_ls os p tr) = Inr ()" "fst (shell_cat os arg tr) = Inr ()" "fst (shell_show os p tr) = Inr ()"
    "fst (shell_blocks os tr) = Inr ()" "fst (run_program os parts tr) = Inr ()"
  using print_works[OF assms] print_lines_works[OF assms]
  by (auto simp: shell_ls_def shell_cat_def shell_show_def shell_blocks_def run_program_def Let_def split: option.split sum.split)

lemma command_works: "console_works os \<Longrightarrow> fst (shell_command os parts tr) = Inr ()"
  by (auto simp: shell_command_def builtin_def Let_def print_works builtins_work split: option.splits if_splits)

lemma loop_works:
  "console_works os \<Longrightarrow> fst (shell_loop os inputs tr) = (if list_ex last_input inputs then Paused else Reading)"
proof (induction os inputs tr rule: shell_loop.induct)
  case (3 os s inputs tr)
  let ?tr = "tr @ [Prompted ''(recovery) # '']"
  note works = print_works(2)[OF 3(3), of _ ?tr] command_works[OF 3(3), of "split_whitespace (trim s)" ?tr]
  show ?case
  proof (cases "s = [] \<or> leaves (trim s)")
    case True
    obtain tr' where "print_line os ''writeonce-initramfs: pausing forever (PID 1 cannot exit cleanly)'' ?tr = (Inr (), tr')"
      using works(1) by (metis prod.collapse)
    with True show ?thesis by (auto simp: Let_def last_input_def leaves_def)
  next
    case False
    show ?thesis
    proof (cases "trim s = []")
      case True
      with False 3 show ?thesis by (simp add: Let_def last_input_def)
    next
      case n: False
      obtain tr' where "shell_command os (split_whitespace (trim s)) ?tr = (Inr (), tr')"
        using works(2) by (cases "shell_command os (split_whitespace (trim s)) ?tr") auto
      with False n 3(2)[OF refl refl _ _ _ this[symmetric]] 3(3) show ?thesis by (simp add: Let_def last_input_def)
    qed
  qed
qed (simp_all add: last_input_def)

lemma shell_stays:
  assumes "console_works os"
  shows "fst (recovery_shell os inputs tr) = (if list_ex last_input inputs then Paused else Reading)"
  using print_lines_works[OF assms, of banner tr] loop_works[OF assms]
  by (cases "print_lines os banner tr") (simp add: recovery_shell_def)

text \<open>A console that is gone panics the shell, and with it PID 1, at the first line of the banner.\<close>

lemma lost_console_panics: "\<not> sh_print os tr [LF] \<Longrightarrow> fst (recovery_shell os inputs tr) = Panicked"
  by (simp add: recovery_shell_def banner_def print_line_def print_text_def then_r_def)

section \<open>The program\<close>

text \<open>
  How the initramfs ends: as the init program, in the recovery shell, by returning from a fake run,
  or by a panic. The shell is entered at once if it was asked for, and after the message about a
  fatal error otherwise, also when the last call of the switch returned.
\<close>

datatype initramfs_end = Became_Init | In_Shell recovery_end | Returned | Initramfs_Panicked

definition executed :: "(switch_call \<Rightarrow> bool) \<Rightarrow> switch_call list \<Rightarrow> bool" where
  "executed ok calls \<longleftrightarrow> calls \<noteq> [] \<and> (case last calls of Sw_Execve p av env \<Rightarrow> ok (last calls) | _ \<Rightarrow> False)"

definition fatal_shell :: "shell_os \<Rightarrow> string \<Rightarrow> (io_error + string) list \<Rightarrow> initramfs_end" where
  "fatal_shell os e inputs =
     (case print_line os (''writeonce-initramfs: fatal: '' @ e) [] of
        (Inl _, tr) \<Rightarrow> Initramfs_Panicked
      | (Inr _, tr) \<Rightarrow> In_Shell (fst (recovery_shell os inputs tr)))"

definition initramfs_main ::
  "shell_os \<Rightarrow> (switch_call \<Rightarrow> bool) \<Rightarrow> (io_error + string) list \<Rightarrow> (init_end \<times> 'w) option \<Rightarrow> initramfs_end" where
  "initramfs_main os ok inputs run =
     (case run of
        None \<Rightarrow> Initramfs_Panicked
      | Some (Recovery e, w) \<Rightarrow>
          if e = ''wo.recovery'' then In_Shell (fst (recovery_shell os inputs [])) else fatal_shell os e inputs
      | Some (Fake_Done, w) \<Rightarrow> Returned
      | Some (Switched calls, w) \<Rightarrow> if executed ok calls then Became_Init else fatal_shell os ''switch_root'' inputs)"

lemma fatal_shell_stays:
  "console_works os \<Longrightarrow> fatal_shell os e inputs = In_Shell (if list_ex last_input inputs then Paused else Reading)"
  using print_works(2)[of os "''writeonce-initramfs: fatal: '' @ e" "[]"] shell_stays[of os inputs]
  by (cases "print_line os (''writeonce-initramfs: fatal: '' @ e) []") (simp add: fatal_shell_def)

lemma real_run: "initramfs_run k mnt load dv ok exists False pid w = Some (e, w') \<Longrightarrow> e \<noteq> Fake_Done"
  by (auto simp: initramfs_run_def Let_def split: if_splits prod.splits sum.splits option.splits)


definition sample_shell_os :: shell_os where
  "sample_shell_os =
     \<lparr>sh_print = (\<lambda>tr s. True), sh_dir = (\<lambda>p. Inl Not_Found), sh_text = (\<lambda>p. Inl Not_Found), sh_error_text = (\<lambda>e. []),
      sh_fork = (\<lambda>tr. Inr 5)\<rparr>"


end
