(* ===== verification/Boot_Log.thy ===== *)
theory Boot_Log
  imports Boot_Chain
begin

text \<open>
  The boot log of the UEFI program, crates/writeonce-bootloader/src/main.rs: \<open>persist_log\<close> on the
  file boot.log of the boot volume, and the entry point around \<open>try_boot\<close>. The text the steps
  print is an argument, and so is the name of a status.
\<close>

section \<open>The file\<close>

text \<open>
  What the calls for the log return, and the file: its bytes, if it is there. An open with
  \<open>CreateReadWrite\<close> gives whether what it opened is a regular file.
\<close>

record log_volume =
  lg_self :: "nat + bool"
  lg_filesystem :: "nat + unit"
  lg_volume :: "nat + unit"
  lg_open :: "nat + bool"
  lg_delete :: bool
  lg_reopen :: "nat + bool"
  lg_write :: "nat + unit"
  lg_flush :: "nat + unit"

type_synonym log_file = "string option"

definition created :: "log_file \<Rightarrow> log_file" where
  "created f = Some (case f of None \<Rightarrow> [] | Some s \<Rightarrow> s)"

text \<open>A write at the start of a file replaces as many bytes as it writes.\<close>

definition overwritten :: "string \<Rightarrow> log_file \<Rightarrow> log_file" where
  "overwritten buf f = Some (buf @ (case f of None \<Rightarrow> [] | Some s \<Rightarrow> drop (length buf) s))"

definition remove_old :: "log_volume \<Rightarrow> log_file \<Rightarrow> log_file" where
  "remove_old v f =
     (case lg_open v of
        Inl e \<Rightarrow> f
      | Inr regular \<Rightarrow> (if regular \<and> lg_delete v then None else created f))"

definition write_log :: "log_volume \<Rightarrow> string \<Rightarrow> log_file \<Rightarrow> (nat + unit) \<times> log_file" where
  "write_log v buf f =
     (case lg_reopen v of
        Inl e \<Rightarrow> (Inl e, f)
      | Inr regular \<Rightarrow>
          if \<not> regular then (Inl INVALID_PARAMETER, created f)
          else
            case lg_write v of
              Inl e \<Rightarrow> (Inl e, created f)
            | Inr _ \<Rightarrow> (lg_flush v, overwritten buf (created f)))"

definition persist_log :: "log_volume \<Rightarrow> string \<Rightarrow> log_file \<Rightarrow> (nat + unit) \<times> log_file" where
  "persist_log v buf f =
     (case bind_r (lg_self v) (\<lambda>has_device.
           bind_r (if has_device then Inr () else Inl UNSUPPORTED) (\<lambda>_.
           bind_r (lg_filesystem v) (\<lambda>_. lg_volume v))) of
        Inl e \<Rightarrow> (Inl e, f)
      | Inr _ \<Rightarrow> write_log v buf (remove_old v f))"

section \<open>The entry point\<close>

definition fatal_line :: "(nat \<Rightarrow> string) \<Rightarrow> string \<Rightarrow> nat \<Rightarrow> string" where
  "fatal_line show_status step status = ''FATAL: step='' @ step @ '' status='' @ show_status status @ [LF]"

text \<open>
  The loader, with the text of the steps (\<open>said\<close>) and of the hand-off (\<open>bye\<close>): before the kernel
  starts the log is written once; the loader then halts for ever, or the kernel runs. On the
  volume the file is written again with the reason of a halt.
\<close>

definition boot_main ::
  "firmware \<Rightarrow> log_volume \<Rightarrow> (nat \<Rightarrow> string) \<Rightarrow> string \<Rightarrow> string \<Rightarrow> log_file \<Rightarrow> boot_result \<times> log_file" where
  "boot_main fw v show_status said bye f =
     (case boot_steps fw of
        Inl (step, status) \<Rightarrow>
          (Boot_Fatal step status, snd (persist_log v (said @ fatal_line show_status step status) f))
      | Inr cmdline \<Rightarrow>
          (let f' = snd (persist_log v said f) in
           case fw_start fw cmdline of
             None \<Rightarrow> (Kernel_Runs cmdline, f')
           | Some status \<Rightarrow>
               (let step = ''start_image returned (kernel rejected image)'' in
                (Boot_Fatal step status,
                 snd (persist_log v (said @ bye @ fatal_line show_status step status) f')))))"

lemma boot_main_result: "fst (boot_main fw v show_status said bye f) = try_boot fw"
  by (simp add: boot_main_def try_boot_def Let_def split: sum.split option.split prod.split)

section \<open>What the log says\<close>

lemma persist_ok:
  assumes "fst (persist_log v buf f) = Inr ()"
  shows "snd (persist_log v buf f) =
    Some (if lg_open v = Inr True \<and> lg_delete v then buf else buf @ drop (length buf) (case f of None \<Rightarrow> [] | Some s \<Rightarrow> s))"
  using assms
  by (auto simp: persist_log_def write_log_def remove_old_def created_def overwritten_def bind_r_Inr
      split: sum.splits if_splits option.splits)

definition log_works :: "log_volume \<Rightarrow> bool" where
  "log_works v \<longleftrightarrow> lg_self v = Inr True \<and> lg_filesystem v = Inr () \<and> lg_volume v = Inr () \<and> lg_open v = Inr True
     \<and> lg_delete v \<and> lg_reopen v = Inr True \<and> lg_write v = Inr () \<and> lg_flush v = Inr ()"

lemma persist_works: "log_works v \<Longrightarrow> persist_log v buf f = (Inr (), Some buf)"
  by (simp add: log_works_def persist_log_def write_log_def remove_old_def created_def overwritten_def)

text \<open>
  The log decides nothing: whatever its file calls return, the loader ends as \<open>try_boot\<close> does.
  With a volume that works, a halt leaves exactly the text of this boot, whatever was in the file
  before, with the failed step and its status as the last line; a kernel that runs leaves the
  text up to the hand-off.
\<close>

lemma boot_log_names_failure:
  "fst (boot_main fw v show_status said bye f) = try_boot fw
    \<and> (log_works v \<longrightarrow>
        (case try_boot fw of
           Kernel_Runs cmdline \<Rightarrow> snd (boot_main fw v show_status said bye f) = Some said
         | Boot_Fatal step status \<Rightarrow>
             (\<exists>txt. snd (boot_main fw v show_status said bye f) = Some (said @ txt @ fatal_line show_status step status)
                \<and> txt \<in> {[], bye})))"
proof (intro conjI impI boot_main_result)
  assume "log_works v"
  note w = persist_works[OF this]
  show "case try_boot fw of
      Kernel_Runs cmdline \<Rightarrow> snd (boot_main fw v show_status said bye f) = Some said
    | Boot_Fatal step status \<Rightarrow>
        (\<exists>txt. snd (boot_main fw v show_status said bye f) = Some (said @ txt @ fatal_line show_status step status)
           \<and> txt \<in> {[], bye})"
    by (auto simp: boot_main_def try_boot_def w Let_def split: sum.split option.split prod.split)
qed

text \<open>A file that cannot be deleted keeps the end of its old text behind the new one.\<close>

lemma old_log_shows_through:
  "snd (persist_log \<lparr>lg_self = Inr True, lg_filesystem = Inr (), lg_volume = Inr (), lg_open = Inr True, lg_delete = False,
      lg_reopen = Inr True, lg_write = Inr (), lg_flush = Inr ()\<rparr> ''new'' (Some ''old text'')) = Some ''new text''"
  by (simp add: persist_log_def write_log_def remove_old_def created_def overwritten_def)

definition dead_firmware :: firmware where
  "dead_firmware =
     \<lparr>fw_self = Inr False, fw_filesystem = Inl 1, fw_volume = Inl 1, fw_open = (\<lambda>p. Inl 1), fw_size = (\<lambda>p. Inl 1),
      fw_read = (\<lambda>p a n. Inl 1), fw_own_path = Inl 1, fw_push_ok = (\<lambda>n. False), fw_finalize_ok = False,
      fw_load = (\<lambda>p. Inl 1), fw_open_kernel = Inl 1, fw_start = (\<lambda>c. None)\<rparr>"

definition working_volume :: log_volume where
  "working_volume =
     \<lparr>lg_self = Inr True, lg_filesystem = Inr (), lg_volume = Inr (), lg_open = Inr True, lg_delete = True,
      lg_reopen = Inr True, lg_write = Inr (), lg_flush = Inr ()\<rparr>"

lemma boot_log_names_failure_witness:
  "\<exists>txt. snd (boot_main dead_firmware working_volume show_nat ''step 1'' [] (Some ''an older and longer text''))
     = Some (''step 1'' @ txt @ fatal_line show_nat ''loaded image has no device'' UNSUPPORTED)"
proof -
  have "log_works working_volume" by (simp add: log_works_def working_volume_def)
  moreover have "try_boot dead_firmware = Boot_Fatal ''loaded image has no device'' UNSUPPORTED"
    by (simp add: try_boot_def boot_steps_def dead_firmware_def at_step_def)
  ultimately show ?thesis
    using boot_log_names_failure[of dead_firmware working_volume show_nat "''step 1''" "[]" "Some ''an older and longer text''"]
    by auto
qed

end
