(* ===== verification/Boot_Text.thy ===== *)
theory Boot_Text
  imports Boot_Log Rust_Float
begin

text \<open>
  What the UEFI program says (crates/writeonce-bootloader/src/main.rs): the lines of every step of
  \<open>try_boot\<close> in order, as they go to the console and into the log, and the log of a whole boot. The
  address of the device handle and the name of a status are arguments.
\<close>

section \<open>Lines\<close>

type_synonym 'a spoken = "string \<Rightarrow> ((string \<times> nat) + 'a) \<times> string"

definition say :: "string \<Rightarrow> unit spoken" where
  "say line buf = (Inr (), buf @ line @ [LF])"

fun say_all :: "string list \<Rightarrow> unit spoken" where
  "say_all [] buf = (Inr (), buf)"
| "say_all (l # ls) buf = then_r (say l buf) (\<lambda>_. say_all ls)"

definition silently :: "(string \<times> nat) + 'a \<Rightarrow> 'a spoken" where
  "silently r buf = (r, buf)"

definition N_STEPS :: nat where "N_STEPS = 7"

definition heading :: "nat \<Rightarrow> string \<Rightarrow> string" where
  "heading k text = ''['' @ show_nat k @ ''/'' @ show_nat N_STEPS @ ''] '' @ text"

definition detail :: "string \<Rightarrow> string" where
  "detail text = replicate 8 (CHR '' '') @ text"

definition fmt_bytes :: "nat \<Rightarrow> string" where
  "fmt_bytes n =
     (if 1048576 \<le> n then fixed_point 2 (f64_div (f64_of_nat n) 1048576) @ '' MiB ('' @ show_nat n @ '' bytes)''
      else if 1024 \<le> n then fixed_point 2 (f64_div (f64_of_nat n) 1024) @ '' KiB ('' @ show_nat n @ '' bytes)''
      else show_nat n @ '' bytes'')"

text \<open>\<open>encode_utf16().count()\<close>: a character outside the basic plane, of four bytes, takes two units.\<close>

definition utf16_units :: "string \<Rightarrow> nat" where
  "utf16_units s = char_count s + length (filter (\<lambda>c. 0xF0 \<le> (of_char c :: nat)) s)"

section \<open>The steps\<close>

definition title_lines :: "string list" where
  "title_lines = [[], replicate 58 (CHR ''=''), ''  WriteOnce OS '' @ em_dash @ '' UEFI bootloader (Phase 6)'',
     replicate 58 (CHR ''=''), []]"

definition handing_off :: "string list" where
  "handing_off =
     [heading 7 ''Handing off to kernel...'', [],
      ''  +---------------------------------------------------+'',
      ''  |  About to call StartImage(kernel).                |'',
      ''  |                                                   |'',
      ''  |  The screen will briefly go BLANK while the EFI   |'',
      ''  |  stub calls ExitBootServices() and the kernel     |'',
      ''  |  takes over the display. This can last 10-30 sec  |'',
      ''  |  on older hardware. Do not power off.             |'',
      ''  |                                                   |'',
      ''  |  After the blank, you should see kernel boot      |'',
      ''  |  messages starting with [    0.000000] ...        |'',
      ''  |                                                   |'',
      ''  |  If nothing appears within 60 seconds, hold the   |'',
      ''  |  power button 5 sec, mount the USB on your dev    |'',
      ''  |  machine and read '' @ [CHR 0x5C] @ ''EFI'' @ [CHR 0x5C] @ ''WriteOnce'' @ [CHR 0x5C] @ ''boot.log.      |'',
      ''  +---------------------------------------------------+'', []]"

definition LOG_PATH :: string where
  "LOG_PATH = ''EFI'' @ [CHR 0x5C] @ ''WriteOnce'' @ [CHR 0x5C] @ ''boot.log''"

definition flushing :: string where
  "flushing = detail (''flushing log to '' @ CHR 0x5C # LOG_PATH @ ''...'')"

definition leaving :: string where
  "leaving = detail (''StartImage(kernel) '' @ em_dash @ '' see you on the other side.'')"

text \<open>The size of the initramfs is only a warning.\<close>

definition initrd_line :: "(nat \<Rightarrow> string) \<Rightarrow> firmware \<Rightarrow> string" where
  "initrd_line show_status fw =
     (case read_file_size fw INITRD_PATH of
        Inr n \<Rightarrow> detail (''ok '' @ em_dash @ '' '' @ fmt_bytes n @ '' (kernel EFI stub will load it)'')
      | Inl s \<Rightarrow> detail (''WARN '' @ em_dash @ '' could not stat: '' @ show_status s @ '' (boot may still fail)''))"

definition spoken_steps :: "string \<Rightarrow> (nat \<Rightarrow> string) \<Rightarrow> firmware \<Rightarrow> string spoken" where
  "spoken_steps handle show_status fw buf =
     then_r (say_all (title_lines @ [heading 1 ''Locating EFI System Partition (boot device)...'']) buf) (\<lambda>_ buf.
     then_r (silently (at_step ''open LoadedImage(self)'' (fw_self fw)) buf) (\<lambda>has_device buf.
     then_r (silently (if has_device then Inr () else Inl (''loaded image has no device'', UNSUPPORTED)) buf) (\<lambda>_ buf.
     then_r (say_all [detail (''ok '' @ em_dash @ '' loaded from device handle '' @ handle),
              heading 2 ''Opening ESP filesystem (SimpleFileSystem)...''] buf) (\<lambda>_ buf.
     then_r (silently (at_step ''open SimpleFileSystem (boot device has no ESP?)'' (fw_filesystem fw)) buf) (\<lambda>_ buf.
     then_r (silently (at_step ''open ESP root volume'' (fw_volume fw)) buf) (\<lambda>_ buf.
     then_r (say_all [detail ''ok'',
              heading 3 (''Reading kernel cmdline from '' @ CHR 0x5C # CMDLINE_PATH @ ''...'')] buf) (\<lambda>_ buf.
     then_r (silently (at_step (''read '' @ CHR 0x5C # CMDLINE_PATH) (read_file fw CMDLINE_PATH)) buf) (\<lambda>bytes buf.
     let full = compose_cmdline bytes in
     then_r (say_all [detail (''ok '' @ em_dash @ '' '' @ show_nat (length full) @ '' characters''),
              detail (''cmdline = '' @ full),
              heading 4 (''Verifying kernel image at '' @ CHR 0x5C # KERNEL_PATH @ ''...'')] buf) (\<lambda>_ buf.
     then_r (silently (at_step (''verify '' @ CHR 0x5C # KERNEL_PATH) (read_file_size fw KERNEL_PATH)) buf) (\<lambda>n buf.
     then_r (say_all [detail (''ok '' @ em_dash @ '' '' @ fmt_bytes n @ '' (firmware will load it via DevicePath)''),
              heading 5 (''Verifying initramfs at '' @ CHR 0x5C # INITRD_PATH @ ''...''), initrd_line show_status fw,
              heading 6 ''Building DevicePath for kernel + loading via firmware...''] buf) (\<lambda>_ buf.
     then_r (silently (at_step ''build kernel DevicePath'' (build_kernel_device_path fw)) buf) (\<lambda>path buf.
     then_r (silently (at_step ''LoadImage(FromDevicePath) bzImage'' (fw_load fw path)) buf) (\<lambda>_ buf.
     then_r (say (detail (''- LoadImage(FromDevicePath) ok '' @ em_dash @ '' firmware set device_handle + file_path'')) buf) (\<lambda>_ buf.
     then_r (silently (at_step ''open LoadedImage(kernel)'' (fw_open_kernel fw)) buf) (\<lambda>_ buf.
     then_r (say_all ([detail (''- set kernel load_options ('' @ show_nat (utf16_units full) @ '' UTF-16 chars)''),
              detail ''ok''] @ handing_off @ [flushing]) buf) (\<lambda>_ buf. (Inr full, buf)))))))))))))))))"

text \<open>The whole program: \<open>boot_main\<close> with what the steps say.\<close>

definition spoken_boot ::
  "firmware \<Rightarrow> log_volume \<Rightarrow> string \<Rightarrow> (nat \<Rightarrow> string) \<Rightarrow> log_file \<Rightarrow> boot_result \<times> log_file" where
  "spoken_boot fw v handle show_status f =
     (case spoken_steps handle show_status fw [] of
        (Inl (step, status), buf) \<Rightarrow>
          (Boot_Fatal step status, snd (persist_log v (buf @ fatal_line show_status step status) f))
      | (Inr cmdline, buf) \<Rightarrow>
          (let f' = snd (persist_log v buf f); buf = snd (say leaving buf) in
           case fw_start fw cmdline of
             None \<Rightarrow> (Kernel_Runs cmdline, f')
           | Some status \<Rightarrow>
               (let step = ''start_image returned (kernel rejected image)'' in
                (Boot_Fatal step status, snd (persist_log v (buf @ fatal_line show_status step status) f')))))"

section \<open>What the lines tell\<close>

lemma say_all_eq: "say_all ls buf = (Inr (), buf @ concat (map (\<lambda>l. l @ [LF]) ls))"
  by (induction ls arbitrary: buf) (simp_all add: say_def then_r_def)

lemma then_silently: "then_r (silently r buf) f = (case r of Inl e \<Rightarrow> (Inl e, buf) | Inr x \<Rightarrow> f x buf)"
  by (simp add: then_r_def silently_def)

lemma then_say: "then_r (say_all ls buf) f = f () (buf @ concat (map (\<lambda>l. l @ [LF]) ls))"
  "then_r (say l buf) f = f () (buf @ l @ [LF])"
  by (simp_all add: then_r_def say_all_eq say_def)

lemma bind_r_case: "bind_r r f = (case r of Inl e \<Rightarrow> Inl e | Inr x \<Rightarrow> f x)"
  by (cases r) simp_all

lemma spoken_steps_result: "fst (spoken_steps handle show_status fw buf) = boot_steps fw"
  unfolding spoken_steps_def boot_steps_def Let_def then_silently then_say
  by (auto simp: bind_r_case split: sum.split)

text \<open>The step a log has come to: nothing after its heading looks like another heading.\<close>

definition in_phase :: "nat \<Rightarrow> string \<Rightarrow> bool" where
  "in_phase k buf \<longleftrightarrow> (\<exists>front t rest. buf = front @ heading k t @ [LF] @ rest \<and> \<not> contains ''/7]'' rest)"

abbreviation spoken_lines :: "string list \<Rightarrow> string" where
  "spoken_lines ls \<equiv> concat (map (\<lambda>l. l @ [LF]) ls)"

lemma in_phase_after:
  "\<not> contains ''/7]'' (spoken_lines rest) \<Longrightarrow> in_phase k (buf @ spoken_lines (ls @ heading k t # rest))"
  unfolding in_phase_def
  by (rule exI[of _ "buf @ spoken_lines ls"], rule exI[of _ t], rule exI[of _ "spoken_lines rest"]) simp

lemma in_phase_heading:
  "in_phase k (buf @ spoken_lines (ls @ [heading k t]))"
  "in_phase k (buf @ spoken_lines [a, heading k t])"
  "in_phase k (buf @ spoken_lines [a, b, heading k t])"
  "in_phase k (buf @ spoken_lines [a, b, c, heading k t])"
  using in_phase_after[of "[]" k buf ls t] in_phase_after[of "[]" k buf "[a]" t]
    in_phase_after[of "[]" k buf "[a, b]" t] in_phase_after[of "[]" k buf "[a, b, c]" t]
  by simp_all

definition image_loaded :: string where
  "image_loaded = detail (''- LoadImage(FromDevicePath) ok '' @ em_dash @ '' firmware set device_handle + file_path'')"

lemma in_phase_loaded: "in_phase 6 (buf @ spoken_lines [a, b, c, heading 6 t]) \<and> in_phase 6 ((buf @ spoken_lines [a, b, c, heading 6 t]) @ image_loaded @ [LF])"
proof -
  have "\<not> contains ''/7]'' (spoken_lines [image_loaded])" by code_simp
  from in_phase_after[OF this, of 6 buf "[a, b, c]" t] in_phase_heading(4)[of 6 buf a b c t] show ?thesis by simp
qed

text \<open>The number of the step that a failure belongs to.\<close>

definition phase :: "string \<Rightarrow> nat" where
  "phase step =
     (if step \<in> {''open LoadedImage(self)'', ''loaded image has no device''} then 1
      else if step \<in> {''open SimpleFileSystem (boot device has no ESP?)'', ''open ESP root volume''} then 2
      else if step = ''read '' @ CHR 0x5C # CMDLINE_PATH then 3
      else if step = ''verify '' @ CHR 0x5C # KERNEL_PATH then 4
      else if step = ''start_image returned (kernel rejected image)'' then 7
      else 6)"

lemma phases:
  "phase ''open LoadedImage(self)'' = 1" "phase ''loaded image has no device'' = 1"
  "phase ''open SimpleFileSystem (boot device has no ESP?)'' = 2" "phase ''open ESP root volume'' = 2"
  "phase (''read '' @ CHR 0x5C # CMDLINE_PATH) = 3" "phase (''verify '' @ CHR 0x5C # KERNEL_PATH) = 4"
  "phase ''build kernel DevicePath'' = 6" "phase ''LoadImage(FromDevicePath) bzImage'' = 6"
  "phase ''open LoadedImage(kernel)'' = 6" "phase ''start_image returned (kernel rejected image)'' = 7"
  by (simp_all add: phase_def CMDLINE_PATH_def KERNEL_PATH_def)

lemma at_step_fails: "at_step step r = Inl (s, status) \<longleftrightarrow> step = s \<and> r = Inl status"
  by (cases r) (auto simp: at_step_def)

lemma spoken_steps_fails:
  assumes "spoken_steps handle show_status fw buf = (Inl (step, status), buf')"
  shows "in_phase (phase step) buf'"
  using assms
  unfolding spoken_steps_def Let_def then_silently then_say image_loaded_def[symmetric]
  by (auto simp only: prod.inject sum.inject sum.distinct at_step_fails phases in_phase_heading in_phase_loaded
      split: sum.splits if_splits)

lemma lines_end: "\<exists>front. buf @ spoken_lines (ls @ ls') = front @ spoken_lines ls'"
  by (rule exI[of _ "buf @ spoken_lines ls"]) simp

lemma spoken_steps_done:
  assumes "spoken_steps handle show_status fw buf = (Inr cmdline, buf')"
  shows "\<exists>front. buf' = front @ spoken_lines (handing_off @ [flushing])"
  using assms
  unfolding spoken_steps_def Let_def then_silently then_say
  by (auto simp only: prod.inject sum.inject sum.distinct lines_end split: sum.splits if_splits)

lemma no_slash: "CHR ''/'' \<notin> set s \<Longrightarrow> \<not> contains ''/7]'' s"
  by (induction "''/7]''" s rule: contains.induct) (auto simp: starts_with_def)

text \<open>The lines of the hand-off, with and without the last one, come after no later heading.\<close>

lemma last_lines:
  "\<not> contains ''/7]'' (spoken_lines (tl handing_off @ [flushing]))"
  "\<not> contains ''/7]'' (spoken_lines (tl handing_off @ [flushing, leaving]))"
  by (rule no_slash, simp add: handing_off_def flushing_def leaving_def detail_def LOG_PATH_def em_dash_def)+

lemma handing_off_heading: "handing_off = heading 7 ''Handing off to kernel...'' # tl handing_off"
  by (simp add: handing_off_def)

lemma done_in_phase:
  assumes "spoken_steps handle show_status fw buf = (Inr cmdline, buf')"
  shows "in_phase 7 buf'" "in_phase 7 (buf' @ leaving @ [LF])"
proof -
  obtain front where f: "buf' = front @ spoken_lines (handing_off @ [flushing])"
    using spoken_steps_done[OF assms] by blast
  show "in_phase 7 buf'"
    using in_phase_after[OF last_lines(1), of 7 front "[]"] unfolding f
    by (subst handing_off_heading) simp
  show "in_phase 7 (buf' @ leaving @ [LF])"
    using in_phase_after[OF last_lines(2), of 7 front "[]"] unfolding f
    by (subst handing_off_heading) simp
qed



end
