(* ===== verification/Kerngen.thy ===== *)
theory Kerngen
  imports Rust_Text
begin

text \<open>
  The hardware probe, crates/writeonce-kerngen/src (types.rs, probe.rs, main.rs): what it reads of
  /proc and /sys, the order of the devices, and the subcommands. The files, directories and
  links, the clock, \<open>uname\<close> and the JSON printer are the argument \<open>h\<close>. Nothing the probe cannot
  read stops it.
\<close>

section \<open>The schema\<close>

definition PROBE_VERSION :: u32 where "PROBE_VERSION = 1"

record uname_info =
  un_sysname :: string
  un_release :: string
  un_version :: string
  un_machine :: string

record cpu_info =
  cpu_vendor_id :: string
  cpu_family :: u32
  cpu_model :: u32
  cpu_model_name :: string
  cpu_stepping :: u32
  cpu_flags :: "string list"
  cpu_count :: u32

record dmi_info =
  dmi_sys_vendor :: "string option"
  dmi_product_name :: "string option"
  dmi_product_version :: "string option"
  dmi_product_serial :: "string option"
  dmi_board_vendor :: "string option"
  dmi_board_name :: "string option"
  dmi_bios_vendor :: "string option"
  dmi_bios_version :: "string option"
  dmi_bios_date :: "string option"

record firmware_info =
  fw_efi :: bool
  fw_platform_size :: "u32 option"
  fw_secure_boot :: "bool option"

record device =
  dv_subsystem :: string
  dv_modalias :: string
  dv_syspath :: string
  dv_driver :: "string option"

record probe =
  pb_version :: u32
  pb_at_unix :: u64
  pb_uname :: uname_info
  pb_cpu :: cpu_info
  pb_dmi :: dmi_info
  pb_firmware :: firmware_info
  pb_devices :: "device list"

record probe_host =
  ph_now :: "u64 option"
  ph_uname :: "uname_info option"
  ph_text :: "string \<Rightarrow> io_error + string"
  ph_bytes :: "string \<Rightarrow> io_error + string"
  ph_exists :: "string \<Rightarrow> bool"
  ph_dir :: "string \<Rightarrow> io_error + (io_error + string) list"
  ph_link :: "string \<Rightarrow> io_error + string"
  ph_json :: "probe \<Rightarrow> io_error + string"
  ph_write :: "string option \<Rightarrow> string \<Rightarrow> io_error + unit"

section \<open>Kernel and processor\<close>

definition now_unix :: "probe_host \<Rightarrow> u64" where
  "now_unix h = (case ph_now h of None \<Rightarrow> 0 | Some t \<Rightarrow> t)"

definition default_uname :: uname_info where
  "default_uname = \<lparr>un_sysname = [], un_release = [], un_version = [], un_machine = []\<rparr>"

definition read_uname :: "probe_host \<Rightarrow> uname_info" where
  "read_uname h = (case ph_uname h of None \<Rightarrow> default_uname | Some u \<Rightarrow> u)"

definition default_cpu :: cpu_info where
  "default_cpu =
     \<lparr>cpu_vendor_id = [], cpu_family = 0, cpu_model = 0, cpu_model_name = [], cpu_stepping = 0,
      cpu_flags = [], cpu_count = 0\<rparr>"

definition u32_or_zero :: "string \<Rightarrow> u32" where
  "u32_or_zero s = (case parse_u32 s of None \<Rightarrow> 0 | Some n \<Rightarrow> n)"

definition set_cpu_field :: "string \<Rightarrow> string \<Rightarrow> cpu_info \<Rightarrow> cpu_info" where
  "set_cpu_field key v cpu =
     (if key = ''vendor_id'' then cpu\<lparr>cpu_vendor_id := v\<rparr>
      else if key = ''cpu family'' then cpu\<lparr>cpu_family := u32_or_zero v\<rparr>
      else if key = ''model'' then cpu\<lparr>cpu_model := u32_or_zero v\<rparr>
      else if key = ''model name'' then cpu\<lparr>cpu_model_name := v\<rparr>
      else if key = ''stepping'' then cpu\<lparr>cpu_stepping := u32_or_zero v\<rparr>
      else if key = ''flags'' then cpu\<lparr>cpu_flags := split_whitespace v\<rparr>
      else cpu)"

definition cpu_line :: "string \<Rightarrow> cpu_info \<times> bool \<Rightarrow> cpu_info \<times> bool" where
  "cpu_line line st =
     (case st of (cpu, first) \<Rightarrow>
        if line = [] then (cpu, False)
        else
          case split_once (CHR '':'') line of
            None \<Rightarrow> (cpu, first)
          | Some (k, v) \<Rightarrow>
              (let key = trim k; val = trim v;
                   cpu = (if key = ''processor'' then cpu\<lparr>cpu_count := cpu_count cpu + 1\<rparr> else cpu)
               in (if first then set_cpu_field key val cpu else cpu, first)))"

definition cpu_lines :: "string list \<Rightarrow> cpu_info \<times> bool" where
  "cpu_lines ls = fold cpu_line ls (default_cpu, True)"

definition read_cpu :: "probe_host \<Rightarrow> cpu_info" where
  "read_cpu h =
     (case ph_text h ''/proc/cpuinfo'' of Inl e \<Rightarrow> default_cpu | Inr body \<Rightarrow> fst (cpu_lines (lines body)))"

section \<open>DMI and firmware\<close>

definition read_dmi_field :: "probe_host \<Rightarrow> string \<Rightarrow> string option" where
  "read_dmi_field h f =
     (case ph_text h (path_join ''/sys/class/dmi/id'' f) of
        Inl e \<Rightarrow> None
      | Inr s \<Rightarrow> (if trim s = [] then None else Some (trim s)))"

definition read_dmi :: "probe_host \<Rightarrow> dmi_info" where
  "read_dmi h =
     \<lparr>dmi_sys_vendor = read_dmi_field h ''sys_vendor'', dmi_product_name = read_dmi_field h ''product_name'',
      dmi_product_version = read_dmi_field h ''product_version'',
      dmi_product_serial = read_dmi_field h ''product_serial'', dmi_board_vendor = read_dmi_field h ''board_vendor'',
      dmi_board_name = read_dmi_field h ''board_name'', dmi_bios_vendor = read_dmi_field h ''bios_vendor'',
      dmi_bios_version = read_dmi_field h ''bios_version'', dmi_bios_date = read_dmi_field h ''bios_date''\<rparr>"

text \<open>The first readable entry whose name fits; a file that is too short leaves the search going on.\<close>

fun find_secure_boot :: "probe_host \<Rightarrow> string \<Rightarrow> (io_error + string) list \<Rightarrow> bool option" where
  "find_secure_boot h dir [] = None"
| "find_secure_boot h dir (Inl e # es) = find_secure_boot h dir es"
| "find_secure_boot h dir (Inr n # es) =
     (if \<not> starts_with ''SecureBoot-'' n then find_secure_boot h dir es
      else
        case ph_bytes h (path_join dir n) of
          Inl e \<Rightarrow> None
        | Inr bs \<Rightarrow> (if 5 \<le> length bs then Some (bs ! 4 \<noteq> NUL) else find_secure_boot h dir es))"

definition read_secure_boot :: "probe_host \<Rightarrow> bool option" where
  "read_secure_boot h =
     (let dir = ''/sys/firmware/efi/efivars'' in
      case ph_dir h dir of Inl e \<Rightarrow> None | Inr es \<Rightarrow> find_secure_boot h dir es)"

definition read_firmware :: "probe_host \<Rightarrow> firmware_info" where
  "read_firmware h =
     (let root = ''/sys/firmware/efi'' in
      if \<not> ph_exists h root then \<lparr>fw_efi = False, fw_platform_size = None, fw_secure_boot = None\<rparr>
      else
        \<lparr>fw_efi = True,
         fw_platform_size = (case ph_text h (path_join root ''fw_platform_size'') of
            Inl e \<Rightarrow> None | Inr s \<Rightarrow> parse_u32 (trim s)),
         fw_secure_boot = read_secure_boot h\<rparr>)"

section \<open>Devices\<close>

definition BUSES :: "string list" where
  "BUSES = [''pci'', ''usb'', ''acpi'', ''virtio'', ''platform'']"

definition read_driver_symlink :: "probe_host \<Rightarrow> string \<Rightarrow> string option" where
  "read_driver_symlink h syspath =
     (case ph_link h (path_join syspath ''driver'') of Inl e \<Rightarrow> None | Inr target \<Rightarrow> path_file_name target)"

definition read_device :: "probe_host \<Rightarrow> string \<Rightarrow> string \<Rightarrow> device option" where
  "read_device h bus syspath =
     (case ph_text h (path_join syspath ''modalias'') of
        Inl e \<Rightarrow> None
      | Inr s \<Rightarrow>
          if trim s = [] then None
          else Some \<lparr>dv_subsystem = bus, dv_modalias = trim s, dv_syspath = syspath,
                     dv_driver = read_driver_symlink h syspath\<rparr>)"

fun read_entries :: "probe_host \<Rightarrow> string \<Rightarrow> string \<Rightarrow> (io_error + string) list \<Rightarrow> device list" where
  "read_entries h bus dir [] = []"
| "read_entries h bus dir (Inl e # es) = read_entries h bus dir es"
| "read_entries h bus dir (Inr n # es) =
     (case read_device h bus (path_join dir n) of
        None \<Rightarrow> read_entries h bus dir es
      | Some d \<Rightarrow> d # read_entries h bus dir es)"

definition bus_dir :: "string \<Rightarrow> string" where
  "bus_dir bus = ''/sys/bus/'' @ bus @ ''/devices''"

definition read_bus :: "probe_host \<Rightarrow> string \<Rightarrow> device list" where
  "read_bus h bus =
     (case ph_dir h (bus_dir bus) of Inl e \<Rightarrow> [] | Inr es \<Rightarrow> read_entries h bus (bus_dir bus) es)"

text \<open>The key of the order: the subsystem, then the path, compared byte by byte.\<close>

datatype device_key = Device_Key (dk_subsystem: string) (dk_syspath: string)

instantiation device_key :: linorder
begin

definition less_eq_device_key :: "device_key \<Rightarrow> device_key \<Rightarrow> bool" where
  "a \<le> b \<longleftrightarrow> dk_subsystem a < dk_subsystem b \<or> dk_subsystem a = dk_subsystem b \<and> dk_syspath a \<le> dk_syspath b"

definition less_device_key :: "device_key \<Rightarrow> device_key \<Rightarrow> bool" where
  "a < b \<longleftrightarrow> dk_subsystem a < dk_subsystem b \<or> dk_subsystem a = dk_subsystem b \<and> dk_syspath a < dk_syspath b"

instance
proof
  fix a b c :: device_key
  show "(a < b) = (a \<le> b \<and> \<not> b \<le> a)" by (auto simp: less_eq_device_key_def less_device_key_def)
  show "a \<le> a" by (simp add: less_eq_device_key_def)
  show "a \<le> b \<Longrightarrow> b \<le> c \<Longrightarrow> a \<le> c" by (auto simp: less_eq_device_key_def)
  show "a \<le> b \<Longrightarrow> b \<le> a \<Longrightarrow> a = b" by (cases a; cases b) (auto simp: less_eq_device_key_def)
  show "a \<le> b \<or> b \<le> a" by (auto simp: less_eq_device_key_def)
qed

end

definition device_key :: "device \<Rightarrow> device_key" where
  "device_key d = Device_Key (dv_subsystem d) (dv_syspath d)"

definition read_devices :: "probe_host \<Rightarrow> device list" where
  "read_devices h = sort_key device_key (concat (map (read_bus h) BUSES))"

definition collect :: "probe_host \<Rightarrow> probe" where
  "collect h =
     \<lparr>pb_version = PROBE_VERSION, pb_at_unix = now_unix h, pb_uname = read_uname h, pb_cpu = read_cpu h,
      pb_dmi = read_dmi h, pb_firmware = read_firmware h, pb_devices = read_devices h\<rparr>"

section \<open>Subcommands\<close>

text \<open>The output, or \<open>None\<close> inside the right for a request for help.\<close>

fun probe_args :: "string list \<Rightarrow> string option \<Rightarrow> io_error + string option option" where
  "probe_args [] out = Inr (Some out)"
| "probe_args (x # xs) out =
     (if x = ''-o'' \<or> x = ''--output''
      then (case xs of [] \<Rightarrow> Inl (Other_Error ''--output requires a value'') | v # ys \<Rightarrow> probe_args ys (Some v))
      else if x = ''-h'' \<or> x = ''--help'' then Inr None
      else Inl (Other_Error (''probe: unknown argument: '' @ x)))"

definition run_probe :: "probe_host \<Rightarrow> string list \<Rightarrow> io_error + unit" where
  "run_probe h args =
     bind_r (probe_args args None) (\<lambda>a.
       case a of
         None \<Rightarrow> Inr ()
       | Some out \<Rightarrow>
           bind_r (ph_json h (collect h)) (\<lambda>json.
             ph_write h (if out = Some ''-'' then None else out) (json @ [LF])))"

definition kerngen_main :: "probe_host \<Rightarrow> string list \<Rightarrow> nat" where
  "kerngen_main h argv =
     (case nth_opt argv 1 of
        None \<Rightarrow> 0
      | Some c \<Rightarrow>
          if c = ''probe'' then (case run_probe h (drop 2 argv) of Inl e \<Rightarrow> 1 | Inr _ \<Rightarrow> 0)
          else if c \<in> {''-h'', ''--help'', ''help''} then 0
          else 2)"

section \<open>What the probe reports\<close>

lemma read_entries_set:
  "d \<in> set (read_entries h bus dir es) \<longleftrightarrow> (\<exists>n. Inr n \<in> set es \<and> read_device h bus (path_join dir n) = Some d)"
  by (induction h bus dir es rule: read_entries.induct) (auto split: option.splits)

text \<open>A device of a bus: an entry of its directory with a modalias that is not blank.\<close>

definition is_device :: "probe_host \<Rightarrow> string \<Rightarrow> device \<Rightarrow> bool" where
  "is_device h bus d \<longleftrightarrow>
     (\<exists>es n m. ph_dir h (bus_dir bus) = Inr es \<and> Inr n \<in> set es
        \<and> ph_text h (path_join (path_join (bus_dir bus) n) ''modalias'') = Inr m \<and> trim m \<noteq> []
        \<and> d = \<lparr>dv_subsystem = bus, dv_modalias = trim m, dv_syspath = path_join (bus_dir bus) n,
               dv_driver = read_driver_symlink h (path_join (bus_dir bus) n)\<rparr>)"

lemma read_bus_set: "d \<in> set (read_bus h bus) \<longleftrightarrow> is_device h bus d"
proof -
  have "read_device h bus p = Some d \<longleftrightarrow> (\<exists>m. ph_text h (path_join p ''modalias'') = Inr m \<and> trim m \<noteq> []
      \<and> d = \<lparr>dv_subsystem = bus, dv_modalias = trim m, dv_syspath = p, dv_driver = read_driver_symlink h p\<rparr>)" for p
    by (auto simp: read_device_def split: sum.splits)
  then show ?thesis
    by (cases "ph_dir h (bus_dir bus)") (auto simp: read_bus_def is_device_def read_entries_set)
qed

text \<open>
  C35: the probe lists exactly the devices of the five buses whose modalias can be read and is not
  blank, each with its driver, as often as the directories list them, in increasing order of
  subsystem and path; what cannot be read is left out without stopping the probe.
\<close>

theorem probe_devices:
  "sorted (map device_key (pb_devices (collect h)))
    \<and> (\<forall>d. d \<in> set (pb_devices (collect h)) \<longleftrightarrow> (\<exists>bus \<in> set BUSES. is_device h bus d))
    \<and> mset (pb_devices (collect h)) = (\<Sum>bus \<leftarrow> BUSES. mset (read_bus h bus))"
  by (simp add: collect_def read_devices_def read_bus_set mset_concat comp_def)

section \<open>The first processor block\<close>

text \<open>The fields of the processor, without the count.\<close>

definition cpu_identity :: "cpu_info \<Rightarrow> cpu_info" where
  "cpu_identity c = c\<lparr>cpu_count := 0\<rparr>"

definition is_processor_line :: "string \<Rightarrow> bool" where
  "is_processor_line l \<longleftrightarrow> (case split_once (CHR '':'') l of None \<Rightarrow> False | Some (k, v) \<Rightarrow> trim k = ''processor'')"

lemma split_once_Nil [simp]: "split_once c [] = None"
  by (simp add: split_once_def)

lemma set_cpu_field_count [simp]: "cpu_count (set_cpu_field k v c) = cpu_count c"
  by (simp add: set_cpu_field_def)

lemma cpu_line_count:
  "cpu_count (fst (cpu_line l st)) = cpu_count (fst st) + (if is_processor_line l then 1 else 0)"
  by (cases st) (auto simp: cpu_line_def is_processor_line_def Let_def split: option.splits)

lemma cpu_lines_count:
  "cpu_count (fst (fold cpu_line ls st)) = cpu_count (fst st) + of_nat (length (filter is_processor_line ls))"
  by (induction ls arbitrary: st) (simp_all add: cpu_line_count)

lemma cpu_later_blocks: "\<not> snd st \<Longrightarrow> cpu_identity (fst (fold cpu_line ls st)) = cpu_identity (fst st) \<and> \<not> snd (fold cpu_line ls st)"
proof (induction ls arbitrary: st)
  case (Cons l ls)
  have "\<not> snd (cpu_line l st)" "cpu_identity (fst (cpu_line l st)) = cpu_identity (fst st)"
    using Cons.prems by (cases st; auto simp: cpu_line_def cpu_identity_def Let_def split: option.splits)+
  with Cons.IH[of "cpu_line l st"] show ?case by simp
qed simp

text \<open>
  Of /proc/cpuinfo, the count of processors is the number of processor lines (as a 32-bit
  number), and every other field is decided by the lines before the first empty one: what later
  blocks say is not looked at.
\<close>

lemma cpu_first_block:
  assumes "ph_text h ''/proc/cpuinfo'' = Inr body" "lines body = first @ [] # rest" 
  shows "cpu_identity (read_cpu h) = cpu_identity (fst (cpu_lines first))
    \<and> cpu_count (read_cpu h) = of_nat (length (filter is_processor_line (lines body)))"
proof
  have "cpu_line [] st = (fst st, False)" for st by (cases st) (simp add: cpu_line_def)
  then show "cpu_identity (read_cpu h) = cpu_identity (fst (cpu_lines first))"
    using cpu_later_blocks[of "(fst (cpu_lines first), False)" rest]
    by (simp add: read_cpu_def assms cpu_lines_def)
  show "cpu_count (read_cpu h) = of_nat (length (filter is_processor_line (lines body)))"
    using cpu_lines_count[of "lines body" "(default_cpu, True)"]
    by (simp add: read_cpu_def assms(1) cpu_lines_def default_cpu_def)
qed

end
