(* ===== verification/Sys_Calls.thy ===== *)
theory Sys_Calls
  imports Pid1
begin

text \<open>
  The small wrappers of system calls that other theories take as one operation: the signal
  descriptors (writeonce-pid1/src/signal.rs, writeonce-svc/src/signal.rs), mounting and modules in
  the initramfs (mount.rs, modules.rs), the child that is made in a control group (cgroup.rs of
  writeonce-svc), and the pipes and the switch of terminals of writeonce-logind. A call is given
  with what it returns, an error number or a result, and the calls made are listed.
\<close>

section \<open>Calls\<close>

record clone_args =
  ca_flags :: u64
  ca_pidfd :: u64
  ca_child_tid :: u64
  ca_parent_tid :: u64
  ca_exit_signal :: u64
  ca_stack :: u64
  ca_stack_size :: u64
  ca_tls :: u64
  ca_set_tid :: u64
  ca_set_tid_size :: u64
  ca_cgroup :: u64

datatype sys_call =
    Block_Signals "nat list" | Signalfd "nat list" nat
  | Mount_Call string string string u64 "string option" | Move_Mount_Call string string
  | Open_For_Read string | Open_Read_Write string | Finit_Module int string nat
  | Clone3 clone_args nat | Pipe2 nat | Ioctl int nat u64 | Create_Dirs string

type_synonym sys = "sys_call \<Rightarrow> nat + int"
type_synonym 'a traced = "(nat + 'a) \<times> sys_call list"

definition call :: "sys \<Rightarrow> sys_call \<Rightarrow> int traced" where
  "call sys c = (sys c, [c])"

definition and_then :: "'a traced \<Rightarrow> ('a \<Rightarrow> 'b traced) \<Rightarrow> 'b traced" where
  "and_then r f = (case r of (Inl e, cs) \<Rightarrow> (Inl e, cs) | (Inr x, cs) \<Rightarrow> (case f x of (r', cs') \<Rightarrow> (r', cs @ cs')))"

definition done_call :: "int traced \<Rightarrow> unit traced" where
  "done_call r = and_then r (\<lambda>_. (Inr (), []))"

text \<open>One error number counts as success.\<close>

definition forgiving :: "nat \<Rightarrow> unit traced \<Rightarrow> unit traced" where
  "forgiving errno r = (case r of (Inl e, cs) \<Rightarrow> (if e = errno then Inr () else Inl e, cs) | ok \<Rightarrow> ok)"

definition EEXIST :: nat where "EEXIST = 17"

section \<open>Signals\<close>

definition pid1_signals :: "nat list" where "pid1_signals = [SIGCHLD, SIGTERM, SIGINT, SIGHUP]"
definition svc_signals :: "nat list" where "svc_signals = [SIGCHLD, SIGTERM, SIGINT, SIGHUP]"

text \<open>SFD_CLOEXEC and SFD_NONBLOCK\<close>

definition sfd_flags :: nat where "sfd_flags = 2 ^ 19 + 2 ^ 11"

definition pid1_install :: "sys \<Rightarrow> int traced" where
  "pid1_install sys = and_then (call sys (Block_Signals pid1_signals)) (\<lambda>_. call sys (Signalfd pid1_signals sfd_flags))"

definition svc_install :: "sys \<Rightarrow> int traced" where
  "svc_install sys = and_then (call sys (Block_Signals svc_signals)) (\<lambda>_. call sys (Signalfd svc_signals sfd_flags))"

section \<open>Mounts and modules of the initramfs\<close>

definition initramfs_mount :: "sys \<Rightarrow> string \<Rightarrow> string \<Rightarrow> string \<Rightarrow> u64 \<Rightarrow> string option \<Rightarrow> unit traced" where
  "initramfs_mount sys source target fstype flags data =
     (case forgiving EBUSY (done_call (call sys (Mount_Call source target fstype flags data))) of
        (r, cs) \<Rightarrow> (r, Create_Dirs target # cs))"

definition initramfs_essentials :: "sys \<Rightarrow> unit traced" where
  "initramfs_essentials sys =
     and_then (initramfs_mount sys ''proc'' ''/proc'' ''proc'' 0 None) (\<lambda>_.
     and_then (initramfs_mount sys ''sysfs'' ''/sys'' ''sysfs'' 0 None) (\<lambda>_.
       initramfs_mount sys ''devtmpfs'' ''/dev'' ''devtmpfs'' 0 (Some ''mode=755'')))"

definition move_mount :: "sys \<Rightarrow> string \<Rightarrow> string \<Rightarrow> unit traced" where
  "move_mount sys source target = done_call (call sys (Move_Mount_Call source target))"

definition finit_module :: "sys \<Rightarrow> string \<Rightarrow> unit traced" where
  "finit_module sys path =
     and_then (call sys (Open_For_Read path)) (\<lambda>fd. forgiving EEXIST (done_call (call sys (Finit_Module fd [] 0))))"

section \<open>Processes, pipes and terminals\<close>

definition CLONE_INTO_CGROUP :: u64 where "CLONE_INTO_CGROUP = 0x200000000"

definition cgroup_clone_args :: "int \<Rightarrow> clone_args" where
  "cgroup_clone_args fd =
     \<lparr>ca_flags = CLONE_INTO_CGROUP, ca_pidfd = 0, ca_child_tid = 0, ca_parent_tid = 0, ca_exit_signal = 17, ca_stack = 0,
      ca_stack_size = 0, ca_tls = 0, ca_set_tid = 0, ca_set_tid_size = 0, ca_cgroup = word_of_int fd\<rparr>"

text \<open>Eleven fields of eight bytes.\<close>

definition clone3_into_cgroup :: "sys \<Rightarrow> int \<Rightarrow> int traced" where
  "clone3_into_cgroup sys fd = call sys (Clone3 (cgroup_clone_args fd) 88)"

definition O_CLOEXEC :: nat where "O_CLOEXEC = 2 ^ 19"

text \<open>The kernel's two descriptors are arguments.\<close>

definition make_pipe_cloexec :: "sys \<Rightarrow> int \<times> int \<Rightarrow> (int \<times> int) traced" where
  "make_pipe_cloexec sys fds =
     (case call sys (Pipe2 O_CLOEXEC) of
        (Inl e, cs) \<Rightarrow> (Inl e, cs)
      | (Inr _, cs) \<Rightarrow> (Inr fds, cs))"

definition VT_ACTIVATE :: nat where "VT_ACTIVATE = 0x5606"

definition activate_vt :: "sys \<Rightarrow> u32 \<Rightarrow> unit traced" where
  "activate_vt sys vtnr =
     and_then (call sys (Open_Read_Write ''/dev/tty0'')) (\<lambda>fd. done_call (call sys (Ioctl fd VT_ACTIVATE (ucast vtnr))))"

section \<open>What they promise\<close>

lemmas wrappers = call_def and_then_def done_call_def forgiving_def

text \<open>
  The signals of the descriptor are blocked before it is made, so none is delivered in between; a
  descriptor is only asked for when blocking worked.
\<close>

lemma install_blocks_first:
  "snd (pid1_install sys) = Block_Signals pid1_signals # (if isl (sys (Block_Signals pid1_signals)) then [] else [Signalfd pid1_signals sfd_flags])"
  "snd (svc_install sys) = Block_Signals svc_signals # (if isl (sys (Block_Signals svc_signals)) then [] else [Signalfd svc_signals sfd_flags])"
  by (auto simp: pid1_install_def svc_install_def wrappers split: sum.split)

text \<open>
  Mounting the essentials again is no error: a mount that is in place answers \<open>EBUSY\<close>, and all three
  are tried.
\<close>

lemma essentials_again:
  assumes "\<And>c. sys c = Inl EBUSY \<or> (\<exists>r. sys c = Inr r)"
  shows "fst (initramfs_essentials sys) = Inr ()" "length (snd (initramfs_essentials sys)) = 6"
proof -
  have m: "initramfs_mount sys a b c d e = (Inr (), [Create_Dirs b, Mount_Call a b c d e])" for a b c d e
    using assms[of "Mount_Call a b c d e"] by (auto simp: initramfs_mount_def wrappers)
  show "fst (initramfs_essentials sys) = Inr ()" "length (snd (initramfs_essentials sys)) = 6"
    by (simp_all add: initramfs_essentials_def m and_then_def)
qed

text \<open>A module that is loaded already is no error either; one that cannot be opened is not loaded.\<close>

lemma finit_module_outcome:
  "sys (Open_For_Read path) = Inr fd \<Longrightarrow> sys (Finit_Module fd [] 0) = Inl EEXIST \<Longrightarrow> fst (finit_module sys path) = Inr ()"
  "sys (Open_For_Read path) = Inl e \<Longrightarrow> finit_module sys path = (Inl e, [Open_For_Read path])"
  by (simp_all add: finit_module_def wrappers)

end
