(* ===== verification/Spec2Isabelle.thy ===== *)
theory Spec2Isabelle
  imports Daemon Client Inhibitor_Watch Logind_Main Session_Handover Installer_Guards Installer_Text
    Installer_Artifacts Recovery Boot_Text Kerngen Sys_Calls
begin

text \<open>
  WriteOnce OS: a verification library for the Rust programs under crates/, which take a machine
  from its firmware to a user's session and install the system on a disk.

  \<^bold>\<open>The programs and how they meet.\<close> The installer (writeonce-installer) partitions a disk, unpacks
  an image, rewrites its account files and puts kernel, initramfs and a command line on the boot
  partition. The UEFI program (writeonce-bootloader) reads that command line and starts the kernel
  with it; the initramfs (writeonce-initramfs) finds the root device it names, mounts it and
  executes PID 1 (writeonce-pid1), or enters a recovery shell. PID 1 reaps orphans, turns signals
  into a shutdown and starts the supervisor (writeonce-svc), which loads unit files, orders and
  starts units, restarts services and answers the client wo-ctl on a socket. Among its services are
  the login daemon (writeonce-logind), which keeps sessions and inhibitors for the bus, and the
  console login (writeonce-login). The login authenticates a user with PAM and forks a helper
  (writeonce-session-create) that registers the session with the daemon and becomes the user's
  session. writeonce-kerngen prints what hardware it finds.

  \<^bold>\<open>Theories and sources.\<close>
  Prelude holds the integer types, results and the locales of state machines and of identifier
  sources; Rust_Text the operations of Rust's strings, paths and number formats; Worklist and Kahn
  the two graph algorithms of svc/graph.rs; Kernel the system calls the programs make, over an
  abstract world; Sys_Calls the wrappers of single system calls; Traces the laws of programs that are
  modelled as traces; Rust_Float the decimals of 64-bit floats.
  \<^item> Supervisor. Config: svc/config.rs, config/ (unit files, durations). Graph: the registry of
    svc/graph.rs. Transaction: its start and stop transactions. Spawn: spawn.rs and cgroup.rs, the
    child call by call. Supervisor: state.rs, the record of units, processes, restarts and histories
    with one definition per method. Sim_Kernel: a kernel for the witnesses. Lifecycle: what the
    supervisor promises. Control: control.rs and enabled.rs. Client: the socket and bin/wo-ctl.rs,
    and both ends together. Daemon: main.rs and signal.rs, the event loop.
  \<^item> Boot. Boot_Chain: the boot path of the UEFI program and bootloader.rs of the installer. Boot_Log:
    its entry point and log file. Boot_Text: every line it says. Initramfs: cmdline.rs, discover.rs, modules.rs, switch_root.rs and
    run of main.rs. Recovery: the recovery shell. Pid1: all of writeonce-pid1.
  \<^item> Login. Logind_State: state.rs of the daemon. Logind: manager.rs, session.rs and seat.rs behind
    the lock. Logind_Safety: its invariant and refinement. Inhibitor_Watch: inhibitor.rs as a step
    relation with the bus calls. Logind_Main: its start. Login: config.rs, term.rs, pam.rs and
    main.rs of the console login. Login_Protocol: the protocol it keeps. Session_Create: the helper.
    Session_Handover: the helper and the login together.
  \<^item> Installer. Installer_Form: the specification, the prompts and the form of tui.rs.
    Installer_Safety: what the form lets through. Installer_Screen: what it draws, and the terminal
    around it. Installer_Image: disks, the manifest, account files. Installer_Artifacts: the digests
    of files read in pieces, and the image. Installer: the pipeline of main.rs as a trace.
    Installer_Guards: its guards. Installer_Text: what is printed outside the form.
  \<^item> Kerngen: types.rs, probe.rs and main.rs of writeonce-kerngen.

  \<^bold>\<open>How the code is modelled.\<close> A struct is a record, an enum a datatype, a w-bit integer a word, a
  \<open>String\<close> the list of its UTF-8 bytes, a \<open>Result\<close> a sum with the error on the left, the question
  mark \<open>bind_r\<close>, or \<open>then_r\<close> where a world or a trace is threaded. A hash map is an association
  list, and the order it is iterated in an argument. A panic is \<open>None\<close> where a definition returns an
  option of its result; the loops that may not end are \<open>partial_function (option)\<close>, whose \<open>None\<close> is
  not returning, and the theorems about them state that the result is \<open>Some\<close>. The loop of the login
  and the event loops run for a number of rounds or over a list of events, and the theorems hold for
  every number and every list, so no bound has to be large enough; only \<open>find_leader\<close> counts down,
  from 32, as the code does. Machine arithmetic wraps as in a release build.

  \<^bold>\<open>What is assumed.\<close> The operating system, PAM, the bus, TOML, JSON and SHA-256 libraries, openssl,
  sgdisk, mkfs and mount are arguments of the definitions. What the theorems need of them are named
  hypotheses: \<open>kernel_ok\<close> (waitpid reports and removes unreaped children, fork makes new ones),
  \<open>clock_ok\<close> and \<open>files_clock_ok\<close> (time does not run backwards and sleeping moves it), \<open>mortal\<close>
  (processes that are killed die), \<open>epoll_ok\<close> and \<open>pid1_epoll_ok\<close> (what a wait may return), \<open>permuting\<close>
  (iteration visits every entry once), \<open>env_ok\<close> (object paths of plain names are valid), \<open>serves\<close>
  and \<open>reads_files\<close> (reads return what the file holds, in pieces), \<open>streaming\<close> (a hasher may be fed in
  pieces), \<open>clean_field\<close> (no separators in an account field), \<open>one_line\<close> (a reply line is one line),
  \<open>console_works\<close> and \<open>log_works\<close> (the console and the boot volume can be written). Witnesses run
  the theorems on concrete instances of all of them.

  \<^bold>\<open>What the lemmas show.\<close> Supervisor: transactions list the requirement closure in an order that
  respects the edges and do not depend on hash order; an invariant holds along every sequence of
  operations; stopping ends, restarts keep their rate limit, nothing starts after a shutdown; the exit status of
  the client tells the outcome of its request. Boot:
  the root device written by the installer is the one mounted; the search for it ends; PID 1 shuts
  down within its grace period; the recovery shell never exits; the log tells the step that failed. Login:
  the daemon refines a table of sessions and never panics on admissible calls; inhibitors follow
  their callers; the login runs a protocol with PAM in which a session is forked only when
  everything was granted and every transaction is undone; the session that results is that of the
  user PAM named, registered, and without privileges. Installer: nothing is written before the
  checks, which cover all bytes of every artifact, everything stays on the chosen disk and in the work directory, every mount is undone, and
  a plan that leaves the form is sound and is the one its last screen showed, while passwords are
  never shown unasked.
  The locales and their interpretations: \<open>machine\<close>, \<open>latched_machine\<close> (\<open>ld\<close>, \<open>form\<close>), \<open>id_source\<close> (\<open>sid\<close>,
  \<open>iid\<close>), \<open>worklist\<close> (\<open>requirement\<close>, \<open>hard_requirement\<close>, \<open>dependent\<close>), \<open>trace_law\<close> with \<open>inst_law\<close> (\<open>work\<close>),
  \<open>terminal_law\<close> (\<open>calm\<close>) and \<open>login_law\<close> (\<open>forks\<close>).

  \<^bold>\<open>Not modelled.\<close> Log lines on stderr, numbered progress lines and usage texts (printing only); how
  ratatui lays widgets out on the cells of a terminal; zstd and tar (the unpacking of the image is one
  operation); the UTF-16 encoding of the command line, of which only the length is; unit and integration tests, build scripts and packaging. White space
  outside ASCII is not recognised by the string operations. Messages written with several system
  calls are one event.
\<close>

end
